(* ===== verification/Prelude.thy ===== *)
theory Prelude
  imports Main "HOL-Library.While_Combinator" "HOL-Library.Sublist"
begin

text \<open>
  Shared vocabulary of the development: the rule collections the component theories
  fill, the JavaScript string primitive the board code uses to tell colours apart
  (\<open>String.prototype.includes\<close>), and generic lemmas on association lists,
  \<open>find\<close> and \<open>while_option\<close> that the component proofs share.
\<close>

named_theorems obj_simps "rewrite rules of the JavaScript object model"
named_theorems board_simps "unfolding rules of the board handlers"

subsection \<open>JavaScript strings\<close>

text \<open>
  \<open>s.includes(sub)\<close>: whether \<open>sub\<close> occurs as a contiguous substring of \<open>s\<close>.
  Written as a structural recursion so that a closed instance evaluates by \<open>simp\<close>;
  \<open>str_includes_sublist\<close> relates it to the library's \<open>sublist\<close>.
\<close>

fun starts_with :: "string \<Rightarrow> string \<Rightarrow> bool" where
  "starts_with s [] = True"
| "starts_with [] (c # cs) = False"
| "starts_with (a # as) (c # cs) = (a = c \<and> starts_with as cs)"

fun str_includes :: "string \<Rightarrow> string \<Rightarrow> bool" where
  "str_includes [] sub = (sub = [])"
| "str_includes (a # as) sub = (starts_with (a # as) sub \<or> str_includes as sub)"

lemma starts_with_prefix: "starts_with s sub \<longleftrightarrow> prefix sub s"
  by (induction s sub rule: starts_with.induct) auto

lemma str_includes_sublist: "str_includes s sub \<longleftrightarrow> sublist sub s"
  by (induction s) (auto simp: starts_with_prefix sublist_Cons_right)

subsection \<open>Association lists\<close>

lemma map_of_filter_key:
  "map_of (filter (\<lambda>(k', _). k' \<noteq> k) m) = (map_of m)(k := None)"
  by (induction m) (auto simp: fun_eq_iff)

lemma filter_key_absent:
  "k \<notin> fst ` set m \<Longrightarrow> filter (\<lambda>(k', _). k' \<noteq> k) m = m"
  by (induction m) auto

lemma map_of_rev_distinct:
  "distinct (map fst m) \<Longrightarrow> map_of (rev m) = map_of m"
  by (induction m) (auto simp: fun_eq_iff map_add_def split: option.splits dest: map_of_SomeD
      intro: rev_image_eqI)

lemma distinct_map_fst_filter [intro]:
  "distinct (map fst m) \<Longrightarrow> distinct (map fst (filter P m))"
  by (induction m) auto

lemma find_Some_in_set [dest]: "find P xs = Some x \<Longrightarrow> x \<in> set xs \<and> P x"
  by (metis find_Some_iff nth_mem)

subsection \<open>Loops as \<open>while_option\<close>\<close>

text \<open>
  The source's \<open>while\<close> loops are kept as \<open>while_option\<close>: \<open>None\<close> is a loop that
  never exits. These two facts read the result off the iterates of the body.
\<close>

lemma while_option_None_iff:
  "while_option b c s = None \<longleftrightarrow> (\<forall>k. b ((c ^^ k) s))"
  by (simp add: while_option_def)

lemma while_option_iterate:
  assumes "\<forall>i < k. b ((c ^^ i) s)"
  shows "while_option b c s = while_option b c ((c ^^ k) s)"
  using assms
proof (induction k arbitrary: s)
  case 0
  then show ?case by simp
next
  case (Suc k)
  then have "b s" by fastforce
  moreover from Suc.prems have "\<forall>i < k. b ((c ^^ i) (c s))"
    by (metis Suc_mono funpow_Suc_right o_apply)
  ultimately show ?case
    using Suc.IH by (metis funpow_Suc_right o_apply while_option_unfold)
qed

end
