(* ===== verification/JsObject.thy ===== *)
theory JsObject
  imports Prelude
begin

text \<open>
  The JavaScript object semantics the board code relies on. \<open>piecePositions\<close> in
  \<^verbatim>\<open>src/src/chessboard.tsx\<close> is a plain object keyed by strings, and the code reads and
  writes it only through spread (\<open>{...prev, [k]: v}\<close>, \<open>{...prev, ...d}\<close>),
  \<open>delete\<close>, \<open>Object.values\<close> and \<open>Object.entries(..).find\<close>. String keys of an
  object keep their insertion order, an assignment to a present key keeps its position,
  a new key goes last; since \<open>find\<close> returns the first match, the order is part of
  the behaviour, so an object is an association list with distinct keys. The lemmas
  show that these operations keep the keys distinct and that each one refines the
  corresponding operation on the abstract partial map \<open>map_of\<close>.
\<close>

type_synonym ('k, 'v) jsobj = "('k \<times> 'v) list"

definition obj_wf :: "('k, 'v) jsobj \<Rightarrow> bool" where
  "obj_wf m \<longleftrightarrow> distinct (map fst m)"

definition obj_keys :: "('k, 'v) jsobj \<Rightarrow> 'k set" where
  "obj_keys m = fst ` set m"

text \<open>\<open>{...m, [k]: v}\<close>: overwrite in place, or append a new key.\<close>

fun obj_set :: "('k, 'v) jsobj \<Rightarrow> 'k \<Rightarrow> 'v \<Rightarrow> ('k, 'v) jsobj" where
  "obj_set [] k v = [(k, v)]"
| "obj_set ((k', v') # m) k v = (if k' = k then (k, v) # m else (k', v') # obj_set m k v)"

text \<open>\<open>delete m[k]\<close> on a copy of \<open>m\<close>.\<close>

definition obj_delete :: "('k, 'v) jsobj \<Rightarrow> 'k \<Rightarrow> ('k, 'v) jsobj" where
  "obj_delete m k = filter (\<lambda>(k', _). k' \<noteq> k) m"

text \<open>\<open>{...m, ...d}\<close>: the entries of \<open>d\<close> assigned one after the other.\<close>

definition obj_spread :: "('k, 'v) jsobj \<Rightarrow> ('k, 'v) jsobj \<Rightarrow> ('k, 'v) jsobj" where
  "obj_spread m d = fold (\<lambda>(k, v) acc. obj_set acc k v) d m"

subsection \<open>Keys and well-formedness\<close>

lemma obj_keys_simps [simp]:
  "obj_keys [] = {}" "obj_keys ((k, v) # m) = insert k (obj_keys m)"
  by (auto simp: obj_keys_def)

lemma map_fst_obj_set [obj_simps]:
  "map fst (obj_set m k v) = (if k \<in> obj_keys m then map fst m else map fst m @ [k])"
  by (induction m) auto

lemma obj_keys_set [obj_simps]: "obj_keys (obj_set m k v) = insert k (obj_keys m)"
  by (auto simp: obj_keys_def map_fst_obj_set [THEN arg_cong [where f = set], simplified]
      split: if_splits)

lemma obj_wf_set [intro]: "obj_wf m \<Longrightarrow> obj_wf (obj_set m k v)"
  by (induction m) (auto simp: obj_wf_def obj_keys_def map_fst_obj_set)

lemma obj_wf_delete [intro]: "obj_wf m \<Longrightarrow> obj_wf (obj_delete m k)"
  by (auto simp: obj_wf_def obj_delete_def)

lemma obj_wf_spread [intro]: "obj_wf m \<Longrightarrow> obj_wf (obj_spread m d)"
  unfolding obj_spread_def by (induction d arbitrary: m) auto

subsection \<open>Refinement of partial maps\<close>

lemma map_of_obj_set [obj_simps]: "map_of (obj_set m k v) = (map_of m)(k \<mapsto> v)"
  by (induction m) (auto simp: fun_eq_iff)

lemma map_of_obj_delete [obj_simps]: "map_of (obj_delete m k) = (map_of m)(k := None)"
  by (simp add: obj_delete_def map_of_filter_key)

lemma map_of_obj_spread_rev: "map_of (obj_spread m d) = map_of m ++ map_of (rev d)"
  unfolding obj_spread_def
  by (induction d arbitrary: m) (auto simp: map_of_obj_set map_add_def fun_eq_iff
      map_of_append split: option.splits)

lemma map_of_obj_spread [obj_simps]:
  "obj_wf d \<Longrightarrow> map_of (obj_spread m d) = map_of m ++ map_of d"
  by (simp add: map_of_obj_spread_rev obj_wf_def map_of_rev_distinct)

lemma obj_keys_delete [obj_simps]: "obj_keys (obj_delete m k) = obj_keys m - {k}"
  by (auto simp: obj_keys_def obj_delete_def)

lemma length_obj_delete:
  "obj_wf m \<Longrightarrow> k \<in> obj_keys m \<Longrightarrow> length (obj_delete m k) = length m - 1"
proof (induction m)
  case Nil
  then show ?case by simp
next
  case (Cons e m)
  obtain k' v' where e: "e = (k', v')" by fastforce
  show ?case
  proof (cases "k' = k")
    case True
    with Cons.prems e have "k \<notin> obj_keys m"
      by (auto simp: obj_wf_def obj_keys_def)
    then have "obj_delete m k = m"
      by (simp add: obj_delete_def obj_keys_def filter_key_absent)
    with True e show ?thesis by (simp add: obj_delete_def)
  next
    case False
    with Cons e have "length (obj_delete m k) = length m - 1" and "k \<in> obj_keys m"
      by (auto simp: obj_wf_def)
    with False e show ?thesis
      by (cases m) (auto simp: obj_delete_def)
  qed
qed

lemma set_obj_set [obj_simps]:
  "obj_wf m \<Longrightarrow> set (obj_set m k v) = {e \<in> set m. fst e \<noteq> k} \<union> {(k, v)}"
proof (induction m)
  case (Cons e m)
  obtain k' v' where e: "e = (k', v')" by fastforce
  show ?case
  proof (cases "k' = k")
    case True
    with Cons.prems e have "\<forall>x \<in> set m. fst x \<noteq> k" by (auto simp: obj_wf_def)
    with True e show ?thesis by auto
  next
    case False
    with Cons e show ?thesis by (auto simp: obj_wf_def)
  qed
qed simp

lemma set_obj_delete [obj_simps]: "set (obj_delete m k) = {e \<in> set m. fst e \<noteq> k}"
  by (auto simp: obj_delete_def)

lemma length_obj_set: "k \<in> obj_keys m \<Longrightarrow> length (obj_set m k v) = length m"
  using map_fst_obj_set [of m k v] by (metis length_map)

lemma obj_wf_map_of_iff: "obj_wf m \<Longrightarrow> map_of m k = Some v \<longleftrightarrow> (k, v) \<in> set m"
  by (simp add: obj_wf_def)

subsection \<open>Assignments that change nothing, assignments that commute\<close>

lemma obj_set_same:
  "obj_wf m \<Longrightarrow> map_of m k = Some v \<Longrightarrow> obj_set m k v = m"
  by (induction m) (auto simp: obj_wf_def)

lemma obj_spread_same:
  "obj_wf m \<Longrightarrow> \<forall>(k, v) \<in> set d. map_of m k = Some v \<Longrightarrow> obj_spread m d = m"
  unfolding obj_spread_def by (induction d) (auto simp: obj_set_same)

lemma obj_set_commute:
  assumes "k1 \<noteq> k2" and "k1 \<in> obj_keys m \<or> k2 \<in> obj_keys m"
  shows "obj_set (obj_set m k1 v1) k2 v2 = obj_set (obj_set m k2 v2) k1 v1"
  using assms by (induction m) auto

lemma obj_set_spread_commute:
  assumes "k \<in> obj_keys m" and "k \<notin> fst ` set d"
  shows "obj_set (obj_spread m d) k v = obj_spread (obj_set m k v) d"
  using assms unfolding obj_spread_def
  by (induction d arbitrary: m) (auto simp: obj_set_commute obj_keys_set)

lemma obj_spread_append: "obj_spread m (d1 @ d2) = obj_spread (obj_spread m d1) d2"
  by (simp add: obj_spread_def)

subsection \<open>Predicates on all entries\<close>

text \<open>A property of every entry survives the three operations that build objects.\<close>

lemma list_all_obj_set: "list_all P m \<Longrightarrow> P (k, v) \<Longrightarrow> list_all P (obj_set m k v)"
  by (induction m) auto

lemma list_all_obj_delete: "list_all P m \<Longrightarrow> list_all P (obj_delete m k)"
  by (auto simp: obj_delete_def list_all_iff)

lemma list_all_obj_spread: "list_all P m \<Longrightarrow> list_all P d \<Longrightarrow> list_all P (obj_spread m d)"
  unfolding obj_spread_def
  by (induction d arbitrary: m) (auto intro: list_all_obj_set)

end
