(* ===== verification/Pieces.thy ===== *)
theory Pieces
  imports JsObject
begin

text \<open>
  The data of \<^verbatim>\<open>src/src/chessboard.tsx\<close>: the \<open>Piece\<close> union of 32 string literals
  (lines 21--53) as a datatype with its string names, the \<open>PiecePosition\<close> object
  type (line 55) as a record, the colour test the code performs by substring match
  (\<open>piece.includes('black')\<close>, lines 257--260), the board bounds of the candidate
  filter (line 144), the capture sentinel \<open>{x: -1, y: -1}\<close> (lines 271--274) and the
  \<open>initialPositions\<close> object (lines 59--92). At run time the board object is keyed by
  strings, not by \<open>Piece\<close>: keys from the remote store can be any string, so the
  board state is a \<open>(string, PiecePosition) jsobj\<close> and \<open>piece_of_name\<close> is the
  partial inverse of \<open>piece_name\<close>.
\<close>

datatype Piece =
    King | Queen | Rook | Rook2 | Horse | Horse2 | Camel | Camel2
  | Pawn1 | Pawn2 | Pawn3 | Pawn4 | Pawn5 | Pawn6 | Pawn7 | Pawn8
  | BlackKing | BlackQueen | BlackRook1 | BlackRook2
  | BlackHorse1 | BlackHorse2 | BlackCamel1 | BlackCamel2
  | BlackPawn1 | BlackPawn2 | BlackPawn3 | BlackPawn4
  | BlackPawn5 | BlackPawn6 | BlackPawn7 | BlackPawn8

primrec piece_name :: "Piece \<Rightarrow> string" where
  "piece_name King = ''king''"
| "piece_name Queen = ''queen''"
| "piece_name Rook = ''rook''"
| "piece_name Rook2 = ''rook2''"
| "piece_name Horse = ''horse''"
| "piece_name Horse2 = ''horse2''"
| "piece_name Camel = ''camel''"
| "piece_name Camel2 = ''camel2''"
| "piece_name Pawn1 = ''pawn1''"
| "piece_name Pawn2 = ''pawn2''"
| "piece_name Pawn3 = ''pawn3''"
| "piece_name Pawn4 = ''pawn4''"
| "piece_name Pawn5 = ''pawn5''"
| "piece_name Pawn6 = ''pawn6''"
| "piece_name Pawn7 = ''pawn7''"
| "piece_name Pawn8 = ''pawn8''"
| "piece_name BlackKing = ''blackKing''"
| "piece_name BlackQueen = ''blackQueen''"
| "piece_name BlackRook1 = ''blackRook1''"
| "piece_name BlackRook2 = ''blackRook2''"
| "piece_name BlackHorse1 = ''blackHorse1''"
| "piece_name BlackHorse2 = ''blackHorse2''"
| "piece_name BlackCamel1 = ''blackCamel1''"
| "piece_name BlackCamel2 = ''blackCamel2''"
| "piece_name BlackPawn1 = ''blackPawn1''"
| "piece_name BlackPawn2 = ''blackPawn2''"
| "piece_name BlackPawn3 = ''blackPawn3''"
| "piece_name BlackPawn4 = ''blackPawn4''"
| "piece_name BlackPawn5 = ''blackPawn5''"
| "piece_name BlackPawn6 = ''blackPawn6''"
| "piece_name BlackPawn7 = ''blackPawn7''"
| "piece_name BlackPawn8 = ''blackPawn8''"

text \<open>The members of the union, in the order the source lists them.\<close>

definition all_pieces :: "Piece list" where
  "all_pieces =
     [King, Queen, Rook, Rook2, Horse, Horse2, Camel, Camel2,
      Pawn1, Pawn2, Pawn3, Pawn4, Pawn5, Pawn6, Pawn7, Pawn8,
      BlackKing, BlackQueen, BlackRook1, BlackRook2,
      BlackHorse1, BlackHorse2, BlackCamel1, BlackCamel2,
      BlackPawn1, BlackPawn2, BlackPawn3, BlackPawn4,
      BlackPawn5, BlackPawn6, BlackPawn7, BlackPawn8]"

text \<open>A string key read back as a member of the union (\<open>key as Piece\<close>), if it is one.\<close>

definition piece_of_name :: "string \<Rightarrow> Piece option" where
  "piece_of_name s = find (\<lambda>p. piece_name p = s) all_pieces"

text \<open>
  The colour each member of the union stands for (spec section 9 asks for it as an
  explicit field); the code never stores it and derives it from the name.
\<close>

datatype colour = White | Black

definition piece_colour :: "Piece \<Rightarrow> colour" where
  "piece_colour p =
     (if p \<in> {King, Queen, Rook, Rook2, Horse, Horse2, Camel, Camel2,
               Pawn1, Pawn2, Pawn3, Pawn4, Pawn5, Pawn6, Pawn7, Pawn8} then White else Black)"

text \<open>\<open>piece.includes('black')\<close>: the colour of a key, by its name.\<close>

definition is_black :: "string \<Rightarrow> bool" where
  "is_black k \<longleftrightarrow> str_includes k ''black''"

record PiecePosition =
  pos_x :: int
  pos_y :: int

abbreviation mk_pos :: "int \<Rightarrow> int \<Rightarrow> PiecePosition" where
  "mk_pos a b \<equiv> \<lparr>pos_x = a, pos_y = b\<rparr>"

text \<open>The candidate filter of \<open>handlePieceClick\<close> (line 144).\<close>

definition on_board :: "PiecePosition \<Rightarrow> bool" where
  "on_board p \<longleftrightarrow> 0 \<le> pos_x p \<and> pos_x p < 8 \<and> 0 \<le> pos_y p \<and> pos_y p < 8"

text \<open>The position pushed for a captured piece (lines 271--274).\<close>

definition sentinel :: PiecePosition where
  "sentinel = mk_pos (-1) (-1)"

type_synonym board_obj = "(string, PiecePosition) jsobj"

definition initialPositions :: board_obj where
  "initialPositions =
     [(''king'', mk_pos 7 4), (''queen'', mk_pos 7 3),
      (''rook'', mk_pos 7 0), (''rook2'', mk_pos 7 7),
      (''horse'', mk_pos 7 1), (''horse2'', mk_pos 7 6),
      (''camel'', mk_pos 7 2), (''camel2'', mk_pos 7 5),
      (''pawn1'', mk_pos 6 0), (''pawn2'', mk_pos 6 1),
      (''pawn3'', mk_pos 6 2), (''pawn4'', mk_pos 6 3),
      (''pawn5'', mk_pos 6 4), (''pawn6'', mk_pos 6 5),
      (''pawn7'', mk_pos 6 6), (''pawn8'', mk_pos 6 7),
      (''blackKing'', mk_pos 0 4), (''blackQueen'', mk_pos 0 3),
      (''blackRook1'', mk_pos 0 0), (''blackRook2'', mk_pos 0 7),
      (''blackHorse1'', mk_pos 0 1), (''blackHorse2'', mk_pos 0 6),
      (''blackCamel1'', mk_pos 0 2), (''blackCamel2'', mk_pos 0 5),
      (''blackPawn1'', mk_pos 1 0), (''blackPawn2'', mk_pos 1 1),
      (''blackPawn3'', mk_pos 1 2), (''blackPawn4'', mk_pos 1 3),
      (''blackPawn5'', mk_pos 1 4), (''blackPawn6'', mk_pos 1 5),
      (''blackPawn7'', mk_pos 1 6), (''blackPawn8'', mk_pos 1 7)]"

subsection \<open>The board invariant\<close>

text \<open>
  The one-piece-per-square invariant of the spec (section 3): no two keys of the board
  object hold the same on-board square. Off-board entries (the capture sentinel) may
  repeat.
\<close>

definition no_overlap :: "board_obj \<Rightarrow> bool" where
  "no_overlap m \<longleftrightarrow> distinct (filter on_board (map snd m))"

definition board_inv :: "board_obj \<Rightarrow> bool" where
  "board_inv m \<longleftrightarrow> obj_wf m \<and> no_overlap m"

text \<open>On an object with distinct keys, the invariant says that a square holds one key.\<close>

lemma no_overlap_iff:
  "obj_wf m \<Longrightarrow> no_overlap m \<longleftrightarrow>
     (\<forall>k1 k2 p. (k1, p) \<in> set m \<longrightarrow> (k2, p) \<in> set m \<longrightarrow> on_board p \<longrightarrow> k1 = k2)"
proof (induction m)
  case Nil
  then show ?case by (simp add: no_overlap_def)
next
  case (Cons e m)
  obtain k p where e: "e = (k, p)" by fastforce
  with Cons.prems have wf: "obj_wf m" and k: "k \<notin> fst ` set m"
    by (auto simp: obj_wf_def)
  have "no_overlap (e # m) \<longleftrightarrow>
          (on_board p \<longrightarrow> p \<notin> snd ` set m) \<and> no_overlap m"
    by (auto simp: no_overlap_def e)
  also have "\<dots> \<longleftrightarrow> (\<forall>k1 k2 q. (k1, q) \<in> set (e # m) \<longrightarrow> (k2, q) \<in> set (e # m) \<longrightarrow>
                    on_board q \<longrightarrow> k1 = k2)"
    using Cons.IH [OF wf] k by (auto simp: e image_iff)
  finally show ?case .
qed

subsection \<open>Names and colours\<close>

lemma all_pieces_complete: "p \<in> set all_pieces"
  by (cases p) (simp_all add: all_pieces_def)

lemma piece_names_distinct: "distinct (map piece_name all_pieces)"
  by (simp add: all_pieces_def)

lemma piece_of_name_piece_name [simp]: "piece_of_name (piece_name p) = Some p"
  by (cases p) (simp_all add: piece_of_name_def all_pieces_def)

lemma piece_of_name_Some: "piece_of_name s = Some p \<longleftrightarrow> piece_name p = s"
  using piece_of_name_piece_name [of p] by (auto simp: piece_of_name_def)

lemma inj_piece_name: "inj piece_name"
  by (rule inj_on_inverseI [where g = "\<lambda>s. the (piece_of_name s)"]) simp

lemma is_black_colour: "is_black (piece_name p) \<longleftrightarrow> piece_colour p = Black"
  by (cases p) (simp_all add: is_black_def piece_colour_def)

end
