(* ===== verification/Movement.thy ===== *)
theory Movement
  imports Pieces
begin

text \<open>
  The movement tables and \<open>pieceMovementMap\<close> (\<^verbatim>\<open>src/src/chessboard.tsx\<close>,
  lines 98--131). The tables themselves are imported from a module \<open>./movement\<close>
  that is not part of the sources: they are modelled from the spec (section 3: one
  relative offset per legal direction for king, queen, rook and bishop ("camel"), the
  eight L-jumps of the knight ("horse"), one forward step of the pawn; the black tables
  mirror the white ones along the rank axis). Each table is \<open>Object.values(..)\<close> of an
  object of offsets, so a list of \<open>PiecePosition\<close>s. No theorem about the handlers
  depends on these particular offsets; the ones that do are the concrete scenarios.
\<close>

definition orth_steps :: "PiecePosition list" where
  "orth_steps = [mk_pos (-1) 0, mk_pos 1 0, mk_pos 0 (-1), mk_pos 0 1]"

definition diag_steps :: "PiecePosition list" where
  "diag_steps = [mk_pos (-1) (-1), mk_pos (-1) 1, mk_pos 1 (-1), mk_pos 1 1]"

definition KingMovement :: "PiecePosition list" where
  "KingMovement = orth_steps @ diag_steps"

definition QueenMovement :: "PiecePosition list" where
  "QueenMovement = orth_steps @ diag_steps"

definition RookMovement :: "PiecePosition list" where
  "RookMovement = orth_steps"

definition HorseMovement :: "PiecePosition list" where
  "HorseMovement =
     [mk_pos (-2) (-1), mk_pos (-2) 1, mk_pos (-1) (-2), mk_pos (-1) 2,
      mk_pos 1 (-2), mk_pos 1 2, mk_pos 2 (-1), mk_pos 2 1]"

definition CamelMovement :: "PiecePosition list" where
  "CamelMovement = diag_steps"

definition PawnMovement :: "PiecePosition list" where
  "PawnMovement = [mk_pos (-1) 0]"

definition mirror_rank :: "PiecePosition \<Rightarrow> PiecePosition" where
  "mirror_rank v = mk_pos (- pos_x v) (pos_y v)"

definition BlackKingMovement :: "PiecePosition list" where
  "BlackKingMovement = map mirror_rank KingMovement"

definition BlackQueenMovement :: "PiecePosition list" where
  "BlackQueenMovement = map mirror_rank QueenMovement"

definition BlackRookMovement :: "PiecePosition list" where
  "BlackRookMovement = map mirror_rank RookMovement"

definition BlackHorseMovement :: "PiecePosition list" where
  "BlackHorseMovement = map mirror_rank HorseMovement"

definition BlackCamelMovement :: "PiecePosition list" where
  "BlackCamelMovement = map mirror_rank CamelMovement"

definition BlackPawnMovement :: "PiecePosition list" where
  "BlackPawnMovement = map mirror_rank PawnMovement"

text \<open>\<open>pieceMovementMap\<close>, one entry per member of the union, as in the source.\<close>

primrec pieceMovementMap :: "Piece \<Rightarrow> PiecePosition list" where
  "pieceMovementMap King = KingMovement"
| "pieceMovementMap Queen = QueenMovement"
| "pieceMovementMap Rook = RookMovement"
| "pieceMovementMap Rook2 = RookMovement"
| "pieceMovementMap Horse = HorseMovement"
| "pieceMovementMap Horse2 = HorseMovement"
| "pieceMovementMap Camel = CamelMovement"
| "pieceMovementMap Camel2 = CamelMovement"
| "pieceMovementMap Pawn1 = PawnMovement"
| "pieceMovementMap Pawn2 = PawnMovement"
| "pieceMovementMap Pawn3 = PawnMovement"
| "pieceMovementMap Pawn4 = PawnMovement"
| "pieceMovementMap Pawn5 = PawnMovement"
| "pieceMovementMap Pawn6 = PawnMovement"
| "pieceMovementMap Pawn7 = PawnMovement"
| "pieceMovementMap Pawn8 = PawnMovement"
| "pieceMovementMap BlackKing = BlackKingMovement"
| "pieceMovementMap BlackQueen = BlackQueenMovement"
| "pieceMovementMap BlackRook1 = BlackRookMovement"
| "pieceMovementMap BlackRook2 = BlackRookMovement"
| "pieceMovementMap BlackHorse1 = BlackHorseMovement"
| "pieceMovementMap BlackHorse2 = BlackHorseMovement"
| "pieceMovementMap BlackCamel1 = BlackCamelMovement"
| "pieceMovementMap BlackCamel2 = BlackCamelMovement"
| "pieceMovementMap BlackPawn1 = BlackPawnMovement"
| "pieceMovementMap BlackPawn2 = BlackPawnMovement"
| "pieceMovementMap BlackPawn3 = BlackPawnMovement"
| "pieceMovementMap BlackPawn4 = BlackPawnMovement"
| "pieceMovementMap BlackPawn5 = BlackPawnMovement"
| "pieceMovementMap BlackPawn6 = BlackPawnMovement"
| "pieceMovementMap BlackPawn7 = BlackPawnMovement"
| "pieceMovementMap BlackPawn8 = BlackPawnMovement"

text \<open>
  \<open>pieceMovementMap[piece]\<close> with a string key: \<open>undefined\<close> (here \<open>None\<close>) for a key
  that is not a member of the union.
\<close>

definition movement_lookup :: "string \<Rightarrow> PiecePosition list option" where
  "movement_lookup k = map_option pieceMovementMap (piece_of_name k)"

lemma movement_lookup_piece [simp]:
  "movement_lookup (piece_name p) = Some (pieceMovementMap p)"
  by (simp add: movement_lookup_def)

lemma movement_lookup_None: "movement_lookup k = None \<longleftrightarrow> k \<notin> range piece_name"
  by (cases "piece_of_name k") (auto simp: movement_lookup_def piece_of_name_Some)

lemma pieceMovementMap_nonzero: "mk_pos 0 0 \<notin> set (pieceMovementMap p)"
  by (cases p) (simp_all add: KingMovement_def QueenMovement_def RookMovement_def
      HorseMovement_def CamelMovement_def PawnMovement_def orth_steps_def diag_steps_def
      BlackKingMovement_def BlackQueenMovement_def BlackRookMovement_def
      BlackHorseMovement_def BlackCamelMovement_def BlackPawnMovement_def mirror_rank_def)

end
