(* ===== verification/Board.thy ===== *)
theory Board
  imports Movement
begin

text \<open>
  The local state of the \<open>Board\<close> component of \<^verbatim>\<open>src/src/chessboard.tsx\<close> and its
  two synchronous handlers. The three \<open>useState\<close> hooks (lines 94--96) are the fields
  of \<open>board_state\<close>; \<open>handlePieceClick\<close> (lines 133--147) selects or deselects a piece
  and computes its candidate squares; \<open>isPathBlocked\<close> (lines 187--236) walks the
  straight or diagonal line between two squares. Its two \<open>while\<close> loops are kept as
  loops (\<open>path_walk\<close>, a \<open>while_option\<close>), so that a loop that never exits is the
  value \<open>None\<close>. A thrown \<open>TypeError\<close> (reading a field of \<open>undefined\<close>) is a value
  of \<open>js_error\<close>.
\<close>

datatype js_error = TypeError

record board_state =
  piecePositions :: board_obj
  selectedPiece :: "string option"
  availableMoves :: "PiecePosition list"

definition initial_board :: board_state where
  "initial_board = \<lparr>piecePositions = initialPositions, selectedPiece = None,
                    availableMoves = []\<rparr>"

subsection \<open>Selecting a piece\<close>

text \<open>The candidate squares: each offset added to the origin, kept if on the board.\<close>

definition candidate_moves :: "PiecePosition \<Rightarrow> PiecePosition list \<Rightarrow> PiecePosition list" where
  "candidate_moves p vs =
     filter on_board (map (\<lambda>m. mk_pos (pos_x p + pos_x m) (pos_y p + pos_y m)) vs)"

text \<open>
  \<open>handlePieceClick\<close>. Clicking the selected piece again deselects it. Otherwise the
  selection is recorded first (\<open>setSelectedPiece(piece)\<close>) and the candidates are
  computed: \<open>pieceMovementMap[piece].map\<close> throws when the key is not a member of the
  union, and \<open>piecePositions[piece].x\<close> throws, inside the callback, when the key has no
  position; the queued selection survives the throw, the candidates are not set. The
  result is the state after the handler and the error it threw, if any.
\<close>

definition handlePieceClick ::
  "board_state \<Rightarrow> string \<Rightarrow> board_state \<times> js_error option" where
  "handlePieceClick b piece =
     (if selectedPiece b = Some piece
      then (b\<lparr>selectedPiece := None, availableMoves := []\<rparr>, None)
      else
        let b1 = b\<lparr>selectedPiece := Some piece\<rparr> in
        case movement_lookup piece of
          None \<Rightarrow> (b1, Some TypeError)
        | Some [] \<Rightarrow> (b1\<lparr>availableMoves := []\<rparr>, None)
        | Some vs \<Rightarrow>
            (case map_of (piecePositions b) piece of
               None \<Rightarrow> (b1, Some TypeError)
             | Some p \<Rightarrow> (b1\<lparr>availableMoves := candidate_moves p vs\<rparr>, None)))"

definition moves_on_board :: "board_state \<Rightarrow> bool" where
  "moves_on_board b \<longleftrightarrow> list_all on_board (availableMoves b)"

subsection \<open>Path obstruction\<close>

text \<open>\<open>Object.values(piecePositions).some(pos => pos.x === x && pos.y === y)\<close>.\<close>

definition occupied :: "board_obj \<Rightarrow> int \<Rightarrow> int \<Rightarrow> bool" where
  "occupied m x y \<longleftrightarrow> list_ex (\<lambda>pos. pos_x pos = x \<and> pos_y pos = y) (map snd m)"

text \<open>
  One of the two loops of \<open>isPathBlocked\<close>:
  \<^verbatim>\<open>while (x !== endPos.x || y !== endPos.y) { if (occupied) return true; x += stepX; y += stepY; }\<close>
  The loop state is \<open>(x, y, hit)\<close>; \<open>hit\<close> is the early \<open>return true\<close>.
  \<open>Some False\<close> is a loop that ran to the end square, \<open>None\<close> one that never exits.
\<close>

definition path_walk ::
  "board_obj \<Rightarrow> int \<Rightarrow> int \<Rightarrow> int \<Rightarrow> int \<Rightarrow> int \<Rightarrow> int \<Rightarrow> bool option" where
  "path_walk m x0 y0 ex ey sx sy =
     map_option (\<lambda>(_, _, hit). hit)
       (while_option (\<lambda>(x, y, hit). \<not> hit \<and> (x \<noteq> ex \<or> y \<noteq> ey))
          (\<lambda>(x, y, hit). if occupied m x y then (x, y, True) else (x + sx, y + sy, False))
          (x0, y0, False))"

text \<open>
  \<open>isPathBlocked(piece, startPos, endPos)\<close>. The first loop runs for a rank or file
  move, and when it finds nothing control falls through to the diagonal test; the
  second loop runs when \<open>|dx| = |dy|\<close>, with steps \<open>dx > 0 ? 1 : -1\<close> that are never
  0. The \<open>piece\<close> argument is unused, as in the source.
\<close>

definition isPathBlocked ::
  "board_obj \<Rightarrow> string \<Rightarrow> PiecePosition \<Rightarrow> PiecePosition \<Rightarrow> bool option" where
  "isPathBlocked m piece startPos endPos =
     (let dx = pos_x endPos - pos_x startPos;
          dy = pos_y endPos - pos_y startPos;
          first =
            (if dx = 0 \<or> dy = 0 then
               (let stepX = (if dx = 0 then 0 else if dx > 0 then 1 else -1);
                    stepY = (if dy = 0 then 0 else if dy > 0 then 1 else -1)
                in path_walk m (pos_x startPos + stepX) (pos_y startPos + stepY)
                     (pos_x endPos) (pos_y endPos) stepX stepY)
             else Some False)
      in case first of
           None \<Rightarrow> None
         | Some True \<Rightarrow> Some True
         | Some False \<Rightarrow>
             (if \<bar>dx\<bar> = \<bar>dy\<bar> then
                (let stepX = (if dx > 0 then 1 else -1);
                     stepY = (if dy > 0 then 1 else -1)
                 in path_walk m (pos_x startPos + stepX) (pos_y startPos + stepY)
                      (pos_x endPos) (pos_y endPos) stepX stepY)
              else Some False))"

text \<open>
  The abstract contract (spec 4.2): a move along a rank, a file or a diagonal is blocked
  exactly when a piece stands on one of the squares strictly between its ends; any other
  move is never blocked.
\<close>

definition on_line :: "PiecePosition \<Rightarrow> PiecePosition \<Rightarrow> bool" where
  "on_line s e \<longleftrightarrow>
     (let dx = pos_x e - pos_x s; dy = pos_y e - pos_y s in dx = 0 \<or> dy = 0 \<or> \<bar>dx\<bar> = \<bar>dy\<bar>)"

definition squares_between :: "PiecePosition \<Rightarrow> PiecePosition \<Rightarrow> (int \<times> int) list" where
  "squares_between s e =
     (let dx = pos_x e - pos_x s; dy = pos_y e - pos_y s; n = nat (max \<bar>dx\<bar> \<bar>dy\<bar>)
      in map (\<lambda>i. (pos_x s + int i * sgn dx, pos_y s + int i * sgn dy)) [1..<n])"

definition line_blocked :: "board_obj \<Rightarrow> PiecePosition \<Rightarrow> PiecePosition \<Rightarrow> bool" where
  "line_blocked m s e \<longleftrightarrow>
     on_line s e \<and> list_ex (\<lambda>(x, y). occupied m x y) (squares_between s e)"

subsection \<open>The loop\<close>

lemma path_walk_unfold:
  "path_walk m x y ex ey sx sy =
     (if x = ex \<and> y = ey then Some False
      else if occupied m x y then Some True
      else path_walk m (x + sx) (y + sy) ex ey sx sy)"
  by (simp add: path_walk_def while_option_unfold [of _ _ "(x, y, False)"]
      while_option_unfold [of _ _ "(x, y, True)"])

text \<open>A walk that reaches its end square after \<open>k\<close> steps reports a piece on one of them.\<close>

lemma path_walk_steps:
  assumes "(sx, sy) \<noteq> (0, 0)"
  shows "path_walk m x y (x + int k * sx) (y + int k * sy) sx sy =
           Some (\<exists>i < k. occupied m (x + int i * sx) (y + int i * sy))"
proof (induction k arbitrary: x y)
  case 0
  then show ?case by (simp add: path_walk_unfold)
next
  case (Suc k)
  have ne: "x \<noteq> x + int (Suc k) * sx \<or> y \<noteq> y + int (Suc k) * sy"
    using assms by auto
  have "x + int (Suc k) * sx = (x + sx) + int k * sx"
    and "y + int (Suc k) * sy = (y + sy) + int k * sy" by (simp_all add: algebra_simps)
  then have "path_walk m (x + sx) (y + sy) (x + int (Suc k) * sx) (y + int (Suc k) * sy) sx sy =
      Some (\<exists>i < k. occupied m (x + int (Suc i) * sx) (y + int (Suc i) * sy))"
    using Suc.IH [of "x + sx" "y + sy"] by (simp add: algebra_simps)
  with ne show ?case
    by (subst path_walk_unfold) (auto simp: less_Suc_eq_0_disj)
qed

text \<open>A walk that never meets its end square and a piece runs forever.\<close>

lemma path_walk_diverges:
  assumes "\<forall>i. (x + int i * sx, y + int i * sy) \<noteq> (ex, ey)
              \<and> \<not> occupied m (x + int i * sx) (y + int i * sy)"
  shows "path_walk m x y ex ey sx sy = None"
proof -
  let ?b = "\<lambda>(x, y, hit). \<not> hit \<and> (x \<noteq> ex \<or> y \<noteq> ey)"
  let ?c = "\<lambda>(x, y, hit). if occupied m x y then (x, y, True) else (x + sx, y + sy, False)"
  have it: "(?c ^^ k) (x, y, False) = (x + int k * sx, y + int k * sy, False)" for k
    using assms by (induction k) (auto simp: algebra_simps)
  have "\<forall>k. ?b ((?c ^^ k) (x, y, False))"
    using assms by (simp add: it)
  then show ?thesis
    by (simp add: path_walk_def while_option_None_iff)
qed

text \<open>A walk that meets a piece before its end square reports it.\<close>

lemma path_walk_hits:
  assumes "\<forall>i \<le> k. (x + int i * sx, y + int i * sy) \<noteq> (ex, ey)"
    and "occupied m (x + int k * sx) (y + int k * sy)"
  shows "path_walk m x y ex ey sx sy = Some True"
  using assms
proof (induction k arbitrary: x y)
  case 0
  then show ?case by (subst path_walk_unfold) simp
next
  case (Suc k)
  have "\<forall>i \<le> k. (x + sx + int i * sx, y + sy + int i * sy) \<noteq> (ex, ey)"
    using Suc.prems(1) by (auto simp: algebra_simps dest: spec [of _ "Suc _"])
  moreover have "occupied m (x + sx + int k * sx) (y + sy + int k * sy)"
    using Suc.prems(2) by (simp add: algebra_simps)
  ultimately have "path_walk m (x + sx) (y + sy) ex ey sx sy = Some True"
    by (rule Suc.IH)
  moreover have "(x, y) \<noteq> (ex, ey)"
    using Suc.prems(1) by (auto dest: spec [of _ 0])
  ultimately show ?case by (subst path_walk_unfold) auto
qed

subsection \<open>The contract of \<open>isPathBlocked\<close>\<close>

lemma squares_between_nat:
  "list_ex (\<lambda>(x, y). occupied m x y) (squares_between s e) \<longleftrightarrow>
     (\<exists>i. 1 \<le> i \<and> i < nat (max \<bar>pos_x e - pos_x s\<bar> \<bar>pos_y e - pos_y s\<bar>) \<and>
        occupied m (pos_x s + int i * sgn (pos_x e - pos_x s))
                   (pos_y s + int i * sgn (pos_y e - pos_y s)))"
  by (auto simp: squares_between_def list_ex_iff Let_def)

text \<open>On a line, the end square is \<open>n\<close> unit steps from the start square.\<close>

lemma max_abs_sgn:
  fixes a b :: int
  assumes "a = 0 \<or> b = 0 \<or> \<bar>a\<bar> = \<bar>b\<bar>"
  shows "max \<bar>a\<bar> \<bar>b\<bar> * sgn a = a"
proof (cases "a = 0")
  case False
  with assms have "max \<bar>a\<bar> \<bar>b\<bar> = \<bar>a\<bar>" by auto
  then show ?thesis by (simp add: abs_mult_sgn)
qed simp

lemma on_line_endpoint:
  assumes "on_line s e"
  shows "pos_x e = pos_x s + max \<bar>pos_x e - pos_x s\<bar> \<bar>pos_y e - pos_y s\<bar> * sgn (pos_x e - pos_x s)"
    and "pos_y e = pos_y s + max \<bar>pos_x e - pos_x s\<bar> \<bar>pos_y e - pos_y s\<bar> * sgn (pos_y e - pos_y s)"
  using max_abs_sgn [of "pos_x e - pos_x s" "pos_y e - pos_y s"]
    max_abs_sgn [of "pos_y e - pos_y s" "pos_x e - pos_x s"] assms
  by (auto simp: on_line_def Let_def max.commute)

lemma path_walk_line:
  assumes line: "on_line s e" and ne: "s \<noteq> e"
  shows "path_walk m (pos_x s + sgn (pos_x e - pos_x s)) (pos_y s + sgn (pos_y e - pos_y s))
           (pos_x e) (pos_y e) (sgn (pos_x e - pos_x s)) (sgn (pos_y e - pos_y s)) =
         Some (list_ex (\<lambda>(x, y). occupied m x y) (squares_between s e))"
proof -
  define dx where "dx = pos_x e - pos_x s"
  define dy where "dy = pos_y e - pos_y s"
  define n where "n = nat (max \<bar>dx\<bar> \<bar>dy\<bar>)"
  have "dx \<noteq> 0 \<or> dy \<noteq> 0"
    using ne by (auto simp: dx_def dy_def intro: PiecePosition.equality)
  then have n1: "1 \<le> n" and st: "(sgn dx, sgn dy) \<noteq> (0, 0)"
    by (auto simp: n_def sgn_0_0)
  have nn: "int (n - 1) = max \<bar>dx\<bar> \<bar>dy\<bar> - 1"
    using n1 by (simp add: n_def of_nat_diff le_max_iff_disj)
  have ex: "pos_x e = (pos_x s + sgn dx) + int (n - 1) * sgn dx"
    using on_line_endpoint(1) [OF line] unfolding nn dx_def [symmetric] dy_def [symmetric]
    by (simp add: algebra_simps)
  have ey: "pos_y e = (pos_y s + sgn dy) + int (n - 1) * sgn dy"
    using on_line_endpoint(2) [OF line] unfolding nn dx_def [symmetric] dy_def [symmetric]
    by (simp add: algebra_simps)
  have "path_walk m (pos_x s + sgn dx) (pos_y s + sgn dy) (pos_x e) (pos_y e) (sgn dx) (sgn dy) =
        Some (\<exists>i < n - 1. occupied m (pos_x s + sgn dx + int i * sgn dx)
                                      (pos_y s + sgn dy + int i * sgn dy))"
    by (subst ex, subst ey, rule path_walk_steps [OF st])
  also have "(\<exists>i < n - 1. occupied m (pos_x s + sgn dx + int i * sgn dx)
                                   (pos_y s + sgn dy + int i * sgn dy)) \<longleftrightarrow>
             (\<exists>i. 1 \<le> i \<and> i < n \<and> occupied m (pos_x s + int i * sgn dx) (pos_y s + int i * sgn dy))"
  proof
    assume "\<exists>i < n - 1. occupied m (pos_x s + sgn dx + int i * sgn dx)
                                (pos_y s + sgn dy + int i * sgn dy)"
    then obtain i where "i < n - 1"
      and "occupied m (pos_x s + int (Suc i) * sgn dx) (pos_y s + int (Suc i) * sgn dy)"
      by (auto simp: algebra_simps)
    then show "\<exists>i. 1 \<le> i \<and> i < n \<and> occupied m (pos_x s + int i * sgn dx) (pos_y s + int i * sgn dy)"
      by (intro exI [of _ "Suc i"]) auto
  next
    assume "\<exists>i. 1 \<le> i \<and> i < n \<and> occupied m (pos_x s + int i * sgn dx) (pos_y s + int i * sgn dy)"
    then obtain i where "1 \<le> i" "i < n"
      and "occupied m (pos_x s + int i * sgn dx) (pos_y s + int i * sgn dy)" by blast
    then show "\<exists>i < n - 1. occupied m (pos_x s + sgn dx + int i * sgn dx)
                                  (pos_y s + sgn dy + int i * sgn dy)"
      by (intro exI [of _ "i - 1"]) (auto simp: of_nat_diff algebra_simps)
  qed
  finally show ?thesis
    by (simp add: squares_between_nat dx_def dy_def n_def)
qed

lemma step_sgn:
  fixes d :: int
  shows "(if d = 0 then 0 else if d > 0 then 1 else -1) = sgn d"
    and "d \<noteq> 0 \<Longrightarrow> (if d > 0 then 1 else -1) = sgn d"
  by (simp_all add: sgn_if)

lemma isPathBlocked_eq:
  assumes ne: "startPos \<noteq> endPos"
  shows "isPathBlocked m piece startPos endPos = Some (line_blocked m startPos endPos)"
proof -
  define dx where "dx = pos_x endPos - pos_x startPos"
  define dy where "dy = pos_y endPos - pos_y startPos"
  have nz: "dx \<noteq> 0 \<or> dy \<noteq> 0"
    using ne by (auto simp: dx_def dy_def intro: PiecePosition.equality)
  let ?walk = "path_walk m (pos_x startPos + sgn dx) (pos_y startPos + sgn dy)
                 (pos_x endPos) (pos_y endPos) (sgn dx) (sgn dy)"
  consider (straight) "dx = 0 \<or> dy = 0" | (diagonal) "dx \<noteq> 0" "dy \<noteq> 0" "\<bar>dx\<bar> = \<bar>dy\<bar>"
    | (other) "dx \<noteq> 0" "dy \<noteq> 0" "\<bar>dx\<bar> \<noteq> \<bar>dy\<bar>"
    by blast
  then show ?thesis
  proof cases
    case straight
    then have line: "on_line startPos endPos" by (auto simp: on_line_def dx_def dy_def)
    have walk: "?walk = Some (line_blocked m startPos endPos)"
      using path_walk_line [OF line ne] line by (simp add: line_blocked_def dx_def dy_def)
    have "\<bar>dx\<bar> \<noteq> \<bar>dy\<bar>" using straight nz by auto
    with straight walk show ?thesis
      by (simp add: isPathBlocked_def step_sgn dx_def [symmetric] dy_def [symmetric]
          split: bool.split)
  next
    case diagonal
    then have line: "on_line startPos endPos" by (auto simp: on_line_def dx_def dy_def)
    have walk: "?walk = Some (line_blocked m startPos endPos)"
      using path_walk_line [OF line ne] line by (simp add: line_blocked_def dx_def dy_def)
    with diagonal show ?thesis
      by (simp add: isPathBlocked_def step_sgn dx_def [symmetric] dy_def [symmetric])
  next
    case other
    then have "\<not> on_line startPos endPos" by (auto simp: on_line_def dx_def dy_def)
    with other show ?thesis
      by (simp add: isPathBlocked_def line_blocked_def dx_def [symmetric] dy_def [symmetric])
  qed
qed

lemma isPathBlocked_same_square_eq:
  "isPathBlocked m piece p p =
     (if \<exists>i::nat. occupied m (pos_x p - 1 - int i) (pos_y p - 1 - int i)
      then Some True else None)"
proof -
  have first: "path_walk m (pos_x p) (pos_y p) (pos_x p) (pos_y p) 0 0 = Some False"
    by (simp add: path_walk_unfold)
  let ?ray = "path_walk m (pos_x p + - 1) (pos_y p + - 1) (pos_x p) (pos_y p) (- 1) (- 1)"
  have never: "\<forall>i. (pos_x p + - 1 + int i * - 1, pos_y p + - 1 + int i * - 1) \<noteq> (pos_x p, pos_y p)"
    by simp
  have "?ray = (if \<exists>i::nat. occupied m (pos_x p - 1 - int i) (pos_y p - 1 - int i)
               then Some True else None)"
  proof (cases "\<exists>i::nat. occupied m (pos_x p - 1 - int i) (pos_y p - 1 - int i)")
    case True
    then obtain k where "occupied m (pos_x p + - 1 + int k * - 1) (pos_y p + - 1 + int k * - 1)"
      by (auto simp: algebra_simps)
    with never have "?ray = Some True" by (intro path_walk_hits) auto
    with True show ?thesis by simp
  next
    case False
    with never have "?ray = None" by (intro path_walk_diverges) (auto simp: algebra_simps)
    with False show ?thesis by simp
  qed
  with first show ?thesis by (simp add: isPathBlocked_def)
qed

subsection \<open>Selection\<close>

lemma set_candidate_moves:
  "set (candidate_moves p vs) =
     {q. on_board q \<and> (\<exists>v \<in> set vs. q = mk_pos (pos_x p + pos_x v) (pos_y p + pos_y v))}"
  by (auto simp: candidate_moves_def)

lemma handlePieceClick_deselect:
  "selectedPiece b = Some piece \<Longrightarrow>
     handlePieceClick b piece = (b\<lparr>selectedPiece := None, availableMoves := []\<rparr>, None)"
  by (simp add: handlePieceClick_def)

subsection \<open>Properties\<close>

text \<open>
  C1: \<open>isPathBlocked\<close> meets its contract. For two distinct squares it returns (both
  loops exit), and it reports a block exactly when the move runs along a rank, a file or
  a diagonal and some piece occupies a square strictly between the two ends.
\<close>

theorem isPathBlocked_contract:
  assumes "startPos \<noteq> endPos"
  shows "\<exists>b. isPathBlocked m piece startPos endPos = Some b \<and>
           (b \<longleftrightarrow> on_line startPos endPos \<and>
                 (\<exists>(x, y) \<in> set (squares_between startPos endPos). occupied m x y))"
  using isPathBlocked_eq [OF assms]
  by (simp add: line_blocked_def list_ex_iff)

theorem isPathBlocked_contract_witness:
  "mk_pos 7 0 \<noteq> mk_pos 0 0 \<and>
   isPathBlocked [(''rook'', mk_pos 7 0), (''pawn'', mk_pos 3 0)] ''rook'' (mk_pos 7 0) (mk_pos 0 0)
     = Some True"
proof -
  let ?m = "[(''rook'', mk_pos 7 0), (''pawn'', mk_pos 3 0)]"
  have ne: "mk_pos 7 0 \<noteq> mk_pos 0 0" by simp
  obtain b where b: "isPathBlocked ?m ''rook'' (mk_pos 7 0) (mk_pos 0 0) = Some b"
    and iff: "b \<longleftrightarrow> on_line (mk_pos 7 0) (mk_pos 0 0) \<and>
       (\<exists>(x, y) \<in> set (squares_between (mk_pos 7 0) (mk_pos 0 0)). occupied ?m x y)"
    using isPathBlocked_contract [OF ne, of ?m "''rook''"] by blast
  have "(3, 0) \<in> set (squares_between (mk_pos 7 0) (mk_pos 0 0))"
    by (simp add: squares_between_def upt_rec)
  moreover have "occupied ?m 3 0" by (simp add: occupied_def)
  moreover have "on_line (mk_pos 7 0) (mk_pos 0 0)" by (simp add: on_line_def)
  ultimately have "b" using iff by blast
  with b ne show ?thesis by simp
qed

text \<open>
  C4: \<open>isPathBlocked\<close> called with the start square as end square (which
  \<open>handleMove\<close> does when a remote update has moved the selected piece onto the square
  the user then clicks) falls into its diagonal loop with step \<open>(-1, -1)\<close>, which
  can never reach the end square: when no piece stands on the ray below-left of the
  square, the loop never exits and the tab hangs.
\<close>

theorem isPathBlocked_hangs_on_same_square:
  assumes "\<forall>i::nat. \<not> occupied m (pos_x p - 1 - int i) (pos_y p - 1 - int i)"
  shows "isPathBlocked m piece p p = None"
  using assms by (simp add: isPathBlocked_same_square_eq)

theorem isPathBlocked_hangs_on_same_square_witness:
  "(\<forall>i::nat. \<not> occupied initialPositions (7 - 1 - int i) (0 - 1 - int i)) \<and>
   isPathBlocked initialPositions ''rook'' (mk_pos 7 0) (mk_pos 7 0) = None"
proof -
  have h: "\<forall>i::nat. \<not> occupied initialPositions (7 - 1 - int i) (0 - 1 - int i)"
    by (simp add: occupied_def initialPositions_def)
  show ?thesis
    using h isPathBlocked_hangs_on_same_square [of initialPositions "mk_pos 7 0" "''rook''"]
    by simp
qed

text \<open>
  C18: the candidate squares \<open>handlePieceClick\<close> highlights are on the board: every
  click (select, deselect, or a click that throws) keeps all of \<open>availableMoves\<close>
  within [0,7] x [0,7].
\<close>

theorem handlePieceClick_moves_on_board:
  "moves_on_board b \<Longrightarrow> moves_on_board (fst (handlePieceClick b piece))"
  by (auto simp: handlePieceClick_def moves_on_board_def candidate_moves_def list_all_iff
      Let_def split: option.split list.split)

theorem handlePieceClick_moves_on_board_witness:
  "moves_on_board initial_board \<and>
   moves_on_board (fst (handlePieceClick initial_board ''rook''))"
proof -
  have h: "moves_on_board initial_board" by (simp add: moves_on_board_def initial_board_def)
  show ?thesis using h handlePieceClick_moves_on_board [OF h, of "''rook''"] by simp
qed

text \<open>
  C28: selecting a piece records it and highlights exactly the squares of the 8x8 grid
  reached from its position by one offset of its movement table, in the table's order:
  each offset is added once (no sliding), and the translates off the grid are dropped.
\<close>

theorem handlePieceClick_select:
  assumes "selectedPiece b \<noteq> Some (piece_name p)"
    and "map_of (piecePositions b) (piece_name p) = Some origin"
  shows "handlePieceClick b (piece_name p) =
           (b\<lparr>selectedPiece := Some (piece_name p),
               availableMoves :=
                 [q \<leftarrow> map (\<lambda>m. mk_pos (pos_x origin + pos_x m) (pos_y origin + pos_y m))
                        (pieceMovementMap p).
                  0 \<le> pos_x q \<and> pos_x q < 8 \<and> 0 \<le> pos_y q \<and> pos_y q < 8]\<rparr>, None)"
proof -
  have "on_board = (\<lambda>q. 0 \<le> pos_x q \<and> pos_x q < 8 \<and> 0 \<le> pos_y q \<and> pos_y q < 8)"
    by (simp add: fun_eq_iff on_board_def)
  then show ?thesis
    using assms by (auto simp: handlePieceClick_def candidate_moves_def Let_def split: list.split)
qed

theorem handlePieceClick_select_witness:
  "selectedPiece initial_board \<noteq> Some (piece_name King) \<and>
   map_of (piecePositions initial_board) (piece_name King) = Some (mk_pos 7 4) \<and>
   availableMoves (fst (handlePieceClick initial_board (piece_name King))) =
     [mk_pos 6 4, mk_pos 7 3, mk_pos 7 5, mk_pos 6 3, mk_pos 6 5]"
proof -
  have h1: "selectedPiece initial_board \<noteq> Some (piece_name King)"
    by (simp add: initial_board_def)
  have h2: "map_of (piecePositions initial_board) (piece_name King) = Some (mk_pos 7 4)"
    by (simp add: initial_board_def initialPositions_def)
  show ?thesis
    using h1 h2 handlePieceClick_select [OF h1 h2]
    by (simp add: KingMovement_def orth_steps_def diag_steps_def)
qed

text \<open>
  C29: clicking a piece that is not selected and then clicking it again deselects it and
  clears the highlights, whatever the first click did.
\<close>

theorem handlePieceClick_toggle:
  assumes "selectedPiece b \<noteq> Some piece"
  shows "fst (handlePieceClick (fst (handlePieceClick b piece)) piece) =
           b\<lparr>selectedPiece := None, availableMoves := []\<rparr>"
  using assms
  by (auto simp: handlePieceClick_def Let_def split: option.split list.split)

theorem handlePieceClick_toggle_witness:
  "selectedPiece initial_board \<noteq> Some ''queen'' \<and>
   fst (handlePieceClick (fst (handlePieceClick initial_board ''queen'')) ''queen'') =
     initial_board"
proof -
  have h: "selectedPiece initial_board \<noteq> Some ''queen''" by (simp add: initial_board_def)
  show ?thesis
    using h handlePieceClick_toggle [OF h] by (simp add: initial_board_def)
qed

text \<open>
  C37: clicking a key that is not a member of the \<open>Piece\<close> union (such as the
  \<open>KingPosition\<close> entry the room seed writes) throws a \<open>TypeError\<close> from
  \<open>pieceMovementMap[piece].map\<close>, after the selection has been recorded.
\<close>

theorem handlePieceClick_unknown_key:
  assumes "selectedPiece b \<noteq> Some k" and "k \<notin> range piece_name"
  shows "handlePieceClick b k = (b\<lparr>selectedPiece := Some k\<rparr>, Some TypeError)"
  using assms by (simp add: handlePieceClick_def movement_lookup_None [symmetric])

theorem handlePieceClick_unknown_key_witness:
  "selectedPiece initial_board \<noteq> Some ''KingPosition'' \<and>
   ''KingPosition'' \<notin> range piece_name \<and>
   snd (handlePieceClick initial_board ''KingPosition'') = Some TypeError"
proof -
  have h1: "selectedPiece initial_board \<noteq> Some ''KingPosition''"
    by (simp add: initial_board_def)
  have h2: "''KingPosition'' \<notin> range piece_name"
  proof
    assume "''KingPosition'' \<in> range piece_name"
    then obtain p where "piece_name p = ''KingPosition''" by auto
    then show False by (cases p) simp_all
  qed
  show ?thesis using h1 h2 handlePieceClick_unknown_key [OF h1 h2] by simp
qed

end
