(* ===== verification/Move.thy ===== *)
theory Move
  imports Board
begin

text \<open>
  The move commit, \<open>handleMove\<close> of \<^verbatim>\<open>src/src/chessboard.tsx\<close> (lines 238--284).
  The handler is \<open>async\<close>: it decides synchronously, from the state of the render
  it belongs to, whether the move is blocked and what it captures, and then performs a
  sequence of effects, awaiting each store write. The model separates the two: the
  decision is \<open>handleMove\<close>, which returns the list of effects (\<open>action\<close>s) in
  source order, or the error it throws, or \<open>None\<close> when it hangs in
  \<open>isPathBlocked\<close>; \<open>apply_local\<close> gives each effect's meaning on the local state
  (the functional \<open>setPiecePositions(prev => ...)\<close> updates), and the store writes are
  interpreted in the synchronisation theory. The capture test is the source's
  substring test on the two keys.
\<close>

datatype action =
    Toast string
  | PlayCaptureSound
  | DeletePiece string
  | SetPiece string PiecePosition
  | UpdateDb string PiecePosition
  | ClearMoves

text \<open>\<open>Object.entries(piecePositions).find(([piece, pos]) => pos.x === endPos.x && pos.y === endPos.y)\<close>\<close>

definition capturedPiece :: "board_obj \<Rightarrow> PiecePosition \<Rightarrow> (string \<times> PiecePosition) option" where
  "capturedPiece m endPos =
     find (\<lambda>(piece, pos). pos_x pos = pos_x endPos \<and> pos_y pos = pos_y endPos) m"

text \<open>The colour test of lines 257--260.\<close>

definition opposing :: "string \<Rightarrow> string \<Rightarrow> bool" where
  "opposing sel c \<longleftrightarrow> (is_black sel \<and> \<not> is_black c) \<or> (\<not> is_black sel \<and> is_black c)"

text \<open>
  The capture block (lines 251--275): the first entry on the end square is captured
  when its colour differs from the mover's; its key is deleted locally and the
  sentinel position is pushed for it.
\<close>

definition capture_actions :: "board_obj \<Rightarrow> string \<Rightarrow> PiecePosition \<Rightarrow> action list" where
  "capture_actions m sel endPos =
     (case capturedPiece m endPos of
        None \<Rightarrow> []
      | Some (c, _) \<Rightarrow>
          if opposing sel c then [PlayCaptureSound, DeletePiece c, UpdateDb c sentinel] else [])"

definition handleMove ::
  "board_state \<Rightarrow> PiecePosition \<Rightarrow> (js_error + action list) option" where
  "handleMove b endPos =
     (case selectedPiece b of
        None \<Rightarrow> Some (Inr [])
      | Some sel \<Rightarrow>
          if sel = [] then Some (Inr [])
          else
            case map_of (piecePositions b) sel of
              None \<Rightarrow> Some (Inl TypeError)
            | Some startPos \<Rightarrow>
                (case isPathBlocked (piecePositions b) sel startPos endPos of
                   None \<Rightarrow> None
                 | Some True \<Rightarrow> Some (Inr [Toast ''Move blocked by another piece''])
                 | Some False \<Rightarrow>
                     Some (Inr (capture_actions (piecePositions b) sel endPos @
                                [SetPiece sel endPos, UpdateDb sel endPos, ClearMoves]))))"

text \<open>The effect of one action on the component's own state.\<close>

fun apply_local :: "board_state \<Rightarrow> action \<Rightarrow> board_state" where
  "apply_local b (DeletePiece c) = b\<lparr>piecePositions := obj_delete (piecePositions b) c\<rparr>"
| "apply_local b (SetPiece k p) = b\<lparr>piecePositions := obj_set (piecePositions b) k p\<rparr>"
| "apply_local b ClearMoves = b\<lparr>availableMoves := []\<rparr>"
| "apply_local b (Toast _) = b"
| "apply_local b PlayCaptureSound = b"
| "apply_local b (UpdateDb _ _) = b"

text \<open>
  A move committed with no remote update in between: the effects applied in order to
  the state the handler was rendered with.
\<close>

definition commit_local :: "board_state \<Rightarrow> PiecePosition \<Rightarrow> (js_error + board_state) option" where
  "commit_local b endPos =
     map_option (map_sum id (\<lambda>acts. fold (\<lambda>a s. apply_local s a) acts b)) (handleMove b endPos)"

subsection \<open>The local effect of a commit\<close>

lemma obj_wf_fold_apply_local:
  "obj_wf (piecePositions b) \<Longrightarrow> obj_wf (piecePositions (fold (\<lambda>a s. apply_local s a) acts b))"
proof (induction acts arbitrary: b)
  case (Cons a acts)
  then show ?case by (cases a) (auto intro!: Cons.IH)
qed simp

text \<open>An unblocked move: the capture (if any) and then the mover's new entry.\<close>

lemma commit_local_unblocked:
  assumes "selectedPiece b = Some sel" and "sel \<noteq> []"
    and "map_of (piecePositions b) sel = Some startPos"
    and "isPathBlocked (piecePositions b) sel startPos endPos = Some False"
  shows "commit_local b endPos =
           Some (Inr (b\<lparr>piecePositions :=
             obj_set (case capturedPiece (piecePositions b) endPos of
                        None \<Rightarrow> piecePositions b
                      | Some (c, _) \<Rightarrow>
                          if opposing sel c then obj_delete (piecePositions b) c
                          else piecePositions b) sel endPos,
             availableMoves := []\<rparr>))"
  using assms
  by (auto simp: commit_local_def handleMove_def capture_actions_def split: option.split)

lemma capturedPiece_Some:
  "capturedPiece m endPos = Some (c, q) \<Longrightarrow> (c, q) \<in> set m \<and> q = endPos"
  by (auto simp: capturedPiece_def intro: PiecePosition.equality)

lemma capturedPiece_None:
  "capturedPiece m endPos = None \<Longrightarrow> (k, endPos) \<notin> set m"
  by (auto simp: capturedPiece_def find_None_iff)

text \<open>The captured key is not the mover's: the mover stands on its start square.\<close>

lemma captured_ne_mover:
  assumes "obj_wf m" and "map_of m sel = Some startPos" and "startPos \<noteq> endPos"
    and "capturedPiece m endPos = Some (c, q)"
  shows "c \<noteq> sel"
proof
  assume "c = sel"
  with capturedPiece_Some [OF assms(4)] have "(sel, endPos) \<in> set m" by blast
  with assms(1) have "map_of m sel = Some endPos" by (simp add: obj_wf_map_of_iff)
  with assms(2,3) show False by simp
qed

lemma unblocked_of_line:
  "startPos \<noteq> endPos \<Longrightarrow> \<not> line_blocked m startPos endPos \<Longrightarrow>
     isPathBlocked m sel startPos endPos = Some False"
  by (simp add: isPathBlocked_eq)

subsection \<open>Properties\<close>

text \<open>
  C2: capturing an opposing piece. When the selected piece moves along a clear path onto
  a square whose first occupant has the other colour, the commit removes exactly one
  entry, the captured key, and leaves the mover's entry on the destination; every other
  key keeps its position.
\<close>

theorem handleMove_capture:
  assumes wf: "obj_wf (piecePositions b)"
    and sel: "selectedPiece b = Some sel" "sel \<noteq> []"
    and start: "map_of (piecePositions b) sel = Some startPos" and ne: "startPos \<noteq> endPos"
    and clear: "\<not> line_blocked (piecePositions b) startPos endPos"
    and cap: "capturedPiece (piecePositions b) endPos = Some (c, q)" and opp: "opposing sel c"
  shows "\<exists>b'. commit_local b endPos = Some (Inr b') \<and>
           map_of (piecePositions b') = (map_of (piecePositions b))(c := None, sel \<mapsto> endPos) \<and>
           length (piecePositions b') = length (piecePositions b) - 1"
proof -
  let ?m = "piecePositions b"
  have c_sel: "c \<noteq> sel" by (rule captured_ne_mover [OF wf start ne cap])
  have c_key: "c \<in> obj_keys ?m"
    using capturedPiece_Some [OF cap] by (force simp: obj_keys_def)
  have sel_key: "sel \<in> obj_keys (obj_delete ?m c)"
    using start c_sel by (force simp: obj_keys_def obj_delete_def dest: map_of_SomeD)
  have "commit_local b endPos =
          Some (Inr (b\<lparr>piecePositions := obj_set (obj_delete ?m c) sel endPos,
                       availableMoves := []\<rparr>))"
    using commit_local_unblocked [OF sel start unblocked_of_line [OF ne clear]] cap opp
    by simp
  moreover have "length (obj_set (obj_delete ?m c) sel endPos) = length ?m - 1"
    using length_obj_set [OF sel_key] length_obj_delete [OF wf c_key] by simp
  ultimately show ?thesis by (simp add: obj_simps)
qed

theorem handleMove_capture_witness:
  "obj_wf [(''queen'', mk_pos 4 4), (''blackPawn1'', mk_pos 3 3)] \<and>
   (\<exists>b'. commit_local \<lparr>piecePositions = [(''queen'', mk_pos 4 4), (''blackPawn1'', mk_pos 3 3)],
                      selectedPiece = Some ''queen'', availableMoves = [mk_pos 3 3]\<rparr>
                      (mk_pos 3 3) = Some (Inr b') \<and>
          map_of (piecePositions b') ''blackPawn1'' = None \<and>
          map_of (piecePositions b') ''queen'' = Some (mk_pos 3 3) \<and>
          length (piecePositions b') = 1)"
proof -
  let ?b = "\<lparr>piecePositions = [(''queen'', mk_pos 4 4), (''blackPawn1'', mk_pos 3 3)],
             selectedPiece = Some ''queen'', availableMoves = [mk_pos 3 3]\<rparr>"
  have h: "obj_wf (piecePositions ?b)" by (simp add: obj_wf_def)
  have l: "\<not> line_blocked (piecePositions ?b) (mk_pos 4 4) (mk_pos 3 3)"
    by (simp add: line_blocked_def squares_between_def)
  have c: "capturedPiece (piecePositions ?b) (mk_pos 3 3) = Some (''blackPawn1'', mk_pos 3 3)"
    by (simp add: capturedPiece_def)
  have o: "opposing ''queen'' ''blackPawn1''" by (simp add: opposing_def is_black_def)
  show ?thesis
    using h handleMove_capture [OF h, of "''queen''" "mk_pos 4 4" "mk_pos 3 3"] l c o
    by auto
qed

text \<open>
  C3: the code does not reject a move onto a square held by a piece of the mover's own
  colour (spec 4.3 requires rejection): the commit succeeds, the occupant keeps its
  entry, and two keys now stand on the same on-board square.
\<close>

theorem handleMove_own_piece_overlap:
  assumes wf: "obj_wf (piecePositions b)"
    and sel: "selectedPiece b = Some sel" "sel \<noteq> []"
    and start: "map_of (piecePositions b) sel = Some startPos" and ne: "startPos \<noteq> endPos"
    and clear: "\<not> line_blocked (piecePositions b) startPos endPos"
    and cap: "capturedPiece (piecePositions b) endPos = Some (c, q)" and own: "\<not> opposing sel c"
    and board: "on_board endPos"
  shows "\<exists>b'. commit_local b endPos = Some (Inr b') \<and> c \<noteq> sel \<and>
           map_of (piecePositions b') c = Some endPos \<and>
           map_of (piecePositions b') sel = Some endPos \<and>
           \<not> no_overlap (piecePositions b')"
proof -
  let ?m = "piecePositions b"
  let ?m' = "obj_set ?m sel endPos"
  have c_sel: "c \<noteq> sel" by (rule captured_ne_mover [OF wf start ne cap])
  have commit: "commit_local b endPos =
      Some (Inr (b\<lparr>piecePositions := ?m', availableMoves := []\<rparr>))"
    using commit_local_unblocked [OF sel start unblocked_of_line [OF ne clear]] cap own
    by simp
  have "(c, endPos) \<in> set ?m" using capturedPiece_Some [OF cap] by blast
  with wf c_sel have c_at: "(c, endPos) \<in> set ?m'" by (simp add: set_obj_set)
  have s_at: "(sel, endPos) \<in> set ?m'" using wf by (simp add: set_obj_set)
  have "\<not> no_overlap ?m'"
    using no_overlap_iff [OF obj_wf_set [OF wf]] c_at s_at c_sel board by blast
  moreover have "map_of ?m' c = Some endPos" "map_of ?m' sel = Some endPos"
    using c_at s_at obj_wf_set [OF wf] by (simp_all add: obj_wf_map_of_iff)
  ultimately show ?thesis using commit c_sel by simp
qed

theorem handleMove_own_piece_overlap_witness:
  "obj_wf [(''queen'', mk_pos 4 4), (''pawn1'', mk_pos 3 4)] \<and>
   (\<exists>b'. commit_local \<lparr>piecePositions = [(''queen'', mk_pos 4 4), (''pawn1'', mk_pos 3 4)],
                      selectedPiece = Some ''queen'', availableMoves = [mk_pos 3 4]\<rparr>
                      (mk_pos 3 4) = Some (Inr b') \<and>
          \<not> no_overlap (piecePositions b'))"
proof -
  let ?b = "\<lparr>piecePositions = [(''queen'', mk_pos 4 4), (''pawn1'', mk_pos 3 4)],
             selectedPiece = Some ''queen'', availableMoves = [mk_pos 3 4]\<rparr>"
  have h: "obj_wf (piecePositions ?b)" by (simp add: obj_wf_def)
  have l: "\<not> line_blocked (piecePositions ?b) (mk_pos 4 4) (mk_pos 3 4)"
    by (simp add: line_blocked_def squares_between_def)
  have c: "capturedPiece (piecePositions ?b) (mk_pos 3 4) = Some (''pawn1'', mk_pos 3 4)"
    by (simp add: capturedPiece_def)
  have o: "\<not> opposing ''queen'' ''pawn1''" by (simp add: opposing_def is_black_def)
  have bd: "on_board (mk_pos 3 4)" by (simp add: on_board_def)
  show ?thesis
    using h handleMove_own_piece_overlap [OF h, of "''queen''" "mk_pos 4 4" "mk_pos 3 4"] l c o bd
    by auto
qed

text \<open>
  C8: the one-piece-per-square invariant is kept by every committed move whose
  destination is on the board and is empty or held by the other colour.
\<close>

theorem handleMove_preserves_board_inv:
  assumes inv: "board_inv (piecePositions b)"
    and sel: "selectedPiece b = Some sel" "sel \<noteq> []"
    and start: "map_of (piecePositions b) sel = Some startPos" and ne: "startPos \<noteq> endPos"
    and clear: "\<not> line_blocked (piecePositions b) startPos endPos"
    and board: "on_board endPos"
    and not_own: "\<forall>c q. capturedPiece (piecePositions b) endPos = Some (c, q) \<longrightarrow> opposing sel c"
  shows "\<exists>b'. commit_local b endPos = Some (Inr b') \<and> board_inv (piecePositions b')"
proof -
  let ?m = "piecePositions b"
  from inv have wf: "obj_wf ?m" and no: "no_overlap ?m" by (simp_all add: board_inv_def)
  define m0 where "m0 = (case capturedPiece ?m endPos of None \<Rightarrow> ?m
                          | Some (c, _) \<Rightarrow> if opposing sel c then obj_delete ?m c else ?m)"
  have commit: "commit_local b endPos =
      Some (Inr (b\<lparr>piecePositions := obj_set m0 sel endPos, availableMoves := []\<rparr>))"
    using commit_local_unblocked [OF sel start unblocked_of_line [OF ne clear]]
    by (simp add: m0_def)
  have wf0: "obj_wf m0" using wf by (auto simp: m0_def split: option.split)
  have sub: "set m0 \<subseteq> set ?m" by (auto simp: m0_def set_obj_delete split: option.split)
  have free: "(k, endPos) \<notin> set m0" for k
  proof (cases "capturedPiece ?m endPos")
    case None
    then show ?thesis using sub capturedPiece_None by blast
  next
    case (Some cq)
    then obtain c q where cap: "capturedPiece ?m endPos = Some (c, q)" by (cases cq) auto
    with not_own have "m0 = obj_delete ?m c" by (simp add: m0_def)
    moreover have "(c, endPos) \<in> set ?m" using capturedPiece_Some [OF cap] by blast
    ultimately show ?thesis
      using no_overlap_iff [OF wf] no board by (auto simp: set_obj_delete)
  qed
  have "no_overlap (obj_set m0 sel endPos)"
    unfolding no_overlap_iff [OF obj_wf_set [OF wf0]]
    using no_overlap_iff [OF wf] no sub free by (auto simp: set_obj_set [OF wf0])
  with wf0 commit show ?thesis by (auto simp: board_inv_def)
qed

theorem handleMove_preserves_board_inv_witness:
  "board_inv initialPositions \<and>
   (\<exists>b'. commit_local \<lparr>piecePositions = initialPositions, selectedPiece = Some ''pawn5'',
                      availableMoves = [mk_pos 5 4]\<rparr> (mk_pos 5 4) = Some (Inr b') \<and>
          board_inv (piecePositions b'))"
proof -
  let ?b = "\<lparr>piecePositions = initialPositions, selectedPiece = Some ''pawn5'',
             availableMoves = [mk_pos 5 4]\<rparr>"
  have h: "board_inv (piecePositions ?b)"
    by (simp add: board_inv_def obj_wf_def no_overlap_def on_board_def initialPositions_def)
  have st: "map_of (piecePositions ?b) ''pawn5'' = Some (mk_pos 6 4)"
    by (simp add: initialPositions_def)
  have l: "\<not> line_blocked (piecePositions ?b) (mk_pos 6 4) (mk_pos 5 4)"
    by (simp add: line_blocked_def squares_between_def)
  have c: "capturedPiece (piecePositions ?b) (mk_pos 5 4) = None"
    by (simp add: capturedPiece_def initialPositions_def)
  have bd: "on_board (mk_pos 5 4)" by (simp add: on_board_def)
  show ?thesis
    using h handleMove_preserves_board_inv [OF h, of "''pawn5''" "mk_pos 6 4" "mk_pos 5 4"] st l c bd
    by auto
qed

text \<open>
  C19: a blocked move is rejected with a warning and changes nothing: the only effect is
  the toast, and the board, the selection and the highlights stay as they were.
\<close>

theorem handleMove_blocked:
  assumes sel: "selectedPiece b = Some sel" "sel \<noteq> []"
    and start: "map_of (piecePositions b) sel = Some startPos" and ne: "startPos \<noteq> endPos"
    and blocked: "line_blocked (piecePositions b) startPos endPos"
  shows "handleMove b endPos = Some (Inr [Toast ''Move blocked by another piece'']) \<and>
         commit_local b endPos = Some (Inr b)"
proof -
  have "isPathBlocked (piecePositions b) sel startPos endPos = Some True"
    using isPathBlocked_eq [OF ne] blocked by simp
  with sel start show ?thesis by (simp add: handleMove_def commit_local_def)
qed

theorem handleMove_blocked_witness:
  "map_of (piecePositions initial_board) ''rook'' = Some (mk_pos 7 0) \<and>
   line_blocked (piecePositions initial_board) (mk_pos 7 0) (mk_pos 4 0) \<and>
   commit_local (initial_board\<lparr>selectedPiece := Some ''rook''\<rparr>) (mk_pos 4 0) =
     Some (Inr (initial_board\<lparr>selectedPiece := Some ''rook''\<rparr>))"
proof -
  let ?b = "initial_board\<lparr>selectedPiece := Some ''rook''\<rparr>"
  have st: "map_of (piecePositions ?b) ''rook'' = Some (mk_pos 7 0)"
    by (simp add: initial_board_def initialPositions_def)
  have l: "line_blocked (piecePositions ?b) (mk_pos 7 0) (mk_pos 4 0)"
    by (simp add: line_blocked_def on_line_def squares_between_def upt_rec occupied_def
        initial_board_def initialPositions_def)
  have "commit_local ?b (mk_pos 4 0) = Some (Inr ?b)"
    using handleMove_blocked [of ?b "''rook''" "mk_pos 7 0" "mk_pos 4 0"] st l by simp
  with st l show ?thesis by simp
qed

text \<open>
  C30: a quiet move. When the selected piece moves along a clear path onto an empty
  square, the commit puts the mover on the destination, leaves every other key where it
  was, clears the highlights, and leaves the moved piece selected: the spec's commit
  state machine returns to Idle, but the code never calls \<open>setSelectedPiece(null)\<close>.
\<close>

theorem handleMove_keeps_selection:
  assumes sel: "selectedPiece b = Some sel" "sel \<noteq> []"
    and start: "map_of (piecePositions b) sel = Some startPos" and ne: "startPos \<noteq> endPos"
    and clear: "\<not> line_blocked (piecePositions b) startPos endPos"
    and empty: "capturedPiece (piecePositions b) endPos = None"
  shows "\<exists>b'. commit_local b endPos = Some (Inr b') \<and>
           map_of (piecePositions b') = (map_of (piecePositions b))(sel \<mapsto> endPos) \<and>
           availableMoves b' = [] \<and> selectedPiece b' = Some sel"
proof -
  have "commit_local b endPos =
          Some (Inr (b\<lparr>piecePositions := obj_set (piecePositions b) sel endPos, availableMoves := []\<rparr>))"
    using commit_local_unblocked [OF sel start unblocked_of_line [OF ne clear]] empty by simp
  then show ?thesis using sel by (simp add: obj_simps)
qed

theorem handleMove_keeps_selection_witness:
  "\<exists>b'. commit_local \<lparr>piecePositions = [(''pawn5'', mk_pos 6 4), (''rook'', mk_pos 7 0)],
                      selectedPiece = Some ''pawn5'', availableMoves = [mk_pos 5 4]\<rparr> (mk_pos 5 4)
          = Some (Inr b') \<and>
        map_of (piecePositions b') ''pawn5'' = Some (mk_pos 5 4) \<and>
        map_of (piecePositions b') ''rook'' = Some (mk_pos 7 0) \<and>
        availableMoves b' = [] \<and> selectedPiece b' = Some ''pawn5''"
proof -
  let ?m = "[(''pawn5'', mk_pos 6 4), (''rook'', mk_pos 7 0)]"
  have l: "\<not> line_blocked ?m (mk_pos 6 4) (mk_pos 5 4)"
    by (simp add: line_blocked_def squares_between_def)
  have c: "capturedPiece ?m (mk_pos 5 4) = None"
    by (simp add: capturedPiece_def)
  show ?thesis
    using handleMove_keeps_selection [where b = "\<lparr>piecePositions = ?m, selectedPiece = Some ''pawn5'',
        availableMoves = [mk_pos 5 4]\<rparr>" and sel = "''pawn5''" and startPos = "mk_pos 6 4"
        and endPos = "mk_pos 5 4"] l c
    by auto
qed

text \<open>
  C27: \<open>handleMove\<close> hangs when the selected piece already stands on the clicked
  square and the ray below-left of it is empty: the synchronous \<open>isPathBlocked\<close>
  call never returns.
\<close>

theorem handleMove_hangs:
  assumes "selectedPiece b = Some sel" "sel \<noteq> []"
    and "map_of (piecePositions b) sel = Some endPos"
    and "\<forall>i::nat. \<not> occupied (piecePositions b) (pos_x endPos - 1 - int i) (pos_y endPos - 1 - int i)"
  shows "handleMove b endPos = None"
  using assms by (simp add: handleMove_def isPathBlocked_same_square_eq)

theorem handleMove_hangs_witness:
  "(\<forall>i::nat. \<not> occupied initialPositions (7 - 1 - int i) (0 - 1 - int i)) \<and>
   handleMove (initial_board\<lparr>selectedPiece := Some ''rook''\<rparr>) (mk_pos 7 0) = None"
proof -
  have h: "\<forall>i::nat. \<not> occupied initialPositions (7 - 1 - int i) (0 - 1 - int i)"
    by (simp add: occupied_def initialPositions_def)
  have st: "map_of (piecePositions (initial_board\<lparr>selectedPiece := Some ''rook''\<rparr>)) ''rook''
              = Some (mk_pos 7 0)"
    by (simp add: initial_board_def initialPositions_def)
  show ?thesis
    using h st handleMove_hangs [of "initial_board\<lparr>selectedPiece := Some ''rook''\<rparr>" "''rook''"
      "mk_pos 7 0"]
    by (simp add: initial_board_def)
qed

text \<open>
  C31: when the selected key has no entry on the board (it was deleted by a capture),
  \<open>handleMove\<close> throws a \<open>TypeError\<close> reading \<open>startPos.x\<close> and performs no effect.
\<close>

theorem handleMove_missing_mover:
  assumes "selectedPiece b = Some sel" "sel \<noteq> []" "map_of (piecePositions b) sel = None"
  shows "handleMove b endPos = Some (Inl TypeError)"
  using assms by (simp add: handleMove_def)

theorem handleMove_missing_mover_witness:
  "map_of (piecePositions (initial_board\<lparr>selectedPiece := Some ''blackPawn9''\<rparr>)) ''blackPawn9''
     = None \<and>
   handleMove (initial_board\<lparr>selectedPiece := Some ''blackPawn9''\<rparr>) (mk_pos 3 3) =
     Some (Inl TypeError)"
proof -
  have h: "map_of (piecePositions (initial_board\<lparr>selectedPiece := Some ''blackPawn9''\<rparr>))
             ''blackPawn9'' = None"
    by (simp add: initial_board_def initialPositions_def)
  show ?thesis
    using h handleMove_missing_mover [of "initial_board\<lparr>selectedPiece := Some ''blackPawn9''\<rparr>"
      "''blackPawn9''"]
    by simp
qed

text \<open>
  On the keys of the union, the name test \<open>opposing\<close> of the capture block is
  exactly "the two pieces have different colours": every white piece may take every
  black one and the other way round, and no piece may take one of its own colour.
\<close>

theorem opposing_colour:
  "opposing (piece_name p) (piece_name q) \<longleftrightarrow> piece_colour p \<noteq> piece_colour q"
  by (cases "piece_colour p"; cases "piece_colour q") (auto simp: opposing_def is_black_colour)

end
