(* ===== verification/Render.thy ===== *)
theory Render
  imports Move
begin

text \<open>
  The render of the board and the dispatch of a click (\<^verbatim>\<open>src/src/chessboard.tsx\<close>,
  lines 286--351). Each cell looks up the first board entry on its square
  (\<open>pieceEntry\<close>) and whether it is highlighted; an occupied cell holds a button whose
  glyph is chosen by a chain of name tests. A click on a piece runs the button's
  \<open>handlePieceClick\<close> and then, as the event bubbles, the cell's handler, which calls
  \<open>handleMove\<close> when the cell is highlighted. Both handlers are closures over the same
  render: \<open>handleMove\<close> still sees the selection made before the click. The
  asynchronous \<open>handleMove\<close> runs synchronously up to its first \<open>await\<close>, the end of
  the first store write; \<open>click_cell\<close> returns the state the next render shows, the
  error a handler threw and the effects still pending after that \<open>await\<close>.
\<close>

definition pieceEntry :: "board_obj \<Rightarrow> int \<Rightarrow> int \<Rightarrow> (string \<times> PiecePosition) option" where
  "pieceEntry m rowIndex cellIndex =
     find (\<lambda>(_, pos). pos_x pos = rowIndex \<and> pos_y pos = cellIndex) m"

definition isHighlighted :: "board_state \<Rightarrow> int \<Rightarrow> int \<Rightarrow> bool" where
  "isHighlighted b rowIndex cellIndex \<longleftrightarrow>
     list_ex (\<lambda>pos. pos_x pos = rowIndex \<and> pos_y pos = cellIndex) (availableMoves b)"

text \<open>The glyphs U+2654 to U+265E the render uses.\<close>

datatype Glyph =
    WhiteKingGlyph | WhiteQueenGlyph | WhiteRookGlyph | WhiteKnightGlyph | WhiteBishopGlyph
  | WhitePawnGlyph | BlackKingGlyph | BlackQueenGlyph | BlackRookGlyph | BlackKnightGlyph
  | BlackBishopGlyph

definition glyph_colour :: "Glyph \<Rightarrow> colour" where
  "glyph_colour g =
     (if g \<in> {BlackKingGlyph, BlackQueenGlyph, BlackRookGlyph, BlackKnightGlyph, BlackBishopGlyph}
      then Black else White)"

text \<open>The conditional chain of lines 320--342, in its order.\<close>

definition glyph_of :: "string \<Rightarrow> Glyph" where
  "glyph_of k =
     (if k = ''king'' then WhiteKingGlyph
      else if k = ''queen'' then WhiteQueenGlyph
      else if str_includes k ''rook'' then WhiteRookGlyph
      else if str_includes k ''horse'' then WhiteKnightGlyph
      else if str_includes k ''camel'' then WhiteBishopGlyph
      else if k = ''blackKing'' then BlackKingGlyph
      else if k = ''blackQueen'' then BlackQueenGlyph
      else if str_includes k ''blackRook'' then BlackRookGlyph
      else if str_includes k ''blackHorse'' then BlackKnightGlyph
      else if str_includes k ''blackCamel'' then BlackBishopGlyph
      else if str_includes k ''blackPawn'' then WhitePawnGlyph
      else WhitePawnGlyph)"

text \<open>
  The synchronous prefix of a list of effects: up to and including the first store
  write, whose \<open>await\<close> ends the handler's synchronous run.
\<close>

fun sync_part :: "action list \<Rightarrow> action list" where
  "sync_part [] = []"
| "sync_part (UpdateDb k p # _) = [UpdateDb k p]"
| "sync_part (a # as) = a # sync_part as"

text \<open>
  The two handlers of a click on the cell \<open>(rowIndex, cellIndex)\<close>. The piece's button
  (line 313), present only on an occupied cell, runs \<open>handlePieceClick\<close> on the first
  entry of the square; \<open>on_piece\<close> says whether the click lands on that button or on
  the cell around it. The cell (lines 307--309) calls \<open>handleMove\<close> when it is
  highlighted; \<open>Some (Inr [])\<close> is a cell that does nothing.
\<close>

definition button_click ::
  "board_state \<Rightarrow> int \<Rightarrow> int \<Rightarrow> bool \<Rightarrow> board_state \<times> js_error option" where
  "button_click b rowIndex cellIndex on_piece =
     (case pieceEntry (piecePositions b) rowIndex cellIndex of
        Some (k, _) \<Rightarrow> if on_piece then handlePieceClick b k else (b, None)
      | None \<Rightarrow> (b, None))"

definition cell_click :: "board_state \<Rightarrow> int \<Rightarrow> int \<Rightarrow> (js_error + action list) option" where
  "cell_click b rowIndex cellIndex =
     (if isHighlighted b rowIndex cellIndex then handleMove b (mk_pos rowIndex cellIndex)
      else Some (Inr []))"

text \<open>
  A click as React dispatches it: the button's handler, then the cell's as the event
  bubbles, both closures of the same render \<open>b\<close>; the state updates they queue are
  applied in order. The result is the state the next render shows, the error a handler
  threw and the effects of \<open>handleMove\<close> still pending after its first \<open>await\<close>.
\<close>

definition click_cell ::
  "board_state \<Rightarrow> int \<Rightarrow> int \<Rightarrow> bool \<Rightarrow> (board_state \<times> js_error option \<times> action list) option" where
  "click_cell b rowIndex cellIndex on_piece =
     (let (b1, err) = button_click b rowIndex cellIndex on_piece
      in case cell_click b rowIndex cellIndex of
           None \<Rightarrow> None
         | Some (Inl e) \<Rightarrow> Some (b1, Some e, [])
         | Some (Inr acts) \<Rightarrow>
             Some (fold (\<lambda>a s. apply_local s a) (sync_part acts) b1, err,
                   drop (length (sync_part acts)) acts))"

subsection \<open>Lemmas\<close>

lemma pieceEntry_capturedPiece:
  "pieceEntry m (pos_x e) (pos_y e) = capturedPiece m e"
  by (simp add: pieceEntry_def capturedPiece_def)

lemma pos_eq_iff: "(p :: PiecePosition) = q \<longleftrightarrow> pos_x p = pos_x q \<and> pos_y p = pos_y q"
  by (cases p, cases q) simp

lemma mk_pos_sel [simp]: "mk_pos (pos_x p) (pos_y p) = p"
  by (simp add: pos_eq_iff)

lemma isHighlighted_iff: "isHighlighted b (pos_x e) (pos_y e) \<longleftrightarrow> e \<in> set (availableMoves b)"
  by (auto simp: isHighlighted_def list_ex_iff pos_eq_iff [symmetric])

subsection \<open>Properties\<close>

text \<open>
  C7: capturing by clicking the enemy piece selects the captured piece. The click on
  the enemy's button runs \<open>handlePieceClick\<close> first, which selects the enemy and
  highlights its candidates; the cell's \<open>handleMove\<close> then captures it with the old
  selection. The next render shows a selected key that is no longer on the board, with
  its candidates highlighted, and the selection stays on it after the pending effects.
\<close>

theorem click_capture_selects_captured:
  assumes wf: "obj_wf (piecePositions b)"
    and sel: "selectedPiece b = Some sel" "sel \<noteq> []"
    and start: "map_of (piecePositions b) sel = Some startPos" and ne: "startPos \<noteq> endPos"
    and clear: "\<not> line_blocked (piecePositions b) startPos endPos"
    and hl: "endPos \<in> set (availableMoves b)"
    and cap: "capturedPiece (piecePositions b) endPos = Some (piece_name c, q)"
    and opp: "opposing sel (piece_name c)"
  shows "\<exists>b' rest. click_cell b (pos_x endPos) (pos_y endPos) True = Some (b', None, rest) \<and>
           selectedPiece b' = Some (piece_name c) \<and>
           map_of (piecePositions b') (piece_name c) = None \<and>
           availableMoves b' = candidate_moves endPos (pieceMovementMap c) \<and>
           selectedPiece (fold (\<lambda>a s. apply_local s a) rest b') = Some (piece_name c)"
proof -
  let ?m = "piecePositions b" and ?k = "piece_name c"
  have c_sel: "?k \<noteq> sel" by (rule captured_ne_mover [OF wf start ne cap])
  have at: "map_of ?m ?k = Some endPos"
    using capturedPiece_Some [OF cap] wf by (auto simp: obj_wf_map_of_iff)
  have click: "handlePieceClick b ?k =
      (b\<lparr>selectedPiece := Some ?k, availableMoves := candidate_moves endPos (pieceMovementMap c)\<rparr>,
       None)"
    using sel c_sel at
    by (auto simp: handlePieceClick_def candidate_moves_def Let_def split: list.split)
  have hm: "handleMove b endPos =
      Some (Inr ([PlayCaptureSound, DeletePiece ?k, UpdateDb ?k sentinel] @
                 [SetPiece sel endPos, UpdateDb sel endPos, ClearMoves]))"
    using sel start unblocked_of_line [OF ne clear] cap opp
    by (simp add: handleMove_def capture_actions_def)
  show ?thesis
    using hl cap click hm
    by (simp add: click_cell_def button_click_def cell_click_def pieceEntry_capturedPiece
        isHighlighted_iff map_of_obj_delete)
qed

theorem click_capture_selects_captured_witness:
  "(\<exists>b' rest. click_cell \<lparr>piecePositions = [(''queen'', mk_pos 4 4), (''blackPawn1'', mk_pos 3 3)],
                          selectedPiece = Some ''queen'', availableMoves = [mk_pos 3 3]\<rparr> 3 3 True
        = Some (b', None, rest) \<and>
      selectedPiece b' = Some ''blackPawn1'' \<and> map_of (piecePositions b') ''blackPawn1'' = None \<and>
      availableMoves b' = [mk_pos 4 3])"
proof -
  let ?b = "\<lparr>piecePositions = [(''queen'', mk_pos 4 4), (''blackPawn1'', mk_pos 3 3)],
             selectedPiece = Some ''queen'', availableMoves = [mk_pos 3 3]\<rparr>"
  have h: "obj_wf (piecePositions ?b)" by (simp add: obj_wf_def)
  have l: "\<not> line_blocked (piecePositions ?b) (mk_pos 4 4) (mk_pos 3 3)"
    by (simp add: line_blocked_def squares_between_def)
  have c: "capturedPiece (piecePositions ?b) (mk_pos 3 3) = Some (piece_name BlackPawn1, mk_pos 3 3)"
    by (simp add: capturedPiece_def)
  have o: "opposing ''queen'' (piece_name BlackPawn1)" by (simp add: opposing_def is_black_def)
  have mv: "candidate_moves (mk_pos 3 3) (pieceMovementMap BlackPawn1) = [mk_pos 4 3]"
    by (simp add: candidate_moves_def BlackPawnMovement_def PawnMovement_def mirror_rank_def
        on_board_def)
  show ?thesis
    using click_capture_selects_captured [OF h, of "''queen''" "mk_pos 4 4" "mk_pos 3 3"
        BlackPawn1 "mk_pos 3 3"] l c o mv
    by auto
qed

text \<open>
  C36: the glyph chain draws every white piece and every black king, queen, rook, knight
  and bishop with a glyph of its own colour; black pawns fall through to the white pawn
  glyph and are told apart only by the text colour class.
\<close>

theorem glyph_colour_of_piece:
  "glyph_colour (glyph_of (piece_name p)) = piece_colour p \<longleftrightarrow>
     p \<notin> {BlackPawn1, BlackPawn2, BlackPawn3, BlackPawn4,
           BlackPawn5, BlackPawn6, BlackPawn7, BlackPawn8}"
  by (cases p) (simp_all add: glyph_of_def glyph_colour_def piece_colour_def)

end
