(* ===== verification/Sync.thy ===== *)
theory Sync
  imports Move
begin

text \<open>
  The synchronisation of the board with the shared room document
  (\<^verbatim>\<open>src/src/chessboard.tsx\<close>, lines 149--185). The document store (Firestore) is an
  external service; only the part the code uses is modelled: the documents
  \<open>(lobbyName, 'data')\<close> as a map from room name to a \<open>DataDoc\<close> whose one field
  \<open>playerPosition\<close> may be absent, and \<open>updateDoc\<close> on the dot-path
  \<open>playerPosition.<piece>\<close>, which rejects when the document does not exist and
  otherwise sets that key (creating the map if needed). A client is the board component
  together with its \<open>lobbyName\<close> prop, the listeners its effect holds and the toasts
  it has shown.
  \<^item> \<open>updatePositionInDatabase\<close> (lines 149--161): silent no-op without a lobby, a toast
    when the write rejects, no rollback of the local state either way;
  \<^item> \<open>on_snapshot\<close> (lines 171--181): a missing document is a toast, otherwise the
    document's whole \<open>playerPosition\<close> map is spread over the local board;
  \<^item> \<open>subscribe_effect\<close> and \<open>unsubscribe_effect\<close> (lines 163--185): the effect body and
    its cleanup, which React runs on mount, on every change of \<open>lobbyName\<close> (cleanup
    first) and on unmount;
  \<^item> \<open>exec_action\<close>: the effects of \<open>handleMove\<close> on client and store.
\<close>

record DataDoc =
  playerPosition :: "board_obj option"

type_synonym store = "string \<Rightarrow> DataDoc option"

text \<open>\<open>if (!lobbyName)\<close>: \<open>null\<close> and the empty string are both falsy.\<close>

definition lobby_truthy :: "string option \<Rightarrow> bool" where
  "lobby_truthy l \<longleftrightarrow> (case l of None \<Rightarrow> False | Some s \<Rightarrow> s \<noteq> [])"

definition positions_of :: "DataDoc \<Rightarrow> board_obj" where
  "positions_of d = (case playerPosition d of None \<Rightarrow> [] | Some g \<Rightarrow> g)"

definition updatePositionInDatabase ::
  "string option \<Rightarrow> store \<Rightarrow> string \<Rightarrow> PiecePosition \<Rightarrow> store \<times> string list" where
  "updatePositionInDatabase lobbyName st piece newPosition =
     (case lobbyName of
        None \<Rightarrow> (st, [])
      | Some l \<Rightarrow>
          if l = [] then (st, [])
          else case st l of
            None \<Rightarrow> (st, [''Failed to update '' @ piece @ '' position''])
          | Some d \<Rightarrow>
              (st(l \<mapsto> d\<lparr>playerPosition := Some (obj_set (positions_of d) piece newPosition)\<rparr>),
               []))"

record client =
  board :: board_state
  lobbyName :: "string option"
  subscriptions :: "string list"
  toasts :: "string list"

definition initial_client :: "string option \<Rightarrow> client" where
  "initial_client l = \<lparr>board = initial_board, lobbyName = l, subscriptions = [], toasts = []\<rparr>"

text \<open>
  The document \<open>createRoom\<close> writes for a new room (\<^verbatim>\<open>src/src/room.tsx\<close>, lines 84--90):
  three keys that are not members of the \<open>Piece\<close> union.
\<close>

definition room_seed :: DataDoc where
  "room_seed = \<lparr>playerPosition = Some
     [(''KingPosition'', mk_pos 7 4), (''QueenPosition'', mk_pos 7 3),
      (''RookPosition'', mk_pos 7 0)]\<rparr>"

text \<open>The snapshot callback, given the document's state (\<open>None\<close>: it does not exist).\<close>

definition on_snapshot :: "client \<Rightarrow> DataDoc option \<Rightarrow> client" where
  "on_snapshot c snap =
     (case snap of
        None \<Rightarrow> c\<lparr>toasts := toasts c @ [''Lobby data not found'']\<rparr>
      | Some d \<Rightarrow>
          c\<lparr>board := (board c)\<lparr>piecePositions :=
                obj_spread (piecePositions (board c)) (positions_of d)\<rparr>\<rparr>)"

text \<open>The effect body: a toast without a lobby, otherwise one listener on the room.\<close>

definition subscribe_effect :: "client \<Rightarrow> client" where
  "subscribe_effect c =
     (case lobbyName c of
        None \<Rightarrow> c\<lparr>toasts := toasts c @ [''You are not in a lobby'']\<rparr>
      | Some l \<Rightarrow>
          if l = [] then c\<lparr>toasts := toasts c @ [''You are not in a lobby'']\<rparr>
          else c\<lparr>subscriptions := subscriptions c @ [l]\<rparr>)"

text \<open>The cleanup the effect returned: \<open>unsubscribe()\<close> of its own listener, if any.\<close>

definition unsubscribe_effect :: "client \<Rightarrow> client" where
  "unsubscribe_effect c =
     (if lobby_truthy (lobbyName c)
      then c\<lparr>subscriptions := remove1 (the (lobbyName c)) (subscriptions c)\<rparr>
      else c)"

text \<open>A new \<open>lobbyName\<close> prop: when it differs, cleanup of the old effect, then the new one.\<close>

definition set_lobby :: "client \<Rightarrow> string option \<Rightarrow> client" where
  "set_lobby c l =
     (if l = lobbyName c then c
      else subscribe_effect ((unsubscribe_effect c)\<lparr>lobbyName := l\<rparr>))"

text \<open>One effect of \<open>handleMove\<close>, on the client and the store.\<close>

fun exec_action :: "store \<times> client \<Rightarrow> action \<Rightarrow> store \<times> client" where
  "exec_action (st, c) (Toast msg) = (st, c\<lparr>toasts := toasts c @ [msg]\<rparr>)"
| "exec_action (st, c) (UpdateDb k p) =
     (let (st', msgs) = updatePositionInDatabase (lobbyName c) st k p
      in (st', c\<lparr>toasts := toasts c @ msgs\<rparr>))"
| "exec_action (st, c) a = (st, c\<lparr>board := apply_local (board c) a\<rparr>)"

text \<open>The toasts one effect shows when the room document does not exist.\<close>

fun failed_push_toasts :: "action \<Rightarrow> string list" where
  "failed_push_toasts (Toast msg) = [msg]"
| "failed_push_toasts (UpdateDb k p) = [''Failed to update '' @ k @ '' position'']"
| "failed_push_toasts _ = []"

definition exec_actions :: "store \<Rightarrow> client \<Rightarrow> action list \<Rightarrow> store \<times> client" where
  "exec_actions st c acts = fold (\<lambda>a sc. exec_action sc a) acts (st, c)"

text \<open>
  The view of a board in which a captured piece is absent, whether its key was deleted
  or holds the sentinel (spec section 3: both are the captured state), and the relation
  between a local board and a remote \<open>playerPosition\<close> map that says the remote map
  holds nothing the local board does not already show.
\<close>

definition live :: "board_obj \<Rightarrow> string \<Rightarrow> PiecePosition option" where
  "live m k = (case map_of m k of None \<Rightarrow> None | Some p \<Rightarrow> if p = sentinel then None else Some p)"

definition agrees :: "board_obj \<Rightarrow> board_obj \<Rightarrow> bool" where
  "agrees m g \<longleftrightarrow>
     list_all (\<lambda>(k, v). map_of m k = Some v \<or> (map_of m k = None \<and> v = sentinel)) g"

definition subs_ok :: "client \<Rightarrow> bool" where
  "subs_ok c \<longleftrightarrow>
     subscriptions c = (if lobby_truthy (lobbyName c) then [the (lobbyName c)] else [])"

subsection \<open>Merging a snapshot\<close>

lemma board_on_snapshot [simp]:
  "piecePositions (board (on_snapshot c (Some d))) =
     obj_spread (piecePositions (board c)) (positions_of d)"
  by (simp add: on_snapshot_def)

lemma agrees_live_spread:
  assumes "obj_wf g" and "agrees m g"
  shows "live (obj_spread m g) = live m"
proof
  fix k
  show "live (obj_spread m g) k = live m k"
  proof (cases "map_of g k")
    case None
    then show ?thesis by (simp add: live_def map_of_obj_spread [OF assms(1)] map_add_def)
  next
    case (Some v)
    then have "(k, v) \<in> set g" by (rule map_of_SomeD)
    with assms(2) have "map_of m k = Some v \<or> (map_of m k = None \<and> v = sentinel)"
      by (auto simp: agrees_def list_all_iff)
    with Some show ?thesis by (auto simp: live_def map_of_obj_spread [OF assms(1)])
  qed
qed

lemma agrees_set:
  "obj_wf g \<Longrightarrow> agrees m g \<Longrightarrow> agrees (obj_set m k v) (obj_set g k v)"
  by (auto simp: agrees_def list_all_iff set_obj_set map_of_obj_set)

lemma agrees_delete_sentinel:
  "obj_wf g \<Longrightarrow> agrees m g \<Longrightarrow> agrees (obj_delete m k) (obj_set g k sentinel)"
  by (auto simp: agrees_def list_all_iff set_obj_set map_of_obj_set map_of_obj_delete)

subsection \<open>Store writes\<close>

lemma update_no_doc:
  "lobbyName c = Some l \<Longrightarrow> l \<noteq> [] \<Longrightarrow> st l = None \<Longrightarrow>
     exec_action (st, c) (UpdateDb k p) = (st, c\<lparr>toasts := toasts c @ [''Failed to update '' @ k @ '' position'']\<rparr>)"
  by (simp add: updatePositionInDatabase_def)

lemma update_doc:
  "lobbyName c = Some l \<Longrightarrow> l \<noteq> [] \<Longrightarrow> st l = Some d \<Longrightarrow>
     exec_action (st, c) (UpdateDb k p) =
       (st(l \<mapsto> d\<lparr>playerPosition := Some (obj_set (positions_of d) k p)\<rparr>), c)"
  by (simp add: updatePositionInDatabase_def)

lemma exec_actions_Nil [simp]: "exec_actions st c [] = (st, c)"
  by (simp add: exec_actions_def)

lemma exec_actions_Cons [simp]:
  "exec_actions st c (a # acts) = (let (st', c') = exec_action (st, c) a in exec_actions st' c' acts)"
  by (simp add: exec_actions_def split_def)

subsection \<open>The shapes of a committed move\<close>

lemma handleMove_Inr_cases:
  assumes "handleMove b endPos = Some (Inr acts)"
  obtains "acts = []"
  | "acts = [Toast ''Move blocked by another piece'']"
  | sel where "acts = [SetPiece sel endPos, UpdateDb sel endPos, ClearMoves]"
  | sel c where "acts = [PlayCaptureSound, DeletePiece c, UpdateDb c sentinel,
                         SetPiece sel endPos, UpdateDb sel endPos, ClearMoves]"
  using assms
  by (auto simp: handleMove_def capture_actions_def split: option.splits if_splits bool.splits)

text \<open>With the room document present, a move's local effects and its pushes keep the
  remote map in agreement with the local board.\<close>

lemma exec_actions_agrees:
  assumes lobby: "lobbyName c = Some l" "l \<noteq> []" and doc: "st l = Some d"
    and wf: "obj_wf (positions_of d)" and ag: "agrees (piecePositions (board c)) (positions_of d)"
    and hm: "handleMove (board c) endPos = Some (Inr acts)"
  shows "\<exists>st' c' d'. exec_actions st c acts = (st', c') \<and> st' l = Some d' \<and>
           obj_wf (positions_of d') \<and> agrees (piecePositions (board c')) (positions_of d')"
  using hm
proof (cases rule: handleMove_Inr_cases)
  case 1
  with doc wf ag show ?thesis by simp
next
  case 2
  with doc wf ag show ?thesis by simp
next
  case (3 sel)
  with lobby doc wf ag show ?thesis
    by (simp add: updatePositionInDatabase_def positions_of_def agrees_set obj_wf_set)
next
  case (4 sel k)
  have wf1: "obj_wf (obj_set (positions_of d) k sentinel)" using wf by (rule obj_wf_set)
  have ag1: "agrees (obj_delete (piecePositions (board c)) k) (obj_set (positions_of d) k sentinel)"
    using wf ag by (rule agrees_delete_sentinel)
  from 4 lobby doc wf1 ag1 show ?thesis
    by (simp add: updatePositionInDatabase_def positions_of_def agrees_set obj_wf_set)
qed

subsection \<open>The listener's lifecycle\<close>

lemma subs_ok_mount: "subs_ok (subscribe_effect (initial_client l))"
  by (auto simp: subs_ok_def subscribe_effect_def initial_client_def lobby_truthy_def
      split: option.split)

lemma subs_ok_set_lobby: "subs_ok c \<Longrightarrow> subs_ok (set_lobby c l)"
  by (auto simp: subs_ok_def set_lobby_def subscribe_effect_def unsubscribe_effect_def
      lobby_truthy_def split: option.splits if_splits)

lemma subs_ok_unmount: "subs_ok c \<Longrightarrow> subscriptions (unsubscribe_effect c) = []"
  by (auto simp: subs_ok_def unsubscribe_effect_def)

subsection \<open>Store writes that fail\<close>

lemma exec_actions_no_doc:
  assumes "lobbyName c = Some l" "l \<noteq> []" "st l = None"
  shows "exec_actions st c acts =
           (st, c\<lparr>board := fold (\<lambda>a s. apply_local s a) acts (board c),
                  toasts := toasts c @ concat (map failed_push_toasts acts)\<rparr>)"
  using assms
proof (induction acts arbitrary: c)
  case Nil
  then show ?case by simp
next
  case (Cons a acts)
  then show ?case
    by (cases a) (simp_all add: updatePositionInDatabase_def)
qed

subsection \<open>Properties\<close>

text \<open>
  C9: a snapshot of an existing room document merges the document's whole
  \<open>playerPosition\<close> map into the board: keys it mentions take the remote value, every
  other key keeps its local position, and nothing else of the client changes.
\<close>

theorem on_snapshot_merge:
  assumes "obj_wf (positions_of d)"
  shows "\<exists>m'. on_snapshot c (Some d) = c\<lparr>board := (board c)\<lparr>piecePositions := m'\<rparr>\<rparr> \<and>
           map_of m' = map_of (piecePositions (board c)) ++ map_of (positions_of d)"
  using assms
  by (intro exI [of _ "obj_spread (piecePositions (board c)) (positions_of d)"])
    (simp add: on_snapshot_def map_of_obj_spread)

theorem on_snapshot_merge_witness:
  "obj_wf (positions_of \<lparr>playerPosition = Some [(''pawn5'', mk_pos 5 4)]\<rparr>) \<and>
   (\<exists>m'. on_snapshot (initial_client (Some ''room'')) (Some \<lparr>playerPosition = Some [(''pawn5'', mk_pos 5 4)]\<rparr>)
           = (initial_client (Some ''room''))\<lparr>board := initial_board\<lparr>piecePositions := m'\<rparr>\<rparr> \<and>
         map_of m' ''pawn5'' = Some (mk_pos 5 4) \<and> map_of m' ''pawn4'' = Some (mk_pos 6 3))"
proof -
  have h: "obj_wf (positions_of \<lparr>playerPosition = Some [(''pawn5'', mk_pos 5 4)]\<rparr>)"
    by (simp add: positions_of_def obj_wf_def)
  show ?thesis
    using h on_snapshot_merge [OF h, of "initial_client (Some ''room'')"]
    by (auto simp: initial_client_def initial_board_def initialPositions_def positions_of_def
        map_add_def)
qed

text \<open>
  C10: the echo of a move is harmless. A client whose room document exists and agrees
  with its board commits a move; the snapshot of the document it has just written
  changes nothing of the board that is not captured (a captured key comes back with
  the sentinel position, which is the same captured state).
\<close>

theorem commit_echo_idempotent:
  assumes "lobbyName c = Some l" "l \<noteq> []" "st l = Some d"
    and "obj_wf (positions_of d)" "agrees (piecePositions (board c)) (positions_of d)"
    and "handleMove (board c) endPos = Some (Inr acts)"
  shows "\<exists>st' c'. exec_actions st c acts = (st', c') \<and>
           live (piecePositions (board (on_snapshot c' (st' l)))) = live (piecePositions (board c'))"
proof -
  obtain st' c' d' where "exec_actions st c acts = (st', c')" "st' l = Some d'"
    "obj_wf (positions_of d')" "agrees (piecePositions (board c')) (positions_of d')"
    using exec_actions_agrees [where c = c and l = l and st = st and d = d, OF assms] by blast
  then show ?thesis by (auto simp: agrees_live_spread)
qed

theorem commit_echo_idempotent_witness:
  "handleMove (board ((initial_client (Some ''room''))\<lparr>board := initial_board\<lparr>selectedPiece := Some ''pawn5''\<rparr>\<rparr>))
     (mk_pos 5 4) = Some (Inr [SetPiece ''pawn5'' (mk_pos 5 4), UpdateDb ''pawn5'' (mk_pos 5 4), ClearMoves]) \<and>
   (\<exists>st' c'. exec_actions [''room'' \<mapsto> \<lparr>playerPosition = Some []\<rparr>]
        ((initial_client (Some ''room''))\<lparr>board := initial_board\<lparr>selectedPiece := Some ''pawn5''\<rparr>\<rparr>)
        [SetPiece ''pawn5'' (mk_pos 5 4), UpdateDb ''pawn5'' (mk_pos 5 4), ClearMoves] = (st', c') \<and>
      live (piecePositions (board (on_snapshot c' (st' ''room'')))) = live (piecePositions (board c')))"
proof -
  let ?c = "(initial_client (Some ''room''))\<lparr>board := initial_board\<lparr>selectedPiece := Some ''pawn5''\<rparr>\<rparr>"
  let ?st = "[''room'' \<mapsto> \<lparr>playerPosition = Some []\<rparr>] :: store"
  have l: "\<not> line_blocked initialPositions (mk_pos 6 4) (mk_pos 5 4)"
    by (simp add: line_blocked_def squares_between_def)
  have hm: "handleMove (board ?c) (mk_pos 5 4) =
      Some (Inr [SetPiece ''pawn5'' (mk_pos 5 4), UpdateDb ''pawn5'' (mk_pos 5 4), ClearMoves])"
    using l by (simp add: handleMove_def initial_client_def initial_board_def
        initialPositions_def unblocked_of_line capture_actions_def capturedPiece_def)
  have "lobbyName ?c = Some ''room''" "?st ''room'' = Some \<lparr>playerPosition = Some []\<rparr>"
    "obj_wf (positions_of \<lparr>playerPosition = Some []\<rparr>)"
    "agrees (piecePositions (board ?c)) (positions_of \<lparr>playerPosition = Some []\<rparr>)"
    by (simp_all add: initial_client_def positions_of_def obj_wf_def agrees_def)
  with hm show ?thesis
    using commit_echo_idempotent [where c = ?c and l = "''room''" and st = ?st
        and d = "\<lparr>playerPosition = Some []\<rparr>" and endPos = "mk_pos 5 4"]
    by auto
qed

text \<open>
  C21: the listener is a scoped resource. From mount, through any sequence of changes
  of the \<open>lobbyName\<close> prop, the board holds exactly one listener, on the current room,
  when the room name is truthy and none otherwise; the cleanup at unmount leaves none.
\<close>

theorem subscription_lifecycle:
  "subs_ok (fold (\<lambda>l c. set_lobby c l) ls (subscribe_effect (initial_client l0))) \<and>
   subscriptions (unsubscribe_effect
     (fold (\<lambda>l c. set_lobby c l) ls (subscribe_effect (initial_client l0)))) = []"
proof -
  have "subs_ok (fold (\<lambda>l c. set_lobby c l) ls c)" if "subs_ok c" for c
    using that by (induction ls arbitrary: c) (simp_all add: subs_ok_set_lobby)
  then have "subs_ok (fold (\<lambda>l c. set_lobby c l) ls (subscribe_effect (initial_client l0)))"
    using subs_ok_mount by blast
  then show ?thesis using subs_ok_unmount by blast
qed

text \<open>
  C20: optimistic commit without rollback. When the room document does not exist the
  store is untouched, every push shows its failure toast, and the local board keeps the
  move exactly as the local commit made it.
\<close>

theorem commit_push_failure_keeps_local:
  assumes "lobbyName c = Some l" "l \<noteq> []" "st l = None"
    and "handleMove (board c) endPos = Some (Inr acts)"
  shows "\<exists>msgs. exec_actions st c acts = (st, c\<lparr>board := fold (\<lambda>a s. apply_local s a) acts (board c),
                                               toasts := toasts c @ msgs\<rparr>) \<and>
           commit_local (board c) endPos = Some (Inr (fold (\<lambda>a s. apply_local s a) acts (board c))) \<and>
           (\<forall>k p. UpdateDb k p \<in> set acts \<longrightarrow> ''Failed to update '' @ k @ '' position'' \<in> set msgs)"
proof -
  let ?msgs = "concat (map failed_push_toasts acts)"
  have "exec_actions st c acts = (st, c\<lparr>board := fold (\<lambda>a s. apply_local s a) acts (board c),
                                          toasts := toasts c @ ?msgs\<rparr>)"
    by (rule exec_actions_no_doc [where c = c and l = l and st = st, OF assms(1-3)])
  moreover have "commit_local (board c) endPos =
                   Some (Inr (fold (\<lambda>a s. apply_local s a) acts (board c)))"
    using assms(4) by (simp add: commit_local_def)
  moreover have "\<forall>k p. UpdateDb k p \<in> set acts \<longrightarrow> ''Failed to update '' @ k @ '' position'' \<in> set ?msgs"
    by force
  ultimately show ?thesis by blast
qed

theorem commit_push_failure_keeps_local_witness:
  "\<exists>msgs. exec_actions (\<lambda>_. None)
        ((initial_client (Some ''room''))\<lparr>board := initial_board\<lparr>selectedPiece := Some ''pawn5''\<rparr>\<rparr>)
        [SetPiece ''pawn5'' (mk_pos 5 4), UpdateDb ''pawn5'' (mk_pos 5 4), ClearMoves] =
      ((\<lambda>_. None), (initial_client (Some ''room''))\<lparr>board := initial_board\<lparr>
          piecePositions := obj_set initialPositions ''pawn5'' (mk_pos 5 4),
          selectedPiece := Some ''pawn5''\<rparr>, toasts := msgs\<rparr>) \<and>
      ''Failed to update pawn5 position'' \<in> set msgs"
proof -
  let ?c = "(initial_client (Some ''room''))\<lparr>board := initial_board\<lparr>selectedPiece := Some ''pawn5''\<rparr>\<rparr>"
  have l: "\<not> line_blocked initialPositions (mk_pos 6 4) (mk_pos 5 4)"
    by (simp add: line_blocked_def squares_between_def)
  have hm: "handleMove (board ?c) (mk_pos 5 4) =
      Some (Inr [SetPiece ''pawn5'' (mk_pos 5 4), UpdateDb ''pawn5'' (mk_pos 5 4), ClearMoves])"
    using l by (simp add: handleMove_def initial_client_def initial_board_def
        initialPositions_def unblocked_of_line capture_actions_def capturedPiece_def)
  show ?thesis
    using commit_push_failure_keeps_local [of ?c "''room''" "\<lambda>_. None", OF _ _ _ hm]
    by (auto simp: initial_client_def initial_board_def)
qed

text \<open>
  Two snapshots whose maps mention disjoint keys merge to the same board in either
  order, and the board holds both updates.
\<close>

theorem snapshots_commute:
  assumes "obj_wf (positions_of d1)" "obj_wf (positions_of d2)"
    and "fst ` set (positions_of d1) \<inter> fst ` set (positions_of d2) = {}"
  shows "map_of (piecePositions (board (on_snapshot (on_snapshot c (Some d1)) (Some d2)))) =
         map_of (piecePositions (board (on_snapshot (on_snapshot c (Some d2)) (Some d1)))) \<and>
         map_of (piecePositions (board (on_snapshot (on_snapshot c (Some d1)) (Some d2)))) =
         map_of (piecePositions (board c)) ++ map_of (positions_of d1) ++ map_of (positions_of d2)"
proof -
  have "dom (map_of (positions_of d1)) \<inter> dom (map_of (positions_of d2)) = {}"
    using assms(3) by (simp add: dom_map_of_conv_image_fst)
  then have "map_of (positions_of d1) ++ map_of (positions_of d2) =
             map_of (positions_of d2) ++ map_of (positions_of d1)"
    by (rule map_add_comm)
  with assms(1,2) show ?thesis
    by (simp add: map_of_obj_spread) (metis map_add_assoc)
qed

theorem snapshots_commute_witness:
  "obj_wf (positions_of \<lparr>playerPosition = Some [(''pawn5'', mk_pos 5 4)]\<rparr>) \<and>
   obj_wf (positions_of \<lparr>playerPosition = Some [(''blackPawn5'', mk_pos 2 4)]\<rparr>) \<and>
   map_of (piecePositions (board (on_snapshot (on_snapshot (initial_client (Some ''r''))
       (Some \<lparr>playerPosition = Some [(''pawn5'', mk_pos 5 4)]\<rparr>))
       (Some \<lparr>playerPosition = Some [(''blackPawn5'', mk_pos 2 4)]\<rparr>)))) =
   map_of (piecePositions (board (on_snapshot (on_snapshot (initial_client (Some ''r''))
       (Some \<lparr>playerPosition = Some [(''blackPawn5'', mk_pos 2 4)]\<rparr>))
       (Some \<lparr>playerPosition = Some [(''pawn5'', mk_pos 5 4)]\<rparr>))))"
proof -
  have h1: "obj_wf (positions_of \<lparr>playerPosition = Some [(''pawn5'', mk_pos 5 4)]\<rparr>)"
    and h2: "obj_wf (positions_of \<lparr>playerPosition = Some [(''blackPawn5'', mk_pos 2 4)]\<rparr>)"
    by (simp_all add: positions_of_def obj_wf_def)
  have h3: "fst ` set (positions_of \<lparr>playerPosition = Some [(''pawn5'', mk_pos 5 4)]\<rparr>) \<inter>
            fst ` set (positions_of \<lparr>playerPosition = Some [(''blackPawn5'', mk_pos 2 4)]\<rparr>) = {}"
    by (simp add: positions_of_def)
  show ?thesis using h1 h2 snapshots_commute [OF h1 h2 h3, of "initial_client (Some ''r'')"]
    by blast
qed

end
