(* ===== verification/System.thy ===== *)
theory System
  imports Render Sync
begin

text \<open>
  Several browsers on one room, as a nondeterministic step relation. Each browser is a
  \<open>client\<close> of \<open>Sync\<close> (its board, \<open>lobbyName\<close>, listeners and toasts) together with
  the continuations of its \<open>handleMove\<close> calls suspended at an \<open>await\<close>; all share the
  store. A step is one of:
  \<^item> a click (\<open>sys_click\<close>) on one of the 64 rendered cells: both handlers of \<open>Render.click_cell\<close> run on the
    browser's current render, and \<open>handleMove\<close>'s effects up to its first \<open>await\<close> are
    executed on the browser and the store (\<open>Sync.exec_actions\<close>); the rest is
    suspended. A click whose \<open>handleMove\<close> never returns has no step: the tab hangs;
  \<^item> a resumption (\<open>sys_resume\<close>): one suspended continuation, any of them (the
    store acknowledges writes in any order), runs up to its next \<open>await\<close>;
  \<^item> a delivery (\<open>sys_deliver\<close>): the store delivers the current room document to one of
    the browser's listeners, which merges it (\<open>Sync.on_snapshot\<close>); deliveries may come
    at any time, as latency compensation and the network order them;
  \<^item> a new \<open>lobbyName\<close> prop (\<open>sys_lobby\<close>, \<open>Sync.set_lobby\<close>).
  Each step is computed by a function; the relation only chooses which.
\<close>

record sys =
  st :: store
  cls :: "nat \<Rightarrow> client"
  susp :: "nat \<Rightarrow> action list list"

definition sys_init :: "store \<Rightarrow> string \<Rightarrow> sys" where
  "sys_init st0 r = \<lparr>st = st0, cls = (\<lambda>i. subscribe_effect (initial_client (Some r))),
                     susp = (\<lambda>i. [])\<rparr>"

text \<open>A continuation with nothing left to run is dropped.\<close>

definition cont :: "action list \<Rightarrow> action list list" where
  "cont acts = (if acts = [] then [] else [acts])"

definition sys_click :: "sys \<Rightarrow> nat \<Rightarrow> int \<Rightarrow> int \<Rightarrow> bool \<Rightarrow> sys option" where
  "sys_click s i x y on_piece =
     (let c = cls s i;
          (b1, err) = button_click (board c) x y on_piece
      in case cell_click (board c) x y of
           None \<Rightarrow> None
         | Some (Inl e) \<Rightarrow> Some (s\<lparr>cls := (cls s)(i := c\<lparr>board := b1\<rparr>)\<rparr>)
         | Some (Inr acts) \<Rightarrow>
             (case exec_actions (st s) (c\<lparr>board := b1\<rparr>) (sync_part acts) of
                (st', c') \<Rightarrow>
                  Some \<lparr>st = st', cls = (cls s)(i := c'),
                        susp = (susp s)(i := susp s i @ cont (drop (length (sync_part acts)) acts))\<rparr>))"

definition sys_resume :: "sys \<Rightarrow> nat \<Rightarrow> nat \<Rightarrow> sys option" where
  "sys_resume s i j =
     (if j < length (susp s i) then
        (let acts = susp s i ! j
         in case exec_actions (st s) (cls s i) (sync_part acts) of
              (st', c') \<Rightarrow>
                Some \<lparr>st = st', cls = (cls s)(i := c'),
                      susp = (susp s)(i := take j (susp s i) @
                                           cont (drop (length (sync_part acts)) acts) @
                                           drop (Suc j) (susp s i))\<rparr>)
      else None)"

definition sys_deliver :: "sys \<Rightarrow> nat \<Rightarrow> string \<Rightarrow> sys option" where
  "sys_deliver s i r =
     (if r \<in> set (subscriptions (cls s i))
      then Some (s\<lparr>cls := (cls s)(i := on_snapshot (cls s i) (st s r))\<rparr>)
      else None)"

definition sys_lobby :: "sys \<Rightarrow> nat \<Rightarrow> string option \<Rightarrow> sys" where
  "sys_lobby s i l = s\<lparr>cls := (cls s)(i := set_lobby (cls s i) l)\<rparr>"

inductive sys_step :: "sys \<Rightarrow> sys \<Rightarrow> bool" where
  click: "on_board (mk_pos x y) \<Longrightarrow> sys_click s i x y on_piece = Some s' \<Longrightarrow> sys_step s s'"
| resume: "sys_resume s i j = Some s' \<Longrightarrow> sys_step s s'"
| deliver: "sys_deliver s i r = Some s' \<Longrightarrow> sys_step s s'"
| lobby: "sys_step s (sys_lobby s i l)"

inductive_cases sys_stepE: "sys_step s s'"

text \<open>A schedule: the events of a run, each naming the choice the relation makes.\<close>

datatype sys_event =
    EvClick nat int int bool
  | EvResume nat nat
  | EvDeliver nat string
  | EvLobby nat "string option"

fun sys_do :: "sys \<Rightarrow> sys_event \<Rightarrow> sys option" where
  "sys_do s (EvClick i x y on_piece) =
     (if on_board (mk_pos x y) then sys_click s i x y on_piece else None)"
| "sys_do s (EvResume i j) = sys_resume s i j"
| "sys_do s (EvDeliver i r) = sys_deliver s i r"
| "sys_do s (EvLobby i l) = Some (sys_lobby s i l)"

fun sys_run :: "sys \<Rightarrow> sys_event list \<Rightarrow> sys option" where
  "sys_run s [] = Some s"
| "sys_run s (e # es) = Option.bind (sys_do s e) (\<lambda>s'. sys_run s' es)"

text \<open>
  The coordinates the shared state can hold: every position on a board or in a room
  document is a square of the 8x8 grid or the capture sentinel, every pending effect
  writes such a position, and every highlighted square is on the grid.
\<close>

definition coord_ok :: "PiecePosition \<Rightarrow> bool" where
  "coord_ok p \<longleftrightarrow> on_board p \<or> p = sentinel"

definition coords_ok :: "board_obj \<Rightarrow> bool" where
  "coords_ok m \<longleftrightarrow> list_all (\<lambda>(_, p). coord_ok p) m"

fun act_coord_ok :: "action \<Rightarrow> bool" where
  "act_coord_ok (SetPiece _ p) = coord_ok p"
| "act_coord_ok (UpdateDb _ p) = coord_ok p"
| "act_coord_ok _ = True"

definition docs_coords :: "store \<Rightarrow> bool" where
  "docs_coords sto \<longleftrightarrow> (\<forall>r d. sto r = Some d \<longrightarrow> coords_ok (positions_of d))"

definition client_coords :: "client \<Rightarrow> bool" where
  "client_coords c \<longleftrightarrow> coords_ok (piecePositions (board c)) \<and> moves_on_board (board c)"

definition sys_coords :: "sys \<Rightarrow> bool" where
  "sys_coords s \<longleftrightarrow>
     docs_coords (st s) \<and> (\<forall>i. client_coords (cls s i) \<and> list_all (list_all act_coord_ok) (susp s i))"

subsection \<open>Lemmas\<close>

lemma button_click_positions [simp]:
  "piecePositions (fst (button_click b x y p)) = piecePositions b"
  by (auto simp: button_click_def handlePieceClick_def Let_def
      split: option.splits list.splits prod.splits)

text \<open>The two shapes of a click that is a step: the handler threw, or it ran to its first \<open>await\<close>.\<close>

lemma sys_click_SomeE:
  assumes "sys_click s i x y on_piece = Some s'"
  obtains (thrown) b1 err e where "button_click (board (cls s i)) x y on_piece = (b1, err)"
      "cell_click (board (cls s i)) x y = Some (Inl e)"
      "s' = s\<lparr>cls := (cls s)(i := (cls s i)\<lparr>board := b1\<rparr>)\<rparr>"
  | (run) b1 err acts st' c' where "button_click (board (cls s i)) x y on_piece = (b1, err)"
      "cell_click (board (cls s i)) x y = Some (Inr acts)"
      "exec_actions (st s) ((cls s i)\<lparr>board := b1\<rparr>) (sync_part acts) = (st', c')"
      "s' = \<lparr>st = st', cls = (cls s)(i := c'),
             susp = (susp s)(i := susp s i @ cont (drop (length (sync_part acts)) acts))\<rparr>"
proof -
  obtain b1 err where bc: "button_click (board (cls s i)) x y on_piece = (b1, err)" by fastforce
  obtain res where res: "cell_click (board (cls s i)) x y = Some res"
    using assms bc by (cases "cell_click (board (cls s i)) x y") (simp_all add: sys_click_def)
  show ?thesis
  proof (cases res)
    case (Inl e)
    then show ?thesis using that(1) [OF bc] assms bc res by (simp add: sys_click_def)
  next
    case (Inr acts)
    obtain st' c' where ex: "exec_actions (st s) ((cls s i)\<lparr>board := b1\<rparr>) (sync_part acts) = (st', c')"
      by fastforce
    then show ?thesis using that(2) [OF bc _ ex] assms bc res Inr by (simp add: sys_click_def)
  qed
qed

lemma sys_step_iff_event: "sys_step s s' \<longleftrightarrow> (\<exists>e. sys_do s e = Some s')"
proof
  assume "sys_step s s'"
  then show "\<exists>e. sys_do s e = Some s'"
  proof (cases rule: sys_step.cases)
    case (click x y i on_piece)
    then show ?thesis by (metis sys_do.simps(1))
  next
    case (resume i j)
    then show ?thesis by (metis sys_do.simps(2))
  next
    case (deliver i r)
    then show ?thesis by (metis sys_do.simps(3))
  next
    case (lobby i l)
    then show ?thesis by (metis sys_do.simps(4))
  qed
next
  assume "\<exists>e. sys_do s e = Some s'"
  then obtain e where "sys_do s e = Some s'" ..
  then show "sys_step s s'"
    by (cases e) (auto intro: sys_step.intros split: if_splits)
qed

lemma sys_run_reach: "sys_run s es = Some s' \<Longrightarrow> sys_step\<^sup>*\<^sup>* s s'"
proof (induction es arbitrary: s)
  case (Cons e es)
  then obtain s1 where "sys_do s e = Some s1" "sys_run s1 es = Some s'"
    by (auto split: Option.bind_splits)
  with Cons.IH show ?case
    by (meson converse_rtranclp_into_rtranclp sys_step_iff_event)
qed simp

lemma sys_run_the: "sys_run s es \<noteq> None \<Longrightarrow> sys_step\<^sup>*\<^sup>* s (the (sys_run s es))"
  by (auto intro: sys_run_reach)

lemma sys_click_the:
  "on_board (mk_pos x y) \<Longrightarrow> sys_click s i x y on_piece \<noteq> None \<Longrightarrow>
     sys_step s (the (sys_click s i x y on_piece))"
  by (auto intro: sys_step.click)

lemma sys_click_hangs:
  "cell_click (board (cls s i)) x y = None \<Longrightarrow> sys_click s i x y on_piece = None"
  by (simp add: sys_click_def Let_def split: prod.split)

text \<open>
  A click on the square the selected piece already stands on hangs when no piece lies
  in a column left of that square (the ray the diagonal loop walks).
\<close>

lemma cell_click_same_square_hangs:
  assumes "selectedPiece b = Some k" "k \<noteq> []" "map_of (piecePositions b) k = Some p"
    and "isHighlighted b (pos_x p) (pos_y p)"
    and "list_all (\<lambda>(_, q). pos_y p \<le> pos_y q) (piecePositions b)"
  shows "cell_click b (pos_x p) (pos_y p) = None"
proof -
  have "\<forall>i::nat. \<not> occupied (piecePositions b) (pos_x p - 1 - int i) (pos_y p - 1 - int i)"
    using assms(5) by (fastforce simp: occupied_def list_ex_iff list_all_iff)
  then show ?thesis
    using assms(1-4) by (simp add: cell_click_def handleMove_def isPathBlocked_same_square_eq)
qed

text \<open>
  The invariant rule of the step relation: a predicate of the initial state that every
  step preserves holds in every reachable state.
\<close>

lemma sys_invariant_rule [consumes 1, case_names init step]:
  assumes "sys_step\<^sup>*\<^sup>* s0 s" and "I s0"
    and "\<And>s s'. sys_step s s' \<Longrightarrow> I s \<Longrightarrow> I s'"
  shows "I s"
  using assms(1,2) by (induction rule: rtranclp_induct) (auto intro: assms(3))

lemma exec_commit:
  assumes "lobbyName c = Some r" "r \<noteq> []" "sto r = Some d"
  shows "exec_actions sto c [SetPiece k p, UpdateDb k p] =
           (sto(r \<mapsto> d\<lparr>playerPosition := Some (obj_set (positions_of d) k p)\<rparr>),
            c\<lparr>board := (board c)\<lparr>piecePositions := obj_set (piecePositions (board c)) k p\<rparr>\<rparr>)"
  using assms by (simp add: updatePositionInDatabase_def)

lemma exec_capture:
  assumes "lobbyName c = Some r" "r \<noteq> []" "sto r = Some d"
  shows "exec_actions sto c [PlayCaptureSound, DeletePiece k, UpdateDb k sentinel] =
           (sto(r \<mapsto> d\<lparr>playerPosition := Some (obj_set (positions_of d) k sentinel)\<rparr>),
            c\<lparr>board := (board c)\<lparr>piecePositions := obj_delete (piecePositions (board c)) k\<rparr>\<rparr>)"
  using assms by (simp add: updatePositionInDatabase_def)

lemma cell_click_Inr_cases:
  assumes "cell_click b x y = Some (Inr acts)"
  obtains "acts = []"
  | "acts = [Toast ''Move blocked by another piece'']"
  | sel where "acts = [SetPiece sel (mk_pos x y), UpdateDb sel (mk_pos x y), ClearMoves]"
  | sel c where "acts = [PlayCaptureSound, DeletePiece c, UpdateDb c sentinel,
                         SetPiece sel (mk_pos x y), UpdateDb sel (mk_pos x y), ClearMoves]"
proof (cases "isHighlighted b x y")
  case True
  with assms have "handleMove b (mk_pos x y) = Some (Inr acts)" by (simp add: cell_click_def)
  then show ?thesis by (rule handleMove_Inr_cases) (use that in blast)+
next
  case False
  with assms that show ?thesis by (simp add: cell_click_def)
qed

subsection \<open>Coordinates\<close>

lemma list_all_take: "list_all P xs \<Longrightarrow> list_all P (take j xs)"
  by (auto simp: list_all_iff dest: in_set_takeD)

lemma list_all_drop: "list_all P xs \<Longrightarrow> list_all P (drop j xs)"
  by (auto simp: list_all_iff dest: in_set_dropD)

lemma exec_action_coords:
  assumes "docs_coords sto" "client_coords c" "act_coord_ok a"
    and "exec_action (sto, c) a = (sto', c')"
  shows "docs_coords sto' \<and> client_coords c'"
proof (cases a)
  case (UpdateDb k p)
  then show ?thesis
    using assms
    by (auto simp: updatePositionInDatabase_def client_coords_def docs_coords_def coords_ok_def
        positions_of_def intro!: list_all_obj_set split: option.splits if_splits)
next
  case (SetPiece k p)
  then show ?thesis
    using assms by (auto simp: client_coords_def coords_ok_def moves_on_board_def
        intro!: list_all_obj_set)
next
  case (DeletePiece k)
  then show ?thesis
    using assms by (auto simp: client_coords_def coords_ok_def moves_on_board_def
        intro!: list_all_obj_delete)
qed (use assms in \<open>auto simp: client_coords_def moves_on_board_def\<close>)

lemma exec_actions_coords:
  "docs_coords sto \<Longrightarrow> client_coords c \<Longrightarrow> list_all act_coord_ok acts \<Longrightarrow>
     exec_actions sto c acts = (sto', c') \<Longrightarrow> docs_coords sto' \<and> client_coords c'"
proof (induction acts arbitrary: sto c)
  case (Cons a acts)
  obtain sto1 c1 where a: "exec_action (sto, c) a = (sto1, c1)" by fastforce
  with Cons.prems have ok: "docs_coords sto1 \<and> client_coords c1"
    by (auto dest: exec_action_coords)
  from Cons.prems(4) a have "exec_actions sto1 c1 acts = (sto', c')" by simp
  with ok Cons.prems(3) Cons.IH [of sto1 c1] show ?case by simp
qed simp

lemma list_all_sync_part: "list_all P acts \<Longrightarrow> list_all P (sync_part acts)"
  by (induction acts rule: sync_part.induct) auto

lemma button_click_coords:
  "client_coords c \<Longrightarrow> client_coords (c\<lparr>board := fst (button_click (board c) x y on_piece)\<rparr>)"
  by (auto simp: client_coords_def coords_ok_def moves_on_board_def button_click_def
      handlePieceClick_def Let_def candidate_moves_def list_all_iff
      split: option.splits list.splits prod.splits)

lemma cell_click_coords:
  assumes "on_board (mk_pos x y)" "cell_click b x y = Some (Inr acts)"
  shows "list_all act_coord_ok acts"
  using assms(2) by (cases rule: cell_click_Inr_cases) (use assms(1) in \<open>simp_all add: coord_ok_def\<close>)

lemma sys_click_coords:
  assumes "on_board (mk_pos x y)" "sys_click s i x y on_piece = Some s'" "sys_coords s"
  shows "sys_coords s'"
  using assms(2)
proof (cases rule: sys_click_SomeE)
  case (thrown b1 err e)
  then show ?thesis
    using assms(3) button_click_coords [of "cls s i" x y on_piece] by (auto simp: sys_coords_def)
next
  case (run b1 err acts st' c')
  have acts: "list_all act_coord_ok acts" using cell_click_coords assms(1) run(2) by blast
  have "client_coords ((cls s i)\<lparr>board := b1\<rparr>)"
    using assms(3) run(1) button_click_coords [of "cls s i" x y on_piece] by (simp add: sys_coords_def)
  then have "docs_coords st' \<and> client_coords c'"
    using exec_actions_coords [OF _ _ list_all_sync_part [OF acts] run(3)] assms(3)
    by (simp add: sys_coords_def)
  then show ?thesis
    using run(4) assms(3) list_all_drop [OF acts, of "length (sync_part acts)"]
    by (auto simp: sys_coords_def cont_def)
qed

lemma sys_resume_coords:
  assumes "sys_resume s i j = Some s'" "sys_coords s"
  shows "sys_coords s'"
proof -
  have j: "j < length (susp s i)" using assms(1) by (simp add: sys_resume_def split: if_splits)
  have all: "list_all (list_all act_coord_ok) (susp s i)" using assms(2) by (simp add: sys_coords_def)
  then have acts: "list_all act_coord_ok (susp s i ! j)" using j by (simp add: list_all_length)
  obtain st' c' where ex: "exec_actions (st s) (cls s i) (sync_part (susp s i ! j)) = (st', c')"
    by fastforce
  have "docs_coords st' \<and> client_coords c'"
    using exec_actions_coords [OF _ _ list_all_sync_part [OF acts] ex] assms(2)
    by (simp add: sys_coords_def)
  then show ?thesis
    using assms ex list_all_take [OF all, of j] list_all_drop [OF all, of "Suc j"]
      list_all_drop [OF acts, of "length (sync_part (susp s i ! j))"]
    by (auto simp: sys_resume_def sys_coords_def Let_def cont_def split: if_splits)
qed

lemma sys_step_coords:
  assumes "sys_step s s'" "sys_coords s"
  shows "sys_coords s'"
  using assms(1)
proof (cases rule: sys_step.cases)
  case (click x y i on_piece)
  then show ?thesis using sys_click_coords assms(2) by blast
next
  case (resume i j)
  then show ?thesis using sys_resume_coords assms(2) by blast
next
  case (deliver i r)
  have "client_coords (on_snapshot (cls s i) (st s r))"
    using assms(2)
    by (auto simp: sys_coords_def client_coords_def docs_coords_def coords_ok_def
        moves_on_board_def on_snapshot_def intro!: list_all_obj_spread split: option.split)
  then show ?thesis
    using deliver assms(2) by (auto simp: sys_deliver_def sys_coords_def split: if_splits)
next
  case (lobby i l)
  then show ?thesis
    using assms(2)
    by (simp add: sys_lobby_def sys_coords_def client_coords_def set_lobby_def
        subscribe_effect_def unsubscribe_effect_def split: option.splits)
qed

subsection \<open>Properties\<close>

text \<open>
  C15: every coordinate the shared state takes is a square of the board or the capture
  sentinel. In every state reachable from browsers mounted on a room whose documents
  hold such coordinates, under any interleaving, every board and every room document
  holds only squares of the 8x8 grid or the sentinel (-1,-1), every suspended effect
  writes such a position, and every highlighted square is on the grid.
\<close>

theorem sys_reachable_coords:
  assumes "docs_coords st0" "sys_step\<^sup>*\<^sup>* (sys_init st0 r) s"
  shows "sys_coords s"
  using assms(2)
proof (induction rule: sys_invariant_rule)
  case init
  then show ?case
    using assms(1)
    by (simp add: sys_coords_def sys_init_def client_coords_def subscribe_effect_def
        initial_client_def initial_board_def moves_on_board_def coords_ok_def coord_ok_def
        initialPositions_def on_board_def split: option.split)
next
  case (step s s')
  then show ?case using sys_step_coords by blast
qed

theorem sys_reachable_coords_witness:
  "sys_coords (sys_init [''room'' \<mapsto> room_seed] ''room'')"
  by (rule sys_reachable_coords [of "[''room'' \<mapsto> room_seed]" "''room''"])
    (simp_all add: docs_coords_def room_seed_def positions_of_def coords_ok_def coord_ok_def
      on_board_def)

end
