(* ===== verification/Convergence.thy ===== *)
theory Convergence
  imports System
begin

text \<open>
  Convergence of the browsers of one room (\<open>System\<close>). While no browser changes its
  room, the invariant \<open>conv_inv\<close> holds along every schedule: every key the room
  document lacks is at its initial square on every board, because each local change of
  a position is pushed in the same synchronous run of \<open>handleMove\<close>; so a delivery
  leaves each board equal to the initial board overwritten by the document.
\<close>

text \<open>
  The invariant behind convergence, for browsers that stay in the room \<open>r\<close>: the room
  document exists and is well formed, every key it does not hold is still at its
  initial square on every board (each local change of a position is pushed in the same
  synchronous run), and every suspended continuation of \<open>handleMove\<close> is the mover's
  commit or the final reset of the highlights.
\<close>

fun cont_ok :: "action list \<Rightarrow> bool" where
  "cont_ok [ClearMoves] = True"
| "cont_ok [SetPiece k p, UpdateDb k' p', ClearMoves] = (k = k' \<and> p = p')"
| "cont_ok _ = False"

fun no_lobby :: "sys_event \<Rightarrow> bool" where
  "no_lobby (EvLobby _ _) = False"
| "no_lobby _ = True"

definition conv_inv :: "string \<Rightarrow> sys \<Rightarrow> bool" where
  "conv_inv r s \<longleftrightarrow>
     (case st s r of
        None \<Rightarrow> False
      | Some d \<Rightarrow>
          obj_wf (positions_of d) \<and>
          (\<forall>i. lobbyName (cls s i) = Some r \<and> subscriptions (cls s i) = [r] \<and>
               (\<forall>k. k \<notin> obj_keys (positions_of d) \<longrightarrow>
                    map_of (piecePositions (board (cls s i))) k = map_of initialPositions k) \<and>
               list_all cont_ok (susp s i)))"

subsection \<open>Lemmas\<close>

lemma conv_inv_update:
  assumes inv: "conv_inv r s" and d: "st s r = Some d"
    and d': "st s' r = Some d'" "obj_wf (positions_of d')"
    and keys: "obj_keys (positions_of d) \<subseteq> obj_keys (positions_of d')"
    and c': "lobbyName c' = Some r" "subscriptions c' = [r]"
    and bd: "\<forall>k. k \<notin> obj_keys (positions_of d') \<longrightarrow>
               map_of (piecePositions (board c')) k = map_of (piecePositions (board (cls s i))) k"
    and cs: "list_all cont_ok cs"
    and s': "cls s' = (cls s)(i := c')" "susp s' = (susp s)(i := cs)"
  shows "conv_inv r s'"
  using inv d d' keys c' bd cs s' unfolding conv_inv_def by auto

lemma conv_inv_keep:
  assumes inv: "conv_inv r s" and st: "st s' = st s"
    and c': "lobbyName c' = Some r" "subscriptions c' = [r]"
    "piecePositions (board c') = piecePositions (board (cls s i))"
    and cs: "list_all cont_ok cs"
    and s': "cls s' = (cls s)(i := c')" "susp s' = (susp s)(i := cs)"
  shows "conv_inv r s'"
proof -
  obtain d where d: "st s r = Some d" using inv by (auto simp: conv_inv_def split: option.splits)
  have wf: "obj_wf (positions_of d)" using inv d by (simp add: conv_inv_def)
  have d': "st s' r = Some d" using st d by simp
  show ?thesis
    by (rule conv_inv_update [OF inv d d' wf subset_refl c'(1,2) _ cs s']) (simp add: c'(3))
qed

lemma conv_inv_write:
  assumes inv: "conv_inv r s" and d: "st s r = Some d"
    and st: "st s' = (st s)(r \<mapsto> d\<lparr>playerPosition := Some (obj_set (positions_of d) k v)\<rparr>)"
    and c': "lobbyName c' = Some r" "subscriptions c' = [r]"
    "\<forall>k'. k' \<noteq> k \<longrightarrow>
        map_of (piecePositions (board c')) k' = map_of (piecePositions (board (cls s i))) k'"
    and cs: "list_all cont_ok cs"
    and s': "cls s' = (cls s)(i := c')" "susp s' = (susp s)(i := cs)"
  shows "conv_inv r s'"
proof -
  let ?d' = "d\<lparr>playerPosition := Some (obj_set (positions_of d) k v)\<rparr>"
  have "obj_wf (positions_of d)" using inv d by (simp add: conv_inv_def)
  then have wf: "obj_wf (positions_of ?d')" by (simp add: positions_of_def obj_wf_set)
  have d': "st s' r = Some ?d'" using st by simp
  have keys: "obj_keys (positions_of d) \<subseteq> obj_keys (positions_of ?d')"
    by (auto simp: positions_of_def obj_keys_set)
  have bd: "\<forall>k'. k' \<notin> obj_keys (positions_of ?d') \<longrightarrow>
      map_of (piecePositions (board c')) k' = map_of (piecePositions (board (cls s i))) k'"
    using c'(3) by (simp add: positions_of_def obj_keys_set)
  show ?thesis by (rule conv_inv_update [OF inv d d' wf keys c'(1,2) bd cs s'])
qed

lemma conv_deliver:
  assumes inv: "conv_inv r s" and dl: "sys_deliver s i r' = Some s'"
  shows "conv_inv r s'"
proof -
  obtain d where d: "st s r = Some d" and wf: "obj_wf (positions_of d)"
    using inv by (auto simp: conv_inv_def split: option.splits)
  have "subscriptions (cls s i) = [r]" using inv d by (simp add: conv_inv_def)
  then have r': "r' = r" using dl by (simp add: sys_deliver_def split: if_splits)
  have "\<forall>k. k \<notin> obj_keys (positions_of d) \<longrightarrow>
          map_of (obj_spread (piecePositions (board (cls s i))) (positions_of d)) k =
          map_of (piecePositions (board (cls s i))) k"
    by (auto simp: map_of_obj_spread [OF wf] map_add_def obj_keys_def split: option.split
        intro: rev_image_eqI dest: map_of_SomeD)
  then have bd: "\<forall>k. k \<notin> obj_keys (positions_of d) \<longrightarrow>
      map_of (piecePositions (board (on_snapshot (cls s i) (st s r)))) k =
      map_of (piecePositions (board (cls s i))) k"
    using d by simp
  have l: "lobbyName (on_snapshot (cls s i) (st s r)) = Some r"
    "subscriptions (on_snapshot (cls s i) (st s r)) = [r]"
    using inv d by (simp_all add: conv_inv_def on_snapshot_def)
  have st': "st s' r = Some d" and cl: "cls s' = (cls s)(i := on_snapshot (cls s i) (st s r))"
    and sp: "susp s' = (susp s)(i := susp s i)"
    using dl r' d by (auto simp: sys_deliver_def split: if_splits)
  have cs: "list_all cont_ok (susp s i)" using inv d by (simp add: conv_inv_def)
  show ?thesis by (rule conv_inv_update [OF inv d st' wf subset_refl l bd cs cl sp])
qed

lemma conv_click:
  assumes inv: "conv_inv r s" and r: "r \<noteq> []" and cl: "sys_click s i x y on_piece = Some s'"
  shows "conv_inv r s'"
proof -
  obtain d where d: "st s r = Some d" using inv by (auto simp: conv_inv_def split: option.splits)
  let ?c = "cls s i"
  have lob: "lobbyName ?c = Some r" "subscriptions ?c = [r]" and cs0: "list_all cont_ok (susp s i)"
    using inv d by (simp_all add: conv_inv_def)
  from cl show ?thesis
  proof (cases rule: sys_click_SomeE)
    case (thrown b1 err e)
    have pp1: "piecePositions b1 = piecePositions (board ?c)"
      using button_click_positions [of "board ?c" x y on_piece] thrown(1) by simp
    show ?thesis
      by (rule conv_inv_keep [where i = i and c' = "?c\<lparr>board := b1\<rparr>", OF inv _ _ _ _ cs0])
         (simp_all add: thrown(3) pp1 lob)
  next
    case (run b1 err acts st' c')
    have pp1: "piecePositions b1 = piecePositions (board ?c)"
      using button_click_positions [of "board ?c" x y on_piece] run(1) by simp
    let ?c1 = "?c\<lparr>board := b1\<rparr>"
    have lob1: "lobbyName ?c1 = Some r" using lob by simp
    from run(2) show ?thesis
    proof (cases rule: cell_click_Inr_cases)
      case 1
      show ?thesis
        by (rule conv_inv_keep [where i = i and c' = c', OF inv _ _ _ _ cs0])
           (use run 1 in \<open>auto simp: pp1 lob cont_def\<close>)
    next
      case 2
      show ?thesis
        by (rule conv_inv_keep [where i = i and c' = c', OF inv _ _ _ _ cs0])
           (use run 2 in \<open>auto simp: pp1 lob cont_def\<close>)
    next
      case (3 sel)
      have e: "st s' = (st s)(r \<mapsto> d\<lparr>playerPosition := Some (obj_set (positions_of d) sel (mk_pos x y))\<rparr>)"
        "cls s' = (cls s)(i := ?c1\<lparr>board := b1\<lparr>piecePositions := obj_set (piecePositions b1) sel (mk_pos x y)\<rparr>\<rparr>)"
        "susp s' = (susp s)(i := susp s i @ [[ClearMoves]])"
        using run 3 exec_commit [where c = ?c1 and sto = "st s" and k = sel and p = "mk_pos x y", OF lob1 r d]
        by (simp_all add: cont_def)
      show ?thesis
        by (rule conv_inv_write [OF inv d e(1) _ _ _ _ e(2,3)]) (simp_all add: pp1 lob cs0 map_of_obj_set)
    next
      case (4 sel k)
      have e: "st s' = (st s)(r \<mapsto> d\<lparr>playerPosition := Some (obj_set (positions_of d) k sentinel)\<rparr>)"
        "cls s' = (cls s)(i := ?c1\<lparr>board := b1\<lparr>piecePositions := obj_delete (piecePositions b1) k\<rparr>\<rparr>)"
        "susp s' = (susp s)(i := susp s i @ [[SetPiece sel (mk_pos x y), UpdateDb sel (mk_pos x y), ClearMoves]])"
        using run 4 exec_capture [where c = ?c1 and sto = "st s" and k = k, OF lob1 r d]
        by (simp_all add: cont_def)
      show ?thesis
        by (rule conv_inv_write [OF inv d e(1) _ _ _ _ e(2,3)]) (simp_all add: pp1 lob cs0 map_of_obj_delete)
    qed
  qed
qed

lemma cont_ok_cases:
  assumes "cont_ok acts"
  obtains "acts = [ClearMoves]" | k p where "acts = [SetPiece k p, UpdateDb k p, ClearMoves]"
  using assms by (cases acts rule: cont_ok.cases) auto

lemma conv_resume:
  assumes inv: "conv_inv r s" and r: "r \<noteq> []" and rs: "sys_resume s i j = Some s'"
  shows "conv_inv r s'"
proof -
  obtain d where d: "st s r = Some d" using inv by (auto simp: conv_inv_def split: option.splits)
  let ?c = "cls s i" and ?acts = "susp s i ! j"
  have lob: "lobbyName ?c = Some r" "subscriptions ?c = [r]" and cs0: "list_all cont_ok (susp s i)"
    using inv d by (simp_all add: conv_inv_def)
  have j: "j < length (susp s i)" using rs by (simp add: sys_resume_def split: if_splits)
  then have ok: "cont_ok ?acts" using cs0 by (simp add: list_all_length)
  have ex: "Some s' =
      (case exec_actions (st s) ?c (sync_part ?acts) of
         (st', c') \<Rightarrow> Some \<lparr>st = st', cls = (cls s)(i := c'),
                       susp = (susp s)(i := take j (susp s i) @
                                cont (drop (length (sync_part ?acts)) ?acts) @ drop (Suc j) (susp s i))\<rparr>)"
    using rs j by (simp add: sys_resume_def Let_def)
  from ok show ?thesis
  proof (cases rule: cont_ok_cases)
    case 1
    let ?c2 = "?c\<lparr>board := (board ?c)\<lparr>availableMoves := []\<rparr>\<rparr>"
    have e: "st s' = st s" "cls s' = (cls s)(i := ?c2)"
      "susp s' = (susp s)(i := take j (susp s i) @ [] @ drop (Suc j) (susp s i))"
      using ex 1 by (simp_all add: cont_def)
    show ?thesis
      by (rule conv_inv_keep [OF inv e(1) _ _ _ _ e(2,3)]) (simp_all add: lob list_all_take list_all_drop cs0)
  next
    case (2 k p)
    let ?c2 = "?c\<lparr>board := (board ?c)\<lparr>piecePositions := obj_set (piecePositions (board ?c)) k p\<rparr>\<rparr>"
    have e: "st s' = (st s)(r \<mapsto> d\<lparr>playerPosition := Some (obj_set (positions_of d) k p)\<rparr>)"
      "cls s' = (cls s)(i := ?c2)"
      "susp s' = (susp s)(i := take j (susp s i) @ [[ClearMoves]] @ drop (Suc j) (susp s i))"
      using ex 2 exec_commit [where c = ?c and sto = "st s" and k = k and p = p, OF lob(1) r d]
      by (simp_all add: cont_def)
    show ?thesis
      by (rule conv_inv_write [OF inv d e(1) _ _ _ _ e(2,3)])
        (simp_all add: lob list_all_take list_all_drop cs0 map_of_obj_set)
  qed
qed

lemma conv_step:
  "conv_inv r s \<Longrightarrow> r \<noteq> [] \<Longrightarrow> no_lobby e \<Longrightarrow> sys_do s e = Some s' \<Longrightarrow> conv_inv r s'"
  by (cases e) (auto intro: conv_click conv_resume conv_deliver split: if_splits)

lemma conv_run:
  "conv_inv r s \<Longrightarrow> r \<noteq> [] \<Longrightarrow> list_all no_lobby es \<Longrightarrow> sys_run s es = Some s' \<Longrightarrow>
     conv_inv r s'"
proof (induction es arbitrary: s)
  case (Cons e es)
  then obtain s1 where s1: "sys_do s e = Some s1" and rest: "sys_run s1 es = Some s'"
    by (auto split: Option.bind_splits)
  have "conv_inv r s1" using conv_step [OF Cons.prems(1,2) _ s1] Cons.prems(3) by simp
  then show ?case using Cons.IH Cons.prems(2,3) rest by simp
qed simp

lemma conv_init:
  assumes "r \<noteq> []" "sto r = Some d" "obj_wf (positions_of d)"
  shows "conv_inv r (sys_init sto r)"
  using assms by (simp add: conv_inv_def sys_init_def subscribe_effect_def initial_client_def
      initial_board_def)

subsection \<open>Properties\<close>

text \<open>
  C14: convergence. Browsers that stay in one room whose document exists, under any
  schedule of clicks, resumptions and deliveries, show after a delivery exactly the
  initial board overwritten by the room document: what a board shows then depends on
  the document alone, so any two browsers that have received the same document agree
  on every key, captured pieces (deleted on one board, the sentinel on the other)
  included.
\<close>

theorem delivered_board_is_doc_over_initial:
  assumes r: "r \<noteq> []" and d0: "st0 r = Some d0" "obj_wf (positions_of d0)"
    and es: "list_all no_lobby es" and run: "sys_run (sys_init st0 r) es = Some s"
    and dl: "sys_deliver s i r = Some s1" and d: "st s r = Some d"
  shows "map_of (piecePositions (board (cls s1 i))) =
           map_of initialPositions ++ map_of (positions_of d)"
proof -
  have inv: "conv_inv r s"
    by (rule conv_run [OF conv_init [where sto = st0 and d = d0, OF r d0] r es run])
  then have wf: "obj_wf (positions_of d)"
    and ini: "\<forall>k. k \<notin> obj_keys (positions_of d) \<longrightarrow>
               map_of (piecePositions (board (cls s i))) k = map_of initialPositions k"
    using d by (simp_all add: conv_inv_def)
  have "cls s1 i = on_snapshot (cls s i) (Some d)"
    using dl d by (auto simp: sys_deliver_def split: if_splits)
  moreover have "(map_of (piecePositions (board (cls s i))) ++ map_of (positions_of d)) k =
      (map_of initialPositions ++ map_of (positions_of d)) k" for k
  proof (cases "map_of (positions_of d) k")
    case None
    then have "k \<notin> obj_keys (positions_of d)" by (simp add: obj_keys_def map_of_eq_None_iff)
    with ini None show ?thesis by (simp add: map_add_def)
  qed (simp add: map_add_def)
  ultimately show ?thesis by (simp add: map_of_obj_spread [OF wf] fun_eq_iff)
qed

theorem delivered_board_is_doc_over_initial_witness:
  "map_of (piecePositions (board (cls (the (sys_deliver (the (sys_run
       (sys_init [''room'' \<mapsto> room_seed] ''room'') [EvClick 0 7 1 True, EvClick 0 5 2 False]))
       1 ''room'')) 1))) =
   map_of initialPositions ++ map_of (positions_of (the (st (the (sys_run
       (sys_init [''room'' \<mapsto> room_seed] ''room'') [EvClick 0 7 1 True, EvClick 0 5 2 False]))
       ''room'')))"
proof -
  let ?init = "sys_init [''room'' \<mapsto> room_seed] ''room''"
  let ?es = "[EvClick 0 7 1 True, EvClick 0 5 2 False]"
  let ?s = "the (sys_run ?init ?es)"
  have "sys_run ?init ?es \<noteq> None" by code_simp
  then have run: "sys_run ?init ?es = Some ?s" by simp
  have "sys_deliver ?s 1 ''room'' \<noteq> None" by code_simp
  then have dl: "sys_deliver ?s 1 ''room'' = Some (the (sys_deliver ?s 1 ''room''))" by simp
  have "st ?s ''room'' \<noteq> None" by code_simp
  then have d: "st ?s ''room'' = Some (the (st ?s ''room''))" by simp
  have wf: "obj_wf (positions_of room_seed)"
    by (simp add: room_seed_def positions_of_def obj_wf_def)
  show ?thesis
    by (rule delivered_board_is_doc_over_initial [OF _ _ wf _ run dl d]) simp_all
qed

end
