(* ===== verification/Lobby.thy ===== *)
theory Lobby
  imports Sync
begin

text \<open>
  The lobby (\<^verbatim>\<open>src/src/room.tsx\<close>): creating a room and joining one. A room is a
  document \<open>groups/<name>\<close> holding its name, its password (stored in the clear in
  the field \<open>passwordHash\<close>) and the ids of its members, beside the board document
  \<open>(<name>, 'data')\<close> of \<open>Sync\<close>. Several browsers share the store; each is a
  \<open>lobby_client\<close> with the signed-in user's id (\<open>None\<close> when signed out), the room
  name it passes up to the board (\<open>setRoomName\<close>, which \<open>Lobby\<close> forwards to
  \<open>setLobbyName\<close> on every render), its toasts and the listeners its join dialog has
  registered.
  \<^item> \<open>createRoom\<close> (lines 67--98) writes both documents with \<open>setDoc\<close>, which
    overwrites whatever was there;
  \<^item> \<open>joinRoom\<close> (lines 156--192) only registers a listener on \<open>groups/<name>\<close>,
    capturing the name and password typed; the listener is never removed;
  \<^item> \<open>join_callback\<close> (lines 161--188) is that listener, run on the snapshot of the
    room document each time the store delivers one; on the join path it calls
  \<^item> \<open>addUserToGroup\<close> (lines 194--207), whose \<open>updateDoc\<close> with \<open>arrayUnion\<close> is not
    awaited: the write is queued in the store's \<open>pending\<close> list and applied later by
    a \<open>Flush\<close> step, while the toast 'Room Joined' is shown at once.
  \<open>lobby_step\<close> is one event of the shared system (a dialog submitted, a snapshot
  delivered to one listener, the oldest pending write applied); a run is a list of
  events, so interleavings of two browsers are explicit.
\<close>

record Group =
  gid :: string
  gname :: string
  passwordHash :: string
  users :: "string list"

record lobby_client =
  uid :: "string option"
  roomName :: string
  ltoasts :: "string list"
  listeners :: "(string \<times> string) list"

record lobby_world =
  groups :: "string \<Rightarrow> Group option"
  datas :: store
  pending :: "(string \<times> string) list"
  lclients :: "nat \<Rightarrow> lobby_client"

text \<open>Firestore's \<open>arrayUnion\<close>: append each element not already present.\<close>

definition array_union :: "'a list \<Rightarrow> 'a list \<Rightarrow> 'a list" where
  "array_union xs ys = fold (\<lambda>y acc. if y \<in> set acc then acc else acc @ [y]) ys xs"

text \<open>
  \<open>createRoom\<close>: empty fields return early; \<open>user!.id\<close> is read while building
  \<open>groupData\<close>, before the \<open>try\<close>, so without a user the handler rejects with a
  \<open>TypeError\<close> and nothing is written. The store always accepts the two \<open>setDoc\<close>s,
  so the \<open>catch\<close> branch is not reached in the model.
\<close>

definition createRoom ::
  "lobby_world \<Rightarrow> lobby_client \<Rightarrow> string \<Rightarrow> string \<Rightarrow> js_error + lobby_world \<times> lobby_client" where
  "createRoom w c name password =
     (if name = [] then Inr (w, c)
      else if password = [] then Inr (w, c)
      else case uid c of
        None \<Rightarrow> Inl TypeError
      | Some u \<Rightarrow>
          Inr (w\<lparr>groups := (groups w)(name \<mapsto>
                   \<lparr>gid = name, gname = name, passwordHash = password, users = [u]\<rparr>),
                 datas := (datas w)(name \<mapsto> room_seed)\<rparr>,
               c\<lparr>roomName := name, ltoasts := ltoasts c @ [''Group Created'']\<rparr>))"

text \<open>
  \<open>joinRoom\<close>: \<open>doc(data, 'groups', '')\<close> throws inside the \<open>try\<close>, so an empty name
  registers nothing; otherwise one listener, capturing the name and password typed.
\<close>

definition joinRoom :: "lobby_client \<Rightarrow> string \<Rightarrow> string \<Rightarrow> lobby_client" where
  "joinRoom c name password =
     (if name = [] then c else c\<lparr>listeners := listeners c @ [(name, password)]\<rparr>)"

text \<open>
  \<open>addUserToGroup\<close>: without a user \<open>user!.id\<close> throws inside the \<open>try\<close> and the
  \<open>catch\<close> shows 'Something went wrong'; otherwise the write is issued (not awaited)
  and the room name and the success toast are set at once.
\<close>

definition addUserToGroup ::
  "lobby_client \<Rightarrow> string \<Rightarrow> lobby_client \<times> (string \<times> string) list" where
  "addUserToGroup c name =
     (case uid c of
        None \<Rightarrow> (c\<lparr>ltoasts := ltoasts c @ [''Something went wrong'']\<rparr>, [])
      | Some u \<Rightarrow> (c\<lparr>roomName := name, ltoasts := ltoasts c @ [''Room Joined'']\<rparr>, [(name, u)]))"

definition join_callback ::
  "lobby_client \<Rightarrow> string \<times> string \<Rightarrow> Group option \<Rightarrow> lobby_client \<times> (string \<times> string) list" where
  "join_callback c lst groupSnap =
     (case lst of (name, password) \<Rightarrow>
      case groupSnap of
        None \<Rightarrow> (c\<lparr>ltoasts := ltoasts c @ [''Invalid group name or password'']\<rparr>, [])
      | Some grp \<Rightarrow>
          if passwordHash grp \<noteq> password then
            (c\<lparr>ltoasts := ltoasts c @ [''Invalid group name or password'']\<rparr>, [])
          else if (case uid c of None \<Rightarrow> False | Some u \<Rightarrow> u \<in> set (users grp)) then
            (c\<lparr>roomName := name, ltoasts := ltoasts c @ [''Reconnected'']\<rparr>, [])
          else if length (users grp) = 2 then
            (c\<lparr>ltoasts := ltoasts c @ [''Room is packed'']\<rparr>, [])
          else addUserToGroup c name)"

text \<open>
  A queued \<open>updateDoc\<close> reaching the store: \<open>arrayUnion\<close> on the members of the room
  as they are now; it rejects, unobserved, when the document has gone.
\<close>

definition apply_union :: "lobby_world \<Rightarrow> string \<times> string \<Rightarrow> lobby_world" where
  "apply_union w wr =
     (case wr of (name, u) \<Rightarrow>
      case groups w name of
        None \<Rightarrow> w
      | Some g \<Rightarrow> w\<lparr>groups := (groups w)(name \<mapsto> g\<lparr>users := array_union (users g) [u]\<rparr>)\<rparr>)"

datatype lobby_event =
    Create nat string string
  | Join nat string string
  | Deliver nat nat
  | Flush

fun lobby_step :: "lobby_world \<Rightarrow> lobby_event \<Rightarrow> lobby_world" where
  "lobby_step w (Create i name password) =
     (case createRoom w (lclients w i) name password of
        Inl _ \<Rightarrow> w
      | Inr (w', c') \<Rightarrow> w'\<lparr>lclients := (lclients w')(i := c')\<rparr>)"
| "lobby_step w (Join i name password) =
     w\<lparr>lclients := (lclients w)(i := joinRoom (lclients w i) name password)\<rparr>"
| "lobby_step w (Deliver i j) =
     (let c = lclients w i in
      if j < length (listeners c) then
        (case join_callback c (listeners c ! j) (groups w (fst (listeners c ! j))) of
           (c', ws) \<Rightarrow> w\<lparr>lclients := (lclients w)(i := c'), pending := pending w @ ws\<rparr>)
      else w)"
| "lobby_step w Flush =
     (case pending w of
        [] \<Rightarrow> w
      | wr # rest \<Rightarrow> apply_union (w\<lparr>pending := rest\<rparr>) wr)"

definition lobby_run :: "lobby_world \<Rightarrow> lobby_event list \<Rightarrow> lobby_world" where
  "lobby_run w es = fold (\<lambda>e w. lobby_step w e) es w"

text \<open>
  The same system with every write awaited: after each event the queued writes are
  applied before anything else happens, as a transaction around the read of the room
  and its \<open>arrayUnion\<close> would do.
\<close>

definition flush_all :: "lobby_world \<Rightarrow> lobby_world" where
  "flush_all w = ((\<lambda>w. lobby_step w Flush) ^^ length (pending w)) w"

definition lobby_step_atomic :: "lobby_world \<Rightarrow> lobby_event \<Rightarrow> lobby_world" where
  "lobby_step_atomic w e = flush_all (lobby_step w e)"

text \<open>A room is consistent when its members are distinct and at most two.\<close>

definition room_ok :: "Group \<Rightarrow> bool" where
  "room_ok g \<longleftrightarrow> distinct (users g) \<and> length (users g) \<le> 2"

definition lobby_inv :: "lobby_world \<Rightarrow> bool" where
  "lobby_inv w \<longleftrightarrow> pending w = [] \<and> (\<forall>n g. groups w n = Some g \<longrightarrow> room_ok g)"

subsection \<open>Lemmas\<close>

lemma array_union_single [simp]:
  "array_union xs [y] = (if y \<in> set xs then xs else xs @ [y])"
  by (simp add: array_union_def)

lemma distinct_array_union_single [intro]: "distinct xs \<Longrightarrow> distinct (array_union xs [y])"
  by simp

lemma lobby_run_Nil [simp]: "lobby_run w [] = w"
  by (simp add: lobby_run_def)

lemma lobby_run_Cons [simp]: "lobby_run w (e # es) = lobby_run (lobby_step w e) es"
  by (simp add: lobby_run_def)

lemma join_callback_write:
  assumes "join_callback c (n, p) s = (c', ws)"
  shows "ws = [] \<or>
         (\<exists>g u. s = Some g \<and> uid c = Some u \<and> u \<notin> set (users g) \<and>
                length (users g) \<noteq> 2 \<and> ws = [(n, u)])"
  using assms
  by (auto simp: join_callback_def addUserToGroup_def split: option.splits if_splits)

lemma join_callback_listeners [simp]:
  "listeners (fst (join_callback c lst s)) = listeners c"
  by (auto simp: join_callback_def addUserToGroup_def split: option.splits prod.splits)

lemma lobby_step_listeners_prefix:
  "prefix (listeners (lclients w i)) (listeners (lclients (lobby_step w e) i))"
proof (cases e)
  case (Create j name password)
  then show ?thesis
    by (auto simp: createRoom_def split: sum.splits option.splits)
next
  case (Join j name password)
  then show ?thesis by (simp add: joinRoom_def)
next
  case (Deliver j k)
  then show ?thesis
    by (auto simp: Let_def apply_union_def dest: arg_cong [where f = "listeners \<circ> fst"]
        split: prod.splits)
next
  case Flush
  then show ?thesis by (auto simp: apply_union_def split: list.splits prod.splits option.splits)
qed

lemma flush_all_Nil [simp]: "pending w = [] \<Longrightarrow> flush_all w = w"
  by (simp add: flush_all_def)

lemma flush_all_single:
  "pending w = [wr] \<Longrightarrow> flush_all w = apply_union (w\<lparr>pending := []\<rparr>) wr"
  by (simp add: flush_all_def)

subsection \<open>Properties\<close>

text \<open>
  C12: two browsers joining the same one-member room concurrently both pass the
  \<open>length === 2\<close> check on the same snapshot, and their two non-awaited
  \<open>arrayUnion\<close> writes leave the room with three members.
\<close>

theorem join_race_overfills_room:
  assumes g: "groups w name = Some g" "name \<noteq> []" "users g = [a]" "passwordHash g = password"
    and u: "uid (lclients w i) = Some ub" "uid (lclients w j) = Some uc" "i \<noteq> j"
    and d: "distinct [a, ub, uc]"
    and l: "listeners (lclients w i) = []" "listeners (lclients w j) = []" "pending w = []"
  shows "map_option users (groups (lobby_run w
           [Join i name password, Join j name password, Deliver i 0, Deliver j 0, Flush, Flush])
           name) = Some [a, ub, uc]"
  using g u d l
  by (simp add: joinRoom_def join_callback_def addUserToGroup_def apply_union_def Let_def) blast

theorem join_race_overfills_room_witness:
  "map_option users (groups (lobby_run
      \<lparr>groups = [''r'' \<mapsto> \<lparr>gid = ''r'', gname = ''r'', passwordHash = ''pw'', users = [''a'']\<rparr>],
       datas = Map.empty, pending = [],
       lclients = (\<lambda>k. \<lparr>uid = Some (if k = 1 then ''b'' else ''c''), roomName = [], ltoasts = [],
                         listeners = []\<rparr>)\<rparr>
      [Join 1 ''r'' ''pw'', Join 2 ''r'' ''pw'', Deliver 1 0, Deliver 2 0, Flush, Flush]) ''r'')
   = Some [''a'', ''b'', ''c'']"
  by (rule join_race_overfills_room [where a = "''a''" and ub = "''b''" and uc = "''c''" and
      g = "\<lparr>gid = ''r'', gname = ''r'', passwordHash = ''pw'', users = [''a'']\<rparr>"]) simp_all

text \<open>
  C13: with every write applied before the next event (the join as a transaction), each
  event keeps every room at two distinct members at most.
\<close>

theorem atomic_join_keeps_rooms_ok:
  assumes inv: "lobby_inv w"
  shows "lobby_inv (lobby_step_atomic w e)"
proof (cases e)
  case (Create i name password)
  then show ?thesis
    using inv by (auto simp: lobby_step_atomic_def lobby_inv_def createRoom_def room_ok_def
        split: sum.splits option.splits)
next
  case (Join i name password)
  then show ?thesis using inv by (simp add: lobby_step_atomic_def lobby_inv_def)
next
  case (Deliver i k)
  let ?c = "lclients w i"
  show ?thesis
  proof (cases "k < length (listeners ?c)")
    case False
    then show ?thesis using inv Deliver by (simp add: lobby_step_atomic_def lobby_inv_def Let_def)
  next
    case True
    obtain n p where np: "listeners ?c ! k = (n, p)" by fastforce
    obtain c' ws where cb: "join_callback ?c (n, p) (groups w n) = (c', ws)" by fastforce
    have pw: "pending w = []" using inv by (simp add: lobby_inv_def)
    have step: "lobby_step w e = w\<lparr>lclients := (lclients w)(i := c'), pending := ws\<rparr>"
      using Deliver True np cb pw by simp
    from join_callback_write [OF cb] show ?thesis
    proof
      assume "ws = []"
      then show ?thesis using inv step by (simp add: lobby_step_atomic_def lobby_inv_def)
    next
      assume "\<exists>g u. groups w n = Some g \<and> uid ?c = Some u \<and> u \<notin> set (users g) \<and>
                     length (users g) \<noteq> 2 \<and> ws = [(n, u)]"
      then obtain g u where g: "groups w n = Some g" "u \<notin> set (users g)"
        "length (users g) \<noteq> 2" "ws = [(n, u)]" by blast
      have "room_ok g" using inv g(1) by (auto simp: lobby_inv_def)
      then have "room_ok (g\<lparr>users := users g @ [u]\<rparr>)"
        using g(2,3) by (simp add: room_ok_def)
      then show ?thesis
        using inv step g by (auto simp: lobby_step_atomic_def lobby_inv_def flush_all_single
            apply_union_def)
    qed
  qed
next
  case Flush
  then show ?thesis using inv by (simp add: lobby_step_atomic_def lobby_inv_def)
qed

theorem atomic_join_keeps_rooms_ok_witness:
  "lobby_inv (lobby_step_atomic
      \<lparr>groups = Map.empty, datas = Map.empty, pending = [],
       lclients = (\<lambda>k. \<lparr>uid = Some ''a'', roomName = [], ltoasts = [], listeners = []\<rparr>)\<rparr>
      (Create 0 ''r'' ''pw''))"
  by (rule atomic_join_keeps_rooms_ok) (simp add: lobby_inv_def)

text \<open>
  C22: the listeners a join dialog registers are never removed: along any run, each
  browser's list of listeners only grows, so every failed or repeated attempt keeps
  reacting to every later change of the room it named.
\<close>

theorem join_listeners_never_released:
  "prefix (listeners (lclients w i)) (listeners (lclients (lobby_run w es) i))"
proof (induction es arbitrary: w)
  case Nil
  then show ?case by simp
next
  case (Cons e es)
  then show ?case
    using lobby_step_listeners_prefix [of w i e] by (auto intro: prefix_order.trans)
qed

text \<open>
  C23: a successful join shows 'Room Joined' at once, and when the store echoes the
  \<open>arrayUnion\<close> back, the same never-removed listener runs again and shows
  'Reconnected': one join, two notices, and the member list holds the new user once.
\<close>

theorem join_then_echo_reconnects:
  assumes g: "groups w n = Some g" "n \<noteq> []" "passwordHash g = p" "u \<notin> set (users g)" "length (users g) < 2"
    and c: "uid (lclients w i) = Some u" "k = length (listeners (lclients w i))"
    and pw: "pending w = []"
  shows "ltoasts (lclients (lobby_run w [Join i n p, Deliver i k, Flush, Deliver i k]) i) =
           ltoasts (lclients w i) @ [''Room Joined'', ''Reconnected''] \<and>
         roomName (lclients (lobby_run w [Join i n p, Deliver i k, Flush, Deliver i k]) i) = n \<and>
         map_option users (groups (lobby_run w [Join i n p, Deliver i k, Flush, Deliver i k]) n) =
           Some (users g @ [u]) \<and>
         pending (lobby_run w [Join i n p, Deliver i k, Flush, Deliver i k]) = []"
  using g c pw
  by (simp add: joinRoom_def join_callback_def addUserToGroup_def apply_union_def Let_def nth_append)

theorem join_then_echo_reconnects_witness:
  "ltoasts (lclients (lobby_run
      \<lparr>groups = [''r'' \<mapsto> \<lparr>gid = ''r'', gname = ''r'', passwordHash = ''pw'', users = [''a'']\<rparr>],
       datas = Map.empty, pending = [],
       lclients = (\<lambda>k. \<lparr>uid = Some ''b'', roomName = [], ltoasts = [], listeners = []\<rparr>)\<rparr>
      [Join 1 ''r'' ''pw'', Deliver 1 0, Flush, Deliver 1 0]) 1) = [''Room Joined'', ''Reconnected'']"
  using join_then_echo_reconnects [where g = "\<lparr>gid = ''r'', gname = ''r'', passwordHash = ''pw'', users = [''a'']\<rparr>"
      and u = "''b''" and k = 0 and i = 1 and n = "''r''" and p = "''pw''" and
      w = "\<lparr>groups = [''r'' \<mapsto> \<lparr>gid = ''r'', gname = ''r'', passwordHash = ''pw'', users = [''a'']\<rparr>],
           datas = Map.empty, pending = [],
           lclients = (\<lambda>k. \<lparr>uid = Some ''b'', roomName = [], ltoasts = [], listeners = []\<rparr>)\<rparr>"]
  by simp

text \<open>
  C32: the listener's rejections: a missing room or a wrong password shows 'Invalid
  group name or password', a full room that does not already list the user shows
  'Room is packed'; none of them writes or changes the room name.
\<close>

theorem join_callback_rejects:
  "join_callback c (name, password) None =
     (c\<lparr>ltoasts := ltoasts c @ [''Invalid group name or password'']\<rparr>, []) \<and>
   (passwordHash g \<noteq> password \<longrightarrow>
      join_callback c (name, password) (Some g) =
        (c\<lparr>ltoasts := ltoasts c @ [''Invalid group name or password'']\<rparr>, [])) \<and>
   (passwordHash g = password \<and> length (users g) = 2 \<and> (\<forall>u. uid c = Some u \<longrightarrow> u \<notin> set (users g)) \<longrightarrow>
      join_callback c (name, password) (Some g) =
        (c\<lparr>ltoasts := ltoasts c @ [''Room is packed'']\<rparr>, []))"
  by (auto simp: join_callback_def split: option.splits)

theorem join_callback_rejects_witness:
  "join_callback \<lparr>uid = Some ''c'', roomName = [], ltoasts = [], listeners = []\<rparr> (''r'', ''pw'')
     (Some \<lparr>gid = ''r'', gname = ''r'', passwordHash = ''pw'', users = [''a'', ''b'']\<rparr>) =
     (\<lparr>uid = Some ''c'', roomName = [], ltoasts = [''Room is packed''], listeners = []\<rparr>, []) \<and>
   join_callback \<lparr>uid = Some ''c'', roomName = [], ltoasts = [], listeners = []\<rparr> (''r'', ''x'')
     (Some \<lparr>gid = ''r'', gname = ''r'', passwordHash = ''pw'', users = [''a'', ''b'']\<rparr>) =
     (\<lparr>uid = Some ''c'', roomName = [], ltoasts = [''Invalid group name or password''],
       listeners = []\<rparr>, [])"
  using join_callback_rejects [where c = "\<lparr>uid = Some ''c'', roomName = [], ltoasts = [], listeners = []\<rparr>"
      and name = "''r''" and password = "''pw''"
      and g = "\<lparr>gid = ''r'', gname = ''r'', passwordHash = ''pw'', users = [''a'', ''b'']\<rparr>"]
    join_callback_rejects [where c = "\<lparr>uid = Some ''c'', roomName = [], ltoasts = [], listeners = []\<rparr>"
      and name = "''r''" and password = "''x''"
      and g = "\<lparr>gid = ''r'', gname = ''r'', passwordHash = ''pw'', users = [''a'', ''b'']\<rparr>"]
  by simp

text \<open>
  C24: \<open>createRoom\<close> does not check whether the room exists: its \<open>setDoc\<close>s replace
  an existing room's members by the creator alone, its password by the new one and its
  board document by the seed, so a former member who tries to rejoin with the old
  password is turned away.
\<close>

theorem createRoom_overwrites_room:
  assumes "groups w name = Some g" "name \<noteq> []" "password \<noteq> []" "uid (lclients w i) = Some u"
    and "passwordHash g \<noteq> password"
  shows "map_option users (groups (lobby_step w (Create i name password)) name) = Some [u] \<and>
         datas (lobby_step w (Create i name password)) name = Some room_seed \<and>
         join_callback c (name, passwordHash g) (groups (lobby_step w (Create i name password)) name) =
           (c\<lparr>ltoasts := ltoasts c @ [''Invalid group name or password'']\<rparr>, [])"
  using assms by (simp add: createRoom_def join_callback_def)

theorem createRoom_overwrites_room_witness:
  "map_option users (groups (lobby_step
      \<lparr>groups = [''r'' \<mapsto> \<lparr>gid = ''r'', gname = ''r'', passwordHash = ''pw'', users = [''a'', ''b'']\<rparr>],
       datas = Map.empty, pending = [],
       lclients = (\<lambda>k. \<lparr>uid = Some ''m'', roomName = [], ltoasts = [], listeners = []\<rparr>)\<rparr>
      (Create 0 ''r'' ''new'')) ''r'') = Some [''m'']"
  using createRoom_overwrites_room [where g = "\<lparr>gid = ''r'', gname = ''r'', passwordHash = ''pw'', users = [''a'', ''b'']\<rparr>"
      and name = "''r''" and password = "''new''" and i = 0 and u = "''m''" and
      w = "\<lparr>groups = [''r'' \<mapsto> \<lparr>gid = ''r'', gname = ''r'', passwordHash = ''pw'', users = [''a'', ''b'']\<rparr>],
           datas = Map.empty, pending = [],
           lclients = (\<lambda>k. \<lparr>uid = Some ''m'', roomName = [], ltoasts = [], listeners = []\<rparr>)\<rparr>"]
  by simp

end
