(* ===== verification/Auth.thy ===== *)
theory Auth
  imports Prelude
begin

text \<open>
  The authentication provider (\<^verbatim>\<open>src/src/context/auth-provider.tsx\<close>). Firebase
  Authentication is an external service; the model takes the user it reports
  (\<open>fb_user\<close>: \<open>uid\<close>, display name, e-mail, photo URL) as an input. The provider's
  state is the \<open>user\<close> and \<open>isLoading\<close> hooks; the \<open>users\<close> collection of the store
  holds one profile document per user id.
  \<^item> \<open>onAuthStateChanged\<close> (lines 48--62): the listener registered at mount; its closure
    sees the \<open>isLoading\<close> of the first render, which is \<open>true\<close>, so every call clears
    the loading flag; a \<open>null\<close> user returns early;
  \<^item> \<open>signIn\<close> (lines 64--82): after the popup, the profile is written only when no
    document exists for the id; a rejected popup is caught and logged;
  \<^item> \<open>signOut\<close> (lines 84--91): clears the user when Firebase's sign-out resolves.
\<close>

record User =
  user_id :: string
  user_name :: "string option"
  user_email :: "string option"
  user_image :: "string option"

record fb_user =
  fb_uid :: string
  displayName :: "string option"
  fb_email :: "string option"
  photoURL :: "string option"

record auth_state =
  auth_user :: "User option"
  isLoading :: bool

type_synonym users_store = "string \<Rightarrow> User option"

definition initial_auth :: auth_state where
  "initial_auth = \<lparr>auth_user = None, isLoading = True\<rparr>"

definition user_of :: "fb_user \<Rightarrow> User" where
  "user_of u = \<lparr>user_id = fb_uid u, user_name = displayName u, user_email = fb_email u,
                user_image = photoURL u\<rparr>"

definition onAuthStateChanged :: "auth_state \<Rightarrow> fb_user option \<Rightarrow> auth_state" where
  "onAuthStateChanged s u =
     (let s1 = s\<lparr>isLoading := False\<rparr>
      in case u of
           None \<Rightarrow> s1
         | Some fu \<Rightarrow> s1\<lparr>auth_user := Some (user_of fu)\<rparr>)"

text \<open>\<open>signIn\<close> given the popup's outcome (\<open>None\<close>: the popup rejected).\<close>

definition signIn :: "users_store \<Rightarrow> fb_user option \<Rightarrow> users_store" where
  "signIn us popup =
     (case popup of
        None \<Rightarrow> us
      | Some u \<Rightarrow>
          (case us (fb_uid u) of
             Some _ \<Rightarrow> us
           | None \<Rightarrow> us(fb_uid u \<mapsto> user_of u)))"

text \<open>\<open>signOut\<close> given whether Firebase's sign-out resolved.\<close>

definition signOut :: "auth_state \<Rightarrow> bool \<Rightarrow> auth_state" where
  "signOut s ok = (if ok then s\<lparr>auth_user := None\<rparr> else s)"

text \<open>
  The guard of the authenticated layout (\<^verbatim>\<open>src/src/routes/_authenticated.tsx\<close>,
  lines 13--18): without a user it navigates to the login route.
\<close>

definition redirects_to_login :: "auth_state \<Rightarrow> bool" where
  "redirects_to_login s \<longleftrightarrow> auth_user s = None"

subsection \<open>Properties\<close>

text \<open>
  C34: Firebase reporting that nobody is signed in (a revoked or expired session) does
  not clear the provider's user: the listener returns before \<open>setUser\<close>, so the
  authenticated layout keeps the previous user and never redirects to the login route.
\<close>

theorem auth_null_keeps_user:
  "auth_user (onAuthStateChanged s None) = auth_user s \<and>
   \<not> isLoading (onAuthStateChanged s None) \<and>
   redirects_to_login (onAuthStateChanged s None) = redirects_to_login s"
  by (simp add: onAuthStateChanged_def redirects_to_login_def)

text \<open>
  C35: \<open>signIn\<close> writes a profile once: a second sign-in changes nothing, and when a
  profile exists it is kept as it is, even when the name or photo the popup returns has
  changed since.
\<close>

theorem signIn_profile_once:
  "signIn (signIn us popup) popup = signIn us popup \<and>
   (us (fb_uid u) = Some p \<longrightarrow> signIn us (Some u) (fb_uid u) = Some p) \<and>
   (us (fb_uid u) = None \<longrightarrow> signIn us (Some u) (fb_uid u) = Some (user_of u))"
  by (auto simp: signIn_def split: option.splits)

theorem signIn_profile_once_witness:
  "signIn [''u1'' \<mapsto> \<lparr>user_id = ''u1'', user_name = Some ''Old'', user_email = None,
                       user_image = None\<rparr>]
          (Some \<lparr>fb_uid = ''u1'', displayName = Some ''New'', fb_email = None, photoURL = None\<rparr>)
          ''u1'' =
   Some \<lparr>user_id = ''u1'', user_name = Some ''Old'', user_email = None, user_image = None\<rparr>"
  using signIn_profile_once [where us = "[''u1'' \<mapsto> \<lparr>user_id = ''u1'', user_name = Some ''Old'',
      user_email = None, user_image = None\<rparr>]"
      and u = "\<lparr>fb_uid = ''u1'', displayName = Some ''New'', fb_email = None, photoURL = None\<rparr>"
      and p = "\<lparr>user_id = ''u1'', user_name = Some ''Old'', user_email = None, user_image = None\<rparr>"]
  by simp

end
