(* ===== verification/RoomInfo.thy ===== *)
theory RoomInfo
  imports Lobby Auth "HOL-Library.List_Lexorder" "HOL-Library.Char_ord"
begin

text \<open>
  The member card of the lobby (\<open>RoomInfromation\<close>, \<^verbatim>\<open>src/src/room.tsx\<close>, lines
  252--332). Its effect, rerun on every change of \<open>roomName\<close> and never cleaned up,
  registers a listener on the room's group document; each snapshot of that document
  registers one more listener on the query \<open>users where id in group.users\<close>, and each
  result of such a query that is not empty replaces \<open>matchedUsers\<close>. The state records
  the listeners by what they watch: the room name of each group listener and the id
  list of each users query.
  \<^item> \<open>info_effect\<close> (lines 255--307): with the empty room name \<open>doc(data, 'groups', '')\<close>
    throws inside the \<open>try\<close> and nothing is registered;
  \<^item> \<open>info_group_snapshot\<close> (lines 262--296): a missing document is logged; otherwise
    a users query is registered (an empty id list would make \<open>where(.., 'in', ..)\<close>
    throw, and nothing is registered);
  \<^item> \<open>info_users_snapshot\<close> (lines 279--291): the profiles whose id is in the list, in
    document-id order; an empty result is logged and ignored;
  \<^item> \<open>member_card_view\<close> (lines 309--332): what the card lists.
\<close>

record info_state =
  matchedUsers :: "User list option"
  group_listeners :: "string list"
  user_queries :: "string list list"

definition initial_info :: info_state where
  "initial_info = \<lparr>matchedUsers = None, group_listeners = [], user_queries = []\<rparr>"

definition info_effect :: "info_state \<Rightarrow> string \<Rightarrow> info_state" where
  "info_effect s room_name =
     (if room_name = [] then s else s\<lparr>group_listeners := group_listeners s @ [room_name]\<rparr>)"

definition info_group_snapshot :: "info_state \<Rightarrow> Group option \<Rightarrow> info_state" where
  "info_group_snapshot s groupSnap =
     (case groupSnap of
        None \<Rightarrow> s
      | Some grp \<Rightarrow>
          if users grp = [] then s else s\<lparr>user_queries := user_queries s @ [users grp]\<rparr>)"

definition query_users :: "users_store \<Rightarrow> string list \<Rightarrow> User list" where
  "query_users us ids = List.map_filter us (sort (remdups ids))"

definition info_users_snapshot :: "info_state \<Rightarrow> nat \<Rightarrow> users_store \<Rightarrow> info_state" where
  "info_users_snapshot s k us =
     (if k < length (user_queries s) then
        (let fetchedUsers = query_users us (user_queries s ! k)
         in if fetchedUsers = [] then s else s\<lparr>matchedUsers := Some fetchedUsers\<rparr>)
      else s)"

text \<open>
  The card's content (lines 318--329): with a non-empty \<open>matchedUsers\<close>, each member's
  name and image, the image falling back to \<open>'error'\<close> when it is \<open>null\<close> or empty
  (\<open>user.image || 'error'\<close>); otherwise the line 'No users found in this room.'.
\<close>

datatype card_view = NoUsersFound | Members "(string option \<times> string) list"

definition member_image :: "User \<Rightarrow> string" where
  "member_image u = (case user_image u of None \<Rightarrow> ''error'' | Some i \<Rightarrow> if i = [] then ''error'' else i)"

definition member_card_view :: "info_state \<Rightarrow> card_view" where
  "member_card_view s =
     (case matchedUsers s of
        Some us \<Rightarrow> if us \<noteq> [] then Members (map (\<lambda>u. (user_name u, member_image u)) us) else NoUsersFound
      | None \<Rightarrow> NoUsersFound)"

subsection \<open>Lemmas\<close>

lemma query_users_single [simp]: "query_users us [a] = (case us a of None \<Rightarrow> [] | Some p \<Rightarrow> [p])"
  by (simp add: query_users_def List.map_filter_def split: option.split)

subsection \<open>Properties\<close>

text \<open>
  C33: the member card can show the previous room. The card's effect runs for room A and
  A's group snapshot registers a users query; the room name changes to B, whose
  listeners are registered the same way and deliver B's member. The listeners of A are
  never removed, so when A's query delivers again (a profile changed, or the network
  reordered the first results) the card of room B shows A's member; the card then
  holds two group listeners and two users queries.
\<close>

theorem member_card_shows_previous_room:
  assumes ga: "users ga = [a]" and gb: "users gb = [b]"
    and us: "us a = Some pa" "us b = Some pb"
    and ra: "ra \<noteq> []" and rb: "rb \<noteq> []"
  shows "matchedUsers (info_users_snapshot (info_users_snapshot (info_group_snapshot
           (info_effect (info_group_snapshot (info_effect initial_info ra) (Some ga)) rb)
           (Some gb)) 1 us) 0 us) = Some [pa] \<and>
         group_listeners (info_users_snapshot (info_users_snapshot (info_group_snapshot
           (info_effect (info_group_snapshot (info_effect initial_info ra) (Some ga)) rb)
           (Some gb)) 1 us) 0 us) = [ra, rb]"
  using assms
  by (simp add: initial_info_def info_effect_def info_group_snapshot_def info_users_snapshot_def)

theorem member_card_shows_previous_room_witness:
  "matchedUsers (info_users_snapshot (info_users_snapshot (info_group_snapshot
     (info_effect (info_group_snapshot (info_effect initial_info ''A'')
        (Some \<lparr>gid = ''A'', gname = ''A'', passwordHash = ''p'', users = [''a'']\<rparr>)) ''B'')
     (Some \<lparr>gid = ''B'', gname = ''B'', passwordHash = ''q'', users = [''b'']\<rparr>)) 1
       [''a'' \<mapsto> \<lparr>user_id = ''a'', user_name = None, user_email = None, user_image = None\<rparr>,
        ''b'' \<mapsto> \<lparr>user_id = ''b'', user_name = None, user_email = None, user_image = None\<rparr>])
     0 [''a'' \<mapsto> \<lparr>user_id = ''a'', user_name = None, user_email = None, user_image = None\<rparr>,
        ''b'' \<mapsto> \<lparr>user_id = ''b'', user_name = None, user_email = None, user_image = None\<rparr>])
   = Some [\<lparr>user_id = ''a'', user_name = None, user_email = None, user_image = None\<rparr>]"
  using member_card_shows_previous_room
      [where ga = "\<lparr>gid = ''A'', gname = ''A'', passwordHash = ''p'', users = [''a'']\<rparr>"
         and gb = "\<lparr>gid = ''B'', gname = ''B'', passwordHash = ''q'', users = [''b'']\<rparr>"
         and a = "''a''" and b = "''b''" and ra = "''A''" and rb = "''B''"
         and us = "[''a'' \<mapsto> \<lparr>user_id = ''a'', user_name = None, user_email = None, user_image = None\<rparr>,
                    ''b'' \<mapsto> \<lparr>user_id = ''b'', user_name = None, user_email = None, user_image = None\<rparr>]"
         and pa = "\<lparr>user_id = ''a'', user_name = None, user_email = None, user_image = None\<rparr>"
         and pb = "\<lparr>user_id = ''b'', user_name = None, user_email = None, user_image = None\<rparr>"]
  by simp

end
