(* ===== verification/Page.thy ===== *)
theory Page
  imports Auth Sync
begin

text \<open>
  The page around the board: the router of \<^verbatim>\<open>src/src/main.tsx\<close> switches between
  the login route (\<^verbatim>\<open>src/src/routes/login.tsx\<close>) and the authenticated root page
  (\<^verbatim>\<open>src/src/routes/_authenticated.tsx\<close> and \<^verbatim>\<open>_authenticated/index.tsx\<close>). The login
  page's effect navigates home once there is a user; the authenticated layout's effect
  navigates to the login route when there is none. \<open>RootPage\<close> holds the
  \<open>lobbyName\<close> state (initially the empty string), which the lobby sets on every
  render to its room name, and renders the \<open>Board\<close> with it as a prop; leaving the
  root page unmounts the board, running the cleanup of its effect. The state records
  the listeners left behind by the boards unmounted so far (\<open>pg_released\<close>) and
  the users collection the login page's sign-in button writes (\<open>pg_users\<close>).

  While \<open>isLoading\<close> holds, the provider renders a loader instead of the router
  (\<^verbatim>\<open>auth-provider.tsx\<close>, lines 93--101): no route is shown and no effect runs.
  \<open>page_settle\<close> runs the navigation effect of the route shown and mounts or unmounts
  the root page accordingly. On the root page without a user React first renders the
  outlet, mounting a board with the empty lobby name (which subscribes to nothing), and
  only then runs the layout's redirect; the model goes to the login route directly, which
  leaves the same state. The double effects of \<open>StrictMode\<close> in development builds
  are not modelled.
\<close>

datatype route = LoginRoute | HomeRoute

text \<open>The login page's effect (lines 14--19): with a user, navigate home.\<close>

definition login_redirect :: "auth_state \<Rightarrow> bool" where
  "login_redirect a \<longleftrightarrow> auth_user a \<noteq> None"

text \<open>The route after the effect of the page shown has run.\<close>

definition route_effect :: "auth_state \<Rightarrow> route \<Rightarrow> route" where
  "route_effect a r =
     (case r of
        LoginRoute \<Rightarrow> if login_redirect a then HomeRoute else LoginRoute
      | HomeRoute \<Rightarrow> if redirects_to_login a then LoginRoute else HomeRoute)"

record page =
  pg_auth :: auth_state
  pg_route :: route
  pg_lobbyName :: string
  pg_board :: "client option"
  pg_released :: "string list"
  pg_users :: users_store

text \<open>
  Mounting the root page: \<open>useState('')\<close> and a board mounted with the empty lobby name;
  unmounting it: the board's cleanup, whose left-over listeners are recorded.
\<close>

definition home_mount :: "page \<Rightarrow> page" where
  "home_mount p = p\<lparr>pg_lobbyName := [], pg_board := Some (subscribe_effect (initial_client (Some [])))\<rparr>"

definition home_unmount :: "page \<Rightarrow> page" where
  "home_unmount p =
     (case pg_board p of
        None \<Rightarrow> p
      | Some c \<Rightarrow> p\<lparr>pg_board := None,
                    pg_released := pg_released p @ subscriptions (unsubscribe_effect c)\<rparr>)"

definition page_settle :: "page \<Rightarrow> page" where
  "page_settle p =
     (if isLoading (pg_auth p) then p
      else let r' = route_effect (pg_auth p) (pg_route p); p1 = p\<lparr>pg_route := r'\<rparr>
           in if r' = HomeRoute then (if pg_board p = None then home_mount p1 else p1)
              else home_unmount p1)"

text \<open>
  The lobby's render calls \<open>setLobbyName(roomName)\<close>; the board receives the new prop
  and React reruns its effect (\<open>Sync.set_lobby\<close>). The lobby and the sign-out button
  exist only while the root page, and with it the board, is mounted.
\<close>

definition page_room :: "page \<Rightarrow> string \<Rightarrow> page" where
  "page_room p roomName =
     (case pg_board p of
        None \<Rightarrow> p
      | Some c \<Rightarrow> p\<lparr>pg_lobbyName := roomName, pg_board := Some (set_lobby c (Some roomName))\<rparr>)"

definition page_auth :: "page \<Rightarrow> fb_user option \<Rightarrow> page" where
  "page_auth p u = page_settle (p\<lparr>pg_auth := onAuthStateChanged (pg_auth p) u\<rparr>)"

text \<open>The sign-out button of the root page (lines 22--30).\<close>

definition page_signout :: "page \<Rightarrow> bool \<Rightarrow> page" where
  "page_signout p ok =
     (case pg_board p of
        None \<Rightarrow> p
      | Some _ \<Rightarrow> page_settle (p\<lparr>pg_auth := signOut (pg_auth p) ok\<rparr>))"

text \<open>
  The login page's button (lines 27--37) runs \<open>signIn\<close>; it is there only while the
  login route is shown. Its outcome is the popup's (\<open>Auth.signIn\<close>), and it writes
  the profile document; Firebase's report of the new user reaches the provider's listener
  as a separate \<open>PgAuth\<close> event, in either order with the write.
\<close>

definition page_signin :: "page \<Rightarrow> fb_user option \<Rightarrow> page" where
  "page_signin p popup =
     (if \<not> isLoading (pg_auth p) \<and> pg_route p = LoginRoute
      then p\<lparr>pg_users := signIn (pg_users p) popup\<rparr> else p)"

datatype page_event = PgAuth "fb_user option" | PgSignIn "fb_user option" | PgSignOut bool | PgRoom string

fun page_step :: "page \<Rightarrow> page_event \<Rightarrow> page" where
  "page_step p (PgAuth u) = page_auth p u"
| "page_step p (PgSignIn popup) = page_signin p popup"
| "page_step p (PgSignOut ok) = page_signout p ok"
| "page_step p (PgRoom n) = page_room p n"

definition page_run :: "page \<Rightarrow> page_event list \<Rightarrow> page" where
  "page_run p es = fold (\<lambda>e p. page_step p e) es p"

text \<open>The page opened at a route on a users collection, before Firebase has answered.\<close>

definition initial_page :: "route \<Rightarrow> users_store \<Rightarrow> page" where
  "initial_page r us =
     \<lparr>pg_auth = initial_auth, pg_route = r, pg_lobbyName = [], pg_board = None, pg_released = [],
      pg_users = us\<rparr>"

text \<open>
  The page invariant: the board is mounted exactly on the root page, its lobby name is
  the page's, it holds the listener that lobby name calls for, and no unmounted board
  has left a listener behind.
\<close>

definition page_ok :: "page \<Rightarrow> bool" where
  "page_ok p \<longleftrightarrow>
     pg_released p = [] \<and>
     (case pg_board p of
        None \<Rightarrow> isLoading (pg_auth p) \<or> pg_route p = LoginRoute
      | Some c \<Rightarrow> \<not> isLoading (pg_auth p) \<and> pg_route p = HomeRoute \<and>
                  lobbyName c = Some (pg_lobbyName p) \<and> subs_ok c)"

subsection \<open>Lemmas\<close>

lemma lobbyName_set_lobby [simp]: "lobbyName (set_lobby c (Some n)) = Some n"
  by (simp add: set_lobby_def subscribe_effect_def unsubscribe_effect_def split: option.split)

lemma lobbyName_subscribe_effect [simp]: "lobbyName (subscribe_effect c) = lobbyName c"
  by (simp add: subscribe_effect_def split: option.split)

lemma lobbyName_initial_client [simp]: "lobbyName (initial_client l) = l"
  by (simp add: initial_client_def)

lemma page_ok_settle:
  assumes "pg_released p = []" and "\<not> isLoading (pg_auth p)"
    and "case pg_board p of None \<Rightarrow> True
         | Some c \<Rightarrow> pg_route p = HomeRoute \<and> lobbyName c = Some (pg_lobbyName p) \<and> subs_ok c"
  shows "page_ok (page_settle p)"
  using assms
  by (cases "pg_board p"; cases "pg_route p")
     (auto simp: page_ok_def page_settle_def route_effect_def home_mount_def home_unmount_def
        subs_ok_mount subs_ok_unmount)

lemma page_ok_step: "page_ok p \<Longrightarrow> page_ok (page_step p e)"
proof (cases e)
  case (PgAuth u)
  assume "page_ok p"
  then show ?thesis using PgAuth
    by (simp add: page_auth_def page_ok_settle)
       (rule page_ok_settle, auto simp: page_ok_def onAuthStateChanged_def Let_def split: option.splits)
next
  case (PgSignIn popup)
  assume "page_ok p"
  then show ?thesis using PgSignIn by (auto simp: page_signin_def page_ok_def split: option.splits)
next
  case (PgSignOut ok)
  assume "page_ok p"
  then show ?thesis using PgSignOut
    by (cases "pg_board p")
       (simp_all add: page_signout_def, rule page_ok_settle, auto simp: page_ok_def signOut_def)
next
  case (PgRoom n)
  assume "page_ok p"
  then show ?thesis using PgRoom
    by (auto simp: page_room_def page_ok_def subs_ok_set_lobby split: option.splits)
qed

lemma page_ok_run: "page_ok p \<Longrightarrow> page_ok (page_run p es)"
  by (induction es arbitrary: p) (simp_all add: page_run_def page_ok_step)

lemma page_ok_initial: "page_ok (initial_page r us)"
  by (simp add: page_ok_def initial_page_def initial_auth_def)

subsection \<open>Properties\<close>

text \<open>
  C16: however the user signs in, out, and moves between rooms, the page keeps its
  invariant: the board is mounted exactly while the root page is shown, it listens to
  the lobby the root page holds and to nothing else, and no board unmounted by a
  sign-out or a redirect leaves a listener behind.
\<close>

theorem page_reachable_ok: "page_ok (page_run (initial_page r us) es)"
  by (rule page_ok_run [OF page_ok_initial])

text \<open>
  C17: on a root page reached by any run, the lobby choosing a room makes the board
  listen to exactly that room; a sign-out that Firebase confirms then sends the user to
  the login route and unmounts the board, releasing its listener.
\<close>

theorem page_room_then_signout:
  assumes "pg_board (page_run (initial_page r us) es) \<noteq> None" and "n \<noteq> []"
  shows "subscriptions (the (pg_board (page_room (page_run (initial_page r us) es) n))) = [n] \<and>
         pg_route (page_signout (page_room (page_run (initial_page r us) es) n) True) = LoginRoute \<and>
         pg_board (page_signout (page_room (page_run (initial_page r us) es) n) True) = None \<and>
         pg_released (page_signout (page_room (page_run (initial_page r us) es) n) True) = []"
proof -
  let ?p = "page_room (page_run (initial_page r us) es) n"
  have ok0: "page_ok (page_run (initial_page r us) es)"
    by (rule page_ok_run [OF page_ok_initial])
  then have ok: "page_ok ?p"
    using page_ok_step [of _ "PgRoom n"] by simp
  obtain c where c: "pg_board ?p = Some c"
    using assms(1) by (auto simp: page_room_def split: option.splits)
  have nl: "lobbyName c = Some n"
    using c assms(1) by (auto simp: page_room_def split: option.splits)
  have sub: "subs_ok c" and home: "pg_route ?p = HomeRoute" and ld: "\<not> isLoading (pg_auth ?p)"
    using ok c by (simp_all add: page_ok_def)
  have "subscriptions c = [n]"
    using sub nl assms(2) by (simp add: subs_ok_def lobby_truthy_def)
  moreover have "subscriptions (unsubscribe_effect c) = []"
    by (rule subs_ok_unmount [OF sub])
  moreover have "pg_released ?p = []"
    using ok by (simp add: page_ok_def)
  ultimately show ?thesis
    using c home ld
    by (simp add: page_signout_def page_settle_def route_effect_def redirects_to_login_def
        signOut_def home_unmount_def)
qed

theorem page_room_then_signout_witness:
  "subscriptions (the (pg_board (page_room (page_run (initial_page LoginRoute Map.empty)
      [PgAuth (Some \<lparr>fb_uid = ''u1'', displayName = None, fb_email = None, photoURL = None\<rparr>)])
      ''room''))) = [''room'']"
proof -
  have "pg_board (page_run (initial_page LoginRoute Map.empty)
      [PgAuth (Some \<lparr>fb_uid = ''u1'', displayName = None, fb_email = None, photoURL = None\<rparr>)])
      \<noteq> None"
    by (simp add: page_run_def page_auth_def page_settle_def initial_page_def initial_auth_def
        onAuthStateChanged_def route_effect_def login_redirect_def home_mount_def)
  then show ?thesis
    using page_room_then_signout [of LoginRoute Map.empty
        "[PgAuth (Some \<lparr>fb_uid = ''u1'', displayName = None, fb_email = None, photoURL = None\<rparr>)]"
        "''room''"]
    by simp
qed

end
