(* ===== verification/Dialogs.thy ===== *)
theory Dialogs
  imports Lobby
begin

text \<open>
  The two dialogs of the lobby (\<^verbatim>\<open>src/src/room.tsx\<close>): \<open>CreateRoomDialog\<close>
  (lines 62--137) and \<open>JoinRoomDialog\<close> (lines 151--247). Each is a Radix
  \<open>Dialog\<close> whose content, while open, holds a form with two controlled inputs
  (\<open>name\<close> and \<open>password\<close>, hooks of the dialog component, so they survive closing)
  marked \<open>required\<close>, and a submit button wrapped in \<open>DialogClose\<close>.
  \<^item> A click on the submit button closes the dialog (\<open>DialogClose\<close>) and, as its
    default action, submits the form; the browser's constraint validation blocks the
    submission when a \<open>required\<close> input is empty (\<open>form_valid\<close>).
  \<^item> The create form's \<open>onSubmit\<close> (\<open>createRoom_form\<close>, lines 67--98) is
    \<open>Lobby.createRoom\<close> followed by the reset of both fields; the early returns and the
    \<open>TypeError\<close> of \<open>user!.id\<close> (thrown before the \<open>try\<close>, so the promise rejects)
    skip the reset.
  \<^item> The join form's \<open>onSubmit\<close> (\<open>joinRoom_form\<close>, lines 156--192) is
    \<open>Lobby.joinRoom\<close>; it never resets the fields.
  \<open>ui_step\<close> composes the dialogs of every browser with the lobby's network events
  (a snapshot delivered to a join listener, a queued write applied), in the style of a
  step function over actions with an enabledness guard for each.
\<close>

datatype dialog_kind = CreateDialog | JoinDialog

record dialog =
  dlg_open :: bool
  dlg_name :: string
  dlg_password :: string

definition initial_dialog :: dialog where
  "initial_dialog = \<lparr>dlg_open = False, dlg_name = [], dlg_password = []\<rparr>"

text \<open>The texts of the dialog (lines 102--107 and 131; 212--217 and 241).\<close>

definition dialog_title :: "dialog_kind \<Rightarrow> string" where
  "dialog_title k = (case k of CreateDialog \<Rightarrow> ''Create Room'' | JoinDialog \<Rightarrow> ''Create Room'')"

definition submit_label :: "dialog_kind \<Rightarrow> string" where
  "submit_label k = (case k of CreateDialog \<Rightarrow> ''Create'' | JoinDialog \<Rightarrow> ''Join'')"

text \<open>The \<open>required\<close> attribute of both inputs.\<close>

definition form_valid :: "dialog \<Rightarrow> bool" where
  "form_valid d \<longleftrightarrow> dlg_name d \<noteq> [] \<and> dlg_password d \<noteq> []"

definition createRoom_form ::
  "lobby_world \<Rightarrow> nat \<Rightarrow> dialog \<Rightarrow> js_error option \<times> lobby_world \<times> dialog" where
  "createRoom_form w i d =
     (if dlg_name d = [] then (None, w, d)
      else if dlg_password d = [] then (None, w, d)
      else case createRoom w (lclients w i) (dlg_name d) (dlg_password d) of
        Inl e \<Rightarrow> (Some e, w, d)
      | Inr (w', c') \<Rightarrow> (None, w'\<lparr>lclients := (lclients w')(i := c')\<rparr>,
                        d\<lparr>dlg_name := [], dlg_password := []\<rparr>))"

definition joinRoom_form :: "lobby_world \<Rightarrow> nat \<Rightarrow> dialog \<Rightarrow> lobby_world \<times> dialog" where
  "joinRoom_form w i d =
     (w\<lparr>lclients := (lclients w)(i := joinRoom (lclients w i) (dlg_name d) (dlg_password d))\<rparr>, d)"

datatype dlg_event = DlgTrigger | DlgName string | DlgPassword string | DlgSubmit | DlgDismiss

text \<open>
  One event on a dialog: the trigger button opens it; typing and the submit button exist
  only while it is open; Escape or a click outside closes it.
\<close>

fun dialog_step ::
  "lobby_world \<Rightarrow> nat \<Rightarrow> dialog_kind \<Rightarrow> dialog \<Rightarrow> dlg_event \<Rightarrow> js_error option \<times> lobby_world \<times> dialog" where
  "dialog_step w i k d DlgTrigger = (None, w, d\<lparr>dlg_open := True\<rparr>)"
| "dialog_step w i k d (DlgName s) = (None, w, if dlg_open d then d\<lparr>dlg_name := s\<rparr> else d)"
| "dialog_step w i k d (DlgPassword s) = (None, w, if dlg_open d then d\<lparr>dlg_password := s\<rparr> else d)"
| "dialog_step w i k d DlgDismiss = (None, w, d\<lparr>dlg_open := False\<rparr>)"
| "dialog_step w i k d DlgSubmit =
     (if \<not> dlg_open d then (None, w, d)
      else let d1 = d\<lparr>dlg_open := False\<rparr> in
        if \<not> form_valid d1 then (None, w, d1)
        else case k of
          CreateDialog \<Rightarrow> createRoom_form w i d1
        | JoinDialog \<Rightarrow> (case joinRoom_form w i d1 of (w', d') \<Rightarrow> (None, w', d')))"

text \<open>
  The lobbies of all browsers: the shared world, each browser's two dialogs, and the
  rejected promises of the submit handlers (unhandled, so only recorded).
\<close>

record ui =
  ui_world :: lobby_world
  ui_dialogs :: "nat \<Rightarrow> dialog_kind \<Rightarrow> dialog"
  ui_errors :: "js_error list"

datatype ui_event = UiDialog nat dialog_kind dlg_event | UiDeliver nat nat | UiFlush

fun ui_step :: "ui \<Rightarrow> ui_event \<Rightarrow> ui" where
  "ui_step u (UiDialog i k e) =
     (case dialog_step (ui_world u) i k (ui_dialogs u i k) e of
        (err, w', d') \<Rightarrow>
          u\<lparr>ui_world := w', ui_dialogs := (ui_dialogs u)(i := (ui_dialogs u i)(k := d')),
            ui_errors := ui_errors u @ (case err of None \<Rightarrow> [] | Some x \<Rightarrow> [x])\<rparr>)"
| "ui_step u (UiDeliver i j) = u\<lparr>ui_world := lobby_step (ui_world u) (Deliver i j)\<rparr>"
| "ui_step u UiFlush = u\<lparr>ui_world := lobby_step (ui_world u) Flush\<rparr>"

definition ui_run :: "ui \<Rightarrow> ui_event list \<Rightarrow> ui" where
  "ui_run u es = fold (\<lambda>e u. ui_step u e) es u"

text \<open>Every browser's lobby freshly mounted on a store, signed in as \<open>us i\<close>.\<close>

definition ui_init :: "(string \<Rightarrow> Group option) \<Rightarrow> store \<Rightarrow> (nat \<Rightarrow> string option) \<Rightarrow> ui" where
  "ui_init gs ds us =
     \<lparr>ui_world = \<lparr>groups = gs, datas = ds, pending = [],
                  lclients = (\<lambda>i. \<lparr>uid = us i, roomName = [], ltoasts = [], listeners = []\<rparr>)\<rparr>,
      ui_dialogs = (\<lambda>i k. initial_dialog), ui_errors = []\<rparr>"

text \<open>Every listener a browser holds was registered with a name and a password.\<close>

definition listeners_filled :: "lobby_client \<Rightarrow> bool" where
  "listeners_filled c \<longleftrightarrow> list_all (\<lambda>(n, p). n \<noteq> [] \<and> p \<noteq> []) (listeners c)"

subsection \<open>Lemmas\<close>

lemmas dialog_defs = form_valid_def createRoom_form_def joinRoom_form_def

lemma createRoom_Inr_listeners:
  "createRoom w c n p = Inr (w', c') \<Longrightarrow> listeners c' = listeners c \<and> lclients w' = lclients w"
  by (auto simp: createRoom_def split: if_splits option.splits)

lemma lobby_step_Deliver_filled:
  "\<forall>j. listeners_filled (lclients w j) \<Longrightarrow> listeners_filled (lclients (lobby_step w (Deliver i k)) j)"
  by (auto simp: Let_def listeners_filled_def split: prod.splits)
     (metis fst_conv join_callback_listeners)

lemma lobby_step_Flush_filled:
  "\<forall>j. listeners_filled (lclients w j) \<Longrightarrow> listeners_filled (lclients (lobby_step w Flush) j)"
  by (auto simp: apply_union_def split: list.splits prod.splits option.splits)

lemma dialog_step_filled:
  assumes "\<forall>j. listeners_filled (lclients w j)" and "dialog_step w i k d e = (err, w', d')"
  shows "listeners_filled (lclients w' j)"
proof (cases e)
  case DlgSubmit
  then show ?thesis
    using assms
    by (cases k)
       (auto simp: dialog_defs joinRoom_def listeners_filled_def Let_def
          split: if_splits sum.splits prod.splits dest!: createRoom_Inr_listeners)
qed (use assms in auto)

lemma ui_step_filled:
  "\<forall>j. listeners_filled (lclients (ui_world u) j) \<Longrightarrow>
   listeners_filled (lclients (ui_world (ui_step u e)) j)"
proof (cases e)
  case (UiDialog i k e')
  assume "\<forall>j. listeners_filled (lclients (ui_world u) j)"
  then show ?thesis
    using UiDialog dialog_step_filled [where w = "ui_world u" and i = i and k = k and e = e'
        and d = "ui_dialogs u i k"]
    by (simp split: prod.splits)
qed (simp_all del: lobby_step.simps add: lobby_step_Deliver_filled lobby_step_Flush_filled)

lemma ui_run_filled:
  "\<forall>j. listeners_filled (lclients (ui_world u) j) \<Longrightarrow>
   \<forall>j. listeners_filled (lclients (ui_world (ui_run u es)) j)"
  by (induction es arbitrary: u) (simp_all add: ui_run_def ui_step_filled)

subsection \<open>Properties\<close>

text \<open>
  C25: the \<open>required\<close> inputs keep empty passwords out of the join listeners: whatever
  the browsers type, submit, dismiss and receive, every listener a join dialog has
  registered carries a non-empty room name and a non-empty password.
\<close>

theorem ui_join_listeners_filled:
  "listeners_filled (lclients (ui_world (ui_run (ui_init gs ds us) es)) i)"
proof -
  have "\<forall>j. listeners_filled (lclients (ui_world (ui_init gs ds us)) j)"
    by (simp add: ui_init_def listeners_filled_def)
  then show ?thesis using ui_run_filled by blast
qed

text \<open>
  C26: submitting the create dialog with both fields filled closes it and runs
  \<open>createRoom\<close>. Signed in, it writes the room with the typed name and password and
  the creator as sole member, seeds the board document, passes the name up and resets
  both fields; signed out, \<open>user!.id\<close> throws before the \<open>try\<close>: the promise
  rejects, nothing is written, and the typed fields stay.
\<close>

theorem create_dialog_submit:
  assumes "dlg_open d" and "form_valid d"
  shows "dialog_step w i CreateDialog d DlgSubmit =
     (case uid (lclients w i) of
        None \<Rightarrow> (Some TypeError, w, d\<lparr>dlg_open := False\<rparr>)
      | Some u \<Rightarrow>
          (None, w\<lparr>groups := (groups w)(dlg_name d \<mapsto>
                      \<lparr>gid = dlg_name d, gname = dlg_name d, passwordHash = dlg_password d,
                       users = [u]\<rparr>),
                   datas := (datas w)(dlg_name d \<mapsto> room_seed),
                   lclients := (lclients w)(i := (lclients w i)\<lparr>roomName := dlg_name d,
                      ltoasts := ltoasts (lclients w i) @ [''Group Created'']\<rparr>)\<rparr>,
           initial_dialog))"
  using assms
  by (simp add: dialog_defs createRoom_def initial_dialog_def split: option.split)

theorem create_dialog_submit_witness:
  "dialog_step \<lparr>groups = Map.empty, datas = Map.empty, pending = [],
      lclients = (\<lambda>i. \<lparr>uid = None, roomName = [], ltoasts = [], listeners = []\<rparr>)\<rparr>
      0 CreateDialog \<lparr>dlg_open = True, dlg_name = ''r'', dlg_password = ''p''\<rparr> DlgSubmit =
   (Some TypeError, \<lparr>groups = Map.empty, datas = Map.empty, pending = [],
      lclients = (\<lambda>i. \<lparr>uid = None, roomName = [], ltoasts = [], listeners = []\<rparr>)\<rparr>,
    \<lparr>dlg_open = False, dlg_name = ''r'', dlg_password = ''p''\<rparr>)"
  using create_dialog_submit [where w = "\<lparr>groups = Map.empty, datas = Map.empty, pending = [],
      lclients = (\<lambda>i. \<lparr>uid = None, roomName = [], ltoasts = [], listeners = []\<rparr>)\<rparr>"
      and i = 0 and d = "\<lparr>dlg_open = True, dlg_name = ''r'', dlg_password = ''p''\<rparr>"]
  by (simp add: form_valid_def)

end
