(* ===== verification/Spec2Isabelle.thy ===== *)
theory Spec2Isabelle
  imports Convergence RoomInfo Page Dialogs
begin

text \<open>
  \<^bold>\<open>A verification development for the board core of Chess-ts.\<close>

  \<^bold>\<open>The program.\<close> Two browsers play on one board through a shared Firestore document.
  The core is the \<open>Board\<close> component of \<^verbatim>\<open>src/src/chessboard.tsx\<close>: its state is
  the object \<open>piecePositions\<close> (piece key to square), the selected piece and the
  highlighted squares; \<open>handlePieceClick\<close> selects a piece and computes its candidate
  squares from \<open>pieceMovementMap\<close>; \<open>handleMove\<close> checks the path with
  \<open>isPathBlocked\<close>, resolves a capture, updates the board and pushes the new
  positions with \<open>updatePositionInDatabase\<close>; an \<open>onSnapshot\<close> listener, held by a
  \<open>useEffect\<close> on \<open>lobbyName\<close>, merges the room document into the board.
  The board's cells render the piece on each square as a button; a click on a piece
  runs the button's \<open>handlePieceClick\<close> and then, as the event bubbles, the cell's
  \<open>handleMove\<close>. The lobby of \<^verbatim>\<open>src/src/room.tsx\<close> creates a room (a group
  document and a seeded data document, \<open>createRoom\<close>) or joins one (a listener on the
  group document, \<open>joinRoom\<close> and \<open>addUserToGroup\<close>), and hands the room name to
  the board as its \<open>lobbyName\<close>.

  \<^bold>\<open>The theories.\<close>
  \<^item> \<open>Prelude\<close>: the rule collections, \<open>String.prototype.includes\<close> as
    \<open>str_includes\<close>, and generic lemmas on association lists and \<open>while_option\<close>.
  \<^item> \<open>JsObject\<close>: a string-keyed JavaScript object as an insertion-ordered association
    list (\<open>obj_set\<close> for \<open>{...m, [k]: v}\<close>, \<open>obj_delete\<close>, \<open>obj_spread\<close> for
    \<open>{...m, ...d}\<close>); each operation keeps the keys distinct and refines the
    corresponding operation on \<open>map_of\<close>.
  \<^item> \<open>Pieces\<close>: the \<open>Piece\<close> union as a datatype with its names, \<open>PiecePosition\<close>
    as a record, \<open>initialPositions\<close>, the colour test \<open>is_black\<close>, the board bounds and
    the sentinel; the invariant \<open>board_inv\<close> (distinct keys, one key per on-board square).
  \<^item> \<open>Movement\<close>: \<open>pieceMovementMap\<close> from the source; the offset tables, which come
    from a module \<open>./movement\<close> that is not among the sources, from the spec.
  \<^item> \<open>Board\<close>: \<open>board_state\<close> (the three \<open>useState\<close> hooks), \<open>handlePieceClick\<close>,
    \<open>isPathBlocked\<close> with its two \<open>while\<close> loops as \<open>while_option\<close> (\<open>path_walk\<close>),
    and the abstract contract \<open>line_blocked\<close> that \<open>isPathBlocked\<close> refines.
  \<^item> \<open>Move\<close>: \<open>handleMove\<close> as the list of its effects (\<open>action\<close>), the error it
    throws or \<open>None\<close> when it hangs; \<open>apply_local\<close> and \<open>commit_local\<close> give the
    local meaning of the effects.
  \<^item> \<open>Sync\<close>: the room documents as a store, \<open>updatePositionInDatabase\<close>,
    \<open>on_snapshot\<close>, the effect and its cleanup, and \<open>exec_actions\<close>, which runs a
    move's effects on client and store.
  \<^item> \<open>Render\<close>: the per-cell lookups of the render (\<open>pieceEntry\<close>,
    \<open>isHighlighted\<close>), the glyph chain, and \<open>click_cell\<close>: both handlers of a click
    on the closures of one render, \<open>handleMove\<close> run up to its first \<open>await\<close>
    (\<open>sync_part\<close>).
  \<^item> \<open>System\<close>: several browsers on one room as the inductive step relation
    \<open>sys_step\<close>: a click runs both handlers and \<open>handleMove\<close> up to its first
    \<open>await\<close>, any suspended continuation may resume, the store may deliver the room
    document to a listener at any time, the \<open>lobbyName\<close> prop may change. Each step is
    computed by a function (\<open>sys_click\<close>, \<open>sys_resume\<close>, \<open>sys_deliver\<close>,
    \<open>sys_lobby\<close>); \<open>sys_run\<close> replays a schedule of events, so reachable states are
    evaluated with \<open>code_simp\<close>. The invariants of the reachable states are proved
    by the rule \<open>sys_invariant_rule\<close> (rule induction over \<open>sys_step\<close>).
  \<^item> \<open>Convergence\<close>: for browsers that stay in one room, the invariant that relates
    every board that has received the room document to the document itself.
  \<^item> \<open>Auth\<close>: the authentication provider (\<^verbatim>\<open>src/src/context/auth-provider.tsx\<close>):
    the \<open>user\<close> and \<open>isLoading\<close> hooks, \<open>onAuthStateChanged\<close>, \<open>signIn\<close> with its
    profile document, \<open>signOut\<close>, and the redirect guard of the authenticated layout.
  \<^item> \<open>RoomInfo\<close>: the lobby's member card (\<open>RoomInfromation\<close>), its effect and the
    group and users listeners it registers, and what the card lists (\<open>member_card_view\<close>).
  \<^item> \<open>Lobby\<close>: the group documents, \<open>createRoom\<close>, \<open>joinRoom\<close>, the join listener
    \<open>join_callback\<close> and \<open>addUserToGroup\<close>, and \<open>lobby_step\<close>, one event of
    several browsers sharing the store (a dialog submitted, a snapshot delivered to one
    listener, one non-awaited write applied), so interleavings are explicit runs.
  \<^item> \<open>Dialogs\<close>: the create and join dialogs of the lobby as a state (open flag,
    the two controlled fields) with the \<open>required\<close> validation as the guard of a
    submission, the create handler with its reset of the fields, and \<open>ui_step\<close>, which
    composes the dialogs of every browser with the lobby's deliveries and writes.
  \<^item> \<open>Page\<close>: the router of \<^verbatim>\<open>src/src/main.tsx\<close> with the login route
    (\<^verbatim>\<open>routes/login.tsx\<close>), the authenticated layout and the root page
    (\<^verbatim>\<open>routes/_authenticated/index.tsx\<close>): the redirects of both routes, the root
    page's \<open>lobbyName\<close> state set by the lobby and passed to the board, the board
    mounted and unmounted with the root page, and the sign-out button. It composes
    \<open>Auth\<close> (the user that drives the redirects) with \<open>Sync\<close> (the board's
    listener effect and its cleanup).

  \<^bold>\<open>What is proved.\<close> \<open>isPathBlocked\<close> terminates on distinct squares and meets the
  contract of spec 4.2 (a rank, file or diagonal move is blocked exactly when a square
  strictly between is occupied); it loops forever when start and end coincide. Selecting a
  piece highlights exactly the on-grid translates of its square by its table's offsets,
  which stay on the board; selection toggles;
  keys outside the union throw. A capture removes exactly the captured key; a move onto
  a piece of the mover's colour is accepted and breaks the one-piece-per-square
  invariant, which every other move keeps; a blocked move changes nothing; a quiet move puts the
  mover on the destination, clears the highlights and leaves the moved piece selected. The snapshot merge overwrites exactly the keys of the remote map;
  the echo of a client's own move leaves its live board unchanged; snapshots with
  disjoint keys commute; the listener is held once per truthy room and released; a
  failed push keeps the optimistic local move. A click that captures by hitting the
  enemy's button leaves the captured, deleted key selected. The glyph chain gives each
  piece a glyph of its colour except the black pawns. Two concurrent joins of a
  one-member room leave it with three members, although with awaited (atomic) joins
  every room keeps at most two distinct members; the join listener is never removed,
  so a join is echoed by 'Reconnected'; \<open>createRoom\<close> overwrites an existing room.
  The member card's listeners outlive a room change, so it can show the previous room's
  members. A signed-out event from Firebase does not clear the provider's user;
  \<open>signIn\<close> writes a profile only once. Through the dialogs, every join listener
  carries a non-empty name and password, and a create submission writes the room and
  resets the fields when signed in, and rejects leaving the fields when signed out.
  In the system of several browsers, every coordinate in a board, a document, a
  highlight or a suspended continuation of a reachable state is a square of the board
  or the sentinel (by rule induction over \<open>sys_step\<close>); for browsers that stay in one room, a board
  that has received the room document is exactly the initial board overwritten by the
  document, whatever the schedule (convergence: every local change of a position is
  pushed in the same synchronous run, so keys the document lacks were never moved).
  The theorems below compose the components:
  a created room's seed breaks the board, and from a created room there are reachable
  states in which a stale highlight hangs the tab or lets the knight slide along a file.
  On the page, whatever the sequence of sign-ins, sign-outs and room changes, the board
  is mounted exactly while the root page is shown, listens to exactly the lobby's room,
  and a sign-out releases its listener.

  \<^bold>\<open>Loops and bounds.\<close> The only loops are the two of \<open>isPathBlocked\<close>. They are
  \<open>while_option\<close>, so no fuel is chosen: \<open>Some\<close> is a loop that exits, \<open>None\<close> one
  that does not, and termination on distinct squares is proved, not assumed.
  Coordinates are JavaScript numbers that stay small integers: they are \<open>int\<close>.

  The lobby's runs and the system's schedules are finite lists of events, so they need
  no fuel either; a click whose handler does not return is a missing step of
  \<open>sys_step\<close>, not a bounded wait.

  \<^bold>\<open>Abstractions.\<close> A delivery hands a listener the store's current document, where
  Firestore delivers each browser's local view (its own pending writes applied first);
  the lobby's \<open>Deliver\<close> may also repeat a snapshot that has not changed. The
  \<open>UpdateDb\<close> effects of a suspended \<open>handleMove\<close> continuation use the browser's
  \<open>lobbyName\<close> when it resumes, where the code uses the one its render captured; the two
  differ only when the room changes between a click and the resumption, which the
  convergence theorem excludes and the coordinate invariant does not depend on. The join
  listener reads the browser's current user, not the one captured at registration.
  The two awaited \<open>setDoc\<close>s of \<open>createRoom\<close> are one write, and names containing a
  \<open>/\<close> (on which \<open>doc()\<close> throws) are not distinguished.

  \<^bold>\<open>Not modelled.\<close> The layout and CSS classes of the render, the dialogs'
  markup beyond their texts, fields and buttons, the 'Leave-Room' button (it has no handler), the member card's layout,
  the loader's markup (only the fact that it hides the routes is modelled), the
  \<open>catch\<close> branches of \<open>createRoom\<close> (the model's store never rejects a \<open>setDoc\<close>), Firebase Authentication itself (its answers are inputs), the
  JSX of the login page and the mounting of the React tree in \<^verbatim>\<open>main.tsx\<close> beyond
  the provider around the router, the double effects of \<open>StrictMode\<close> in development
  builds, the Firebase configuration (\<^verbatim>\<open>fire-basesetting.tsx\<close>: constants and SDK
  initialisation, no behaviour of the program) and the bundler configuration
  (\<^verbatim>\<open>vite.config.ts\<close>), sounds and toasts beyond the messages
  recorded, and the order in which Firestore returns map keys (taken to be insertion
  order; the theorems about merges are stated on \<open>map_of\<close> where it matters).
\<close>

subsection \<open>Properties that span components\<close>

lemma KingPosition_not_piece: "''KingPosition'' \<notin> range piece_name"
proof
  assume "''KingPosition'' \<in> range piece_name"
  then obtain p where "piece_name p = ''KingPosition''" by auto
  then show False by (cases p) simp_all
qed

lemma seed_snapshot_positions:
  "piecePositions (board (on_snapshot (initial_client l) (Some room_seed))) =
     initialPositions @ [(''KingPosition'', mk_pos 7 4), (''QueenPosition'', mk_pos 7 3),
                         (''RookPosition'', mk_pos 7 0)]"
  by (simp add: initial_client_def initial_board_def room_seed_def positions_of_def
      obj_spread_def initialPositions_def)

lemma seed_snapshot_overlaps:
  "\<not> no_overlap (piecePositions (board (on_snapshot (initial_client l) (Some room_seed))))"
  unfolding seed_snapshot_positions by (simp add: no_overlap_def on_board_def initialPositions_def)

text \<open>
  C11: a room created by \<open>createRoom\<close> breaks the board. The creating browser's lobby
  passes the new room name to the board, whose first snapshot of the room's data
  document merges the seed: \<open>KingPosition\<close>, \<open>QueenPosition\<close> and \<open>RookPosition\<close> are
  not pieces, they land on the squares of the king, queen and rook, and the
  one-piece-per-square invariant no longer holds.
\<close>

theorem created_room_breaks_board:
  assumes "name \<noteq> []" "password \<noteq> []" "uid (lclients w i) = Some u"
  shows "\<not> no_overlap (piecePositions (board (on_snapshot
             (initial_client (Some (roomName (lclients (lobby_step w (Create i name password)) i))))
             (datas (lobby_step w (Create i name password))
                (roomName (lclients (lobby_step w (Create i name password)) i)))))) \<and>
         (''KingPosition'', mk_pos 7 4) \<in> set (piecePositions (board (on_snapshot
             (initial_client (Some (roomName (lclients (lobby_step w (Create i name password)) i))))
             (datas (lobby_step w (Create i name password))
                (roomName (lclients (lobby_step w (Create i name password)) i)))))) \<and>
         ''KingPosition'' \<notin> range piece_name"
proof -
  have r: "roomName (lclients (lobby_step w (Create i name password)) i) = name"
    and d: "datas (lobby_step w (Create i name password)) name = Some room_seed"
    using assms by (simp_all add: createRoom_def)
  show ?thesis
    unfolding r d
    using seed_snapshot_overlaps [of "Some name"] seed_snapshot_positions [of "Some name"]
      KingPosition_not_piece
    by simp
qed

theorem created_room_breaks_board_witness:
  "\<not> no_overlap (piecePositions (board (on_snapshot (initial_client (Some ''r''))
      (Some room_seed))))"
proof -
  let ?w = "\<lparr>groups = Map.empty, datas = Map.empty, pending = [],
             lclients = (\<lambda>k. \<lparr>uid = Some ''a'', roomName = [], ltoasts = [], listeners = []\<rparr>)\<rparr>"
  have "roomName (lclients (lobby_step ?w (Create 0 ''r'' ''pw'')) 0) = ''r'' \<and>
        datas (lobby_step ?w (Create 0 ''r'' ''pw'')) ''r'' = Some room_seed"
    by (simp add: createRoom_def)
  then show ?thesis
    using created_room_breaks_board [of "''r''" "''pw''" ?w 0 "''a''"] by simp
qed

text \<open>
  C5: stale highlights hang the tab. In a room created by \<open>createRoom\<close>, browser 0
  selects \<open>pawn1\<close>, whose only candidate is (5,0); browser 1 (nothing gates turns or
  sides) selects the same pawn and moves it there, and the store delivers the new
  position to browser 0. That state is reachable, (5,0) is still highlighted on
  browser 0 and holds the selected pawn, and a click on it has no step: \<open>handleMove\<close>
  calls \<open>isPathBlocked\<close> with equal squares and never returns.
\<close>

theorem stale_highlight_hangs_tab:
  "\<exists>s. sys_step\<^sup>*\<^sup>* (sys_init [''room'' \<mapsto> room_seed] ''room'') s \<and>
     mk_pos 5 0 \<in> set (availableMoves (board (cls s 0))) \<and>
     map_of (piecePositions (board (cls s 0))) ''pawn1'' = Some (mk_pos 5 0) \<and>
     sys_click s 0 5 0 False = None"
proof -
  let ?init = "sys_init [''room'' \<mapsto> room_seed] ''room''"
  let ?es = "[EvClick 0 6 0 True, EvClick 1 6 0 True, EvClick 1 5 0 False, EvDeliver 0 ''room'']"
  let ?s = "the (sys_run ?init ?es)"
  let ?b = "board (cls ?s 0)"
  have r: "sys_step\<^sup>*\<^sup>* ?init ?s" by (rule sys_run_the) code_simp
  have hl: "mk_pos 5 0 \<in> set (availableMoves ?b)" by code_simp
  have sel: "selectedPiece ?b = Some ''pawn1''" by code_simp
  have pos: "map_of (piecePositions ?b) ''pawn1'' = Some (mk_pos 5 0)" by code_simp
  have hl': "isHighlighted ?b (pos_x (mk_pos 5 0)) (pos_y (mk_pos 5 0))" by code_simp
  have cols: "list_all (\<lambda>(_, q). pos_y (mk_pos 5 0) \<le> pos_y q) (piecePositions ?b)" by code_simp
  have "cell_click ?b (pos_x (mk_pos 5 0)) (pos_y (mk_pos 5 0)) = None"
    by (rule cell_click_same_square_hangs [OF sel _ pos hl' cols]) simp
  then have "sys_click ?s 0 (pos_x (mk_pos 5 0)) (pos_y (mk_pos 5 0)) False = None"
    by (rule sys_click_hangs)
  then have "sys_click ?s 0 5 0 False = None" by (simp only: PiecePosition.select_convs)
  with r hl pos show ?thesis by blast
qed
text \<open>
  C6: stale highlights let a piece make a move its table does not have. Browser 0
  selects the knight on (7,1), whose candidates include (5,0) and (5,2); browser 1
  moves that knight to (5,2) and the store delivers it to browser 0; browser 0 then
  clicks its stale highlight (5,0). \<open>handleMove\<close> starts from the knight's current
  square, finds the file between clear, and commits a two-square slide along the file,
  an offset that is not in the knight's table.
\<close>

theorem stale_highlight_knight_slides:
  "\<exists>s s'. sys_step\<^sup>*\<^sup>* (sys_init [''room'' \<mapsto> room_seed] ''room'') s \<and> sys_step s s' \<and>
     map_of (piecePositions (board (cls s 0))) ''horse'' = Some (mk_pos 5 2) \<and>
     map_of (piecePositions (board (cls s' 0))) ''horse'' = Some (mk_pos 5 0) \<and>
     mk_pos 0 (-2) \<notin> set (pieceMovementMap Horse)"
proof -
  let ?init = "sys_init [''room'' \<mapsto> room_seed] ''room''"
  let ?es = "[EvClick 0 7 1 True, EvClick 1 7 1 True, EvClick 1 5 2 False, EvDeliver 0 ''room'']"
  let ?s = "the (sys_run ?init ?es)"
  let ?s' = "the (sys_click ?s 0 5 0 False)"
  have r: "sys_step\<^sup>*\<^sup>* ?init ?s" by (rule sys_run_the) code_simp
  have on: "on_board (mk_pos 5 0)" by (simp add: on_board_def)
  have st: "sys_step ?s ?s'" by (rule sys_click_the [OF on]) code_simp
  have a: "map_of (piecePositions (board (cls ?s 0))) ''horse'' = Some (mk_pos 5 2)" by code_simp
  have b: "map_of (piecePositions (board (cls ?s' 0))) ''horse'' = Some (mk_pos 5 0)" by code_simp
  have c: "mk_pos 0 (-2) \<notin> set (pieceMovementMap Horse)" by (simp add: HorseMovement_def)
  from r st a b c show ?thesis by blast
qed

end
